(* ===== verification/Prelude.thy ===== *)
theory Prelude
  imports Main "HOL-Library.Word" "HOL-Library.Multiset" "HOL-Library.List_Lexorder"
begin

text \<open>
  Shared vocabulary of the development: bytes and byte strings, the exceptions the C++ code
  throws, the result type in which a throw is a value, and the generic lemmas and rule
  collections that the component theories use.

  A C++ \<^verbatim>\<open>std::vector<uint8_t>\<close>, and a pointer with a length, is a list of
  8-bit words. A \<^verbatim>\<open>std::string\<close> is a HOL string, whose characters are
  bytes. A \<^verbatim>\<open>size_t\<close> that only counts the elements of such an object is a
  natural number; where the source computes with it beyond that count, the arithmetic is
  done on words and says so.
\<close>

unbundle bit_operations_syntax

section \<open>Bytes and strings\<close>

type_synonym byte = "8 word"
type_synonym bytes = "byte list"

definition byte_of_char :: "char \<Rightarrow> byte" where
  "byte_of_char c = of_char c"

definition char_of_byte :: "byte \<Rightarrow> char" where
  "char_of_byte b = char_of (unat b)"

definition bytes_of_string :: "string \<Rightarrow> bytes" where
  "bytes_of_string s = map byte_of_char s"

definition string_of_bytes :: "bytes \<Rightarrow> string" where
  "string_of_bytes bs = map char_of_byte bs"

section \<open>Exceptions and results\<close>

text \<open>
  The exception types the sources distinguish: \<^verbatim>\<open>std::runtime_error\<close>, its
  subclass \<^verbatim>\<open>platform::TransientNetworkError\<close>, the two standard exceptions
  of \<^verbatim>\<open>std::stoi\<close>/\<^verbatim>\<open>std::stoul\<close>, and those of the JSON
  library. Every one is a \<^verbatim>\<open>std::exception\<close> with a message.
\<close>

datatype exn =
    Runtime_error (what: string)
  | Transient_error (what: string)
  | Invalid_argument (what: string)
  | Out_of_range (what: string)
  | Json_error (what: string)

type_synonym 'a result = "exn + 'a"

abbreviation throw :: "string \<Rightarrow> 'a result" where
  "throw msg \<equiv> Inl (Runtime_error msg)"

definition bindE :: "'a result \<Rightarrow> ('a \<Rightarrow> 'b result) \<Rightarrow> 'b result" where
  "bindE m f = (case m of Inl e \<Rightarrow> Inl e | Inr x \<Rightarrow> f x)"

definition checkE :: "bool \<Rightarrow> string \<Rightarrow> unit result" where
  "checkE ok msg = (if ok then Inr () else throw msg)"

section \<open>Rule collections\<close>

named_theorems result_iff \<open>inversion of a successful result\<close>
named_theorems tlv_simps \<open>evaluation of the DER reader on encoder output\<close>

section \<open>Generic lemmas\<close>

lemma bindE_simps [simp]:
  "bindE (Inl e) f = Inl e"
  "bindE (Inr x) f = f x"
  by (simp_all add: bindE_def)

lemma bindE_Inr_right [simp]: "bindE m Inr = m"
  by (cases m) simp_all

lemma bindE_Inr_iff [result_iff]:
  "bindE m f = Inr y \<longleftrightarrow> (\<exists>x. m = Inr x \<and> f x = Inr y)"
  by (cases m) simp_all

lemma bindE_cong [fundef_cong]:
  "m = m' \<Longrightarrow> (\<And>x. m' = Inr x \<Longrightarrow> f x = g x) \<Longrightarrow> bindE m f = bindE m' g"
  by (cases m') simp_all

lemma checkE_Inr_iff [result_iff]: "checkE ok msg = Inr u \<longleftrightarrow> ok"
  by (simp add: checkE_def)

lemma checkE_simps [simp]:
  "checkE True msg = Inr ()"
  "checkE False msg = throw msg"
  by (simp_all add: checkE_def)

lemma throw_if_Inr_iff [result_iff]:
  "(if b then Inl e else m) = Inr y \<longleftrightarrow> \<not> b \<and> m = Inr y"
  by simp

lemma byte_of_char_inverse [simp]: "char_of_byte (byte_of_char c) = c"
proof -
  have "(of_char c :: nat) < 256" by (rule nat_of_char_less_256)
  moreover have "(of_char c :: byte) = of_nat (of_char c)"
    by (simp add: of_nat_of_char)
  ultimately show ?thesis
    by (simp add: char_of_byte_def byte_of_char_def unat_of_nat)
qed

lemma char_of_byte_inverse [simp]: "byte_of_char (char_of_byte b) = b"
proof -
  have "unat b < 256" using unsigned_less [of b, where ?'a = nat] by simp
  then have "(of_char (char_of (unat b)) :: nat) = unat b"
    by simp
  moreover have "(of_char (char_of (unat b)) :: byte) = of_nat (of_char (char_of (unat b)))"
    by (simp only: of_nat_of_char)
  ultimately show ?thesis
    by (simp add: byte_of_char_def char_of_byte_def)
qed

lemma string_bytes_inverse [simp]:
  "string_of_bytes (bytes_of_string s) = s"
  "bytes_of_string (string_of_bytes bs) = bs"
  by (simp_all add: string_of_bytes_def bytes_of_string_def comp_def)

lemma unat_drop_bit: "unat (drop_bit n (w :: 'a::len word)) = unat w div 2 ^ n"
  unfolding unat_drop_bit_eq by (rule drop_bit_eq_div)

lemma unat_take_bit: "unat (take_bit n (w :: 'a::len word)) = unat w mod 2 ^ n"
  unfolding unsigned_take_bit_eq by (rule take_bit_eq_mod)

lemma ucast_of_nat_down:
  assumes "LENGTH('b) \<le> LENGTH('a)"
  shows "(ucast (of_nat n :: 'a::len word) :: 'b::len word) = of_nat n"
proof -
  have "n mod 2 ^ LENGTH('a) mod 2 ^ LENGTH('b) = n mod 2 ^ LENGTH('b)"
    using assms by (intro mod_mod_cancel le_imp_power_dvd)
  then show ?thesis
    by (simp add: word_unat_eq_iff unsigned_ucast_eq unat_of_nat take_bit_eq_mod)
qed

lemma push_bit_or_nat:
  fixes a b :: nat
  assumes "b < 2 ^ n"
  shows "push_bit n a OR b = a * 2 ^ n + b"
proof -
  have "push_bit n a AND b = 0"
  proof (rule bit_eqI)
    fix m
    have "bit b m \<Longrightarrow> m < n"
      using assms by (metis bit_take_bit_iff take_bit_nat_eq_self)
    then show "bit (push_bit n a AND b) m = bit (0 :: nat) m"
      by (auto simp: bit_simps)
  qed
  then have "push_bit n a + b = push_bit n a OR b"
    by (rule disjunctive_add_eq_or)
  then show ?thesis by (simp add: push_bit_eq_mult)
qed

lemma base256_digits:
  fixes n :: nat
  shows "65536 * (n div 65536) + n div 256 mod 256 * 256 + n mod 256 = n"
    and "16777216 * (n div 16777216) + 65536 * (n div 65536 mod 256) + n div 256 mod 256 * 256 + n mod 256 = n"
proof -
  have d2: "n div 65536 = n div 256 div 256" and d3: "n div 16777216 = n div 65536 div 256"
    by (simp_all flip: div_mult2_eq)
  have m: "x = 256 * (x div 256) + x mod 256" for x :: nat by simp
  show two: "65536 * (n div 65536) + n div 256 mod 256 * 256 + n mod 256 = n"
    using m [of n] m [of "n div 256"] unfolding d2 by linarith
  show "16777216 * (n div 16777216) + 65536 * (n div 65536 mod 256) + n div 256 mod 256 * 256 + n mod 256 = n"
    using two m [of "n div 65536"] unfolding d3 by linarith
qed

lemma unat_byte_less [simp]: "unat (b :: byte) < 256"
  using unsigned_less [of b, where ?'a = nat] by simp

lemma unat_byte_le: "unat (b :: byte) \<le> 255"
  using unat_byte_less [of b] by linarith

end
