(* ===== verification/Cxx_Strings.thy ===== *)
theory Cxx_Strings
  imports Prelude
begin

text \<open>
  The parts of the C and C++ standard libraries on strings that the sources call:
  \<^verbatim>\<open>std::string::find\<close>, \<^verbatim>\<open>substr\<close>, the
  \<^verbatim>\<open>ctype\<close> predicates in the \<^verbatim>\<open>C\<close> locale (the program
  never calls \<^verbatim>\<open>setlocale\<close>), \<^verbatim>\<open>strtoul\<close> and its
  wrappers \<^verbatim>\<open>stoul\<close> and \<^verbatim>\<open>stoi\<close>, and
  \<^verbatim>\<open>std::to_string\<close>. \<^verbatim>\<open>npos\<close> is \<open>None\<close>, and
  \<^verbatim>\<open>unsigned long\<close> has 64 bits, as on the LP64 POSIX targets.
\<close>

section \<open>Searching and slicing\<close>

primrec index_of :: "char \<Rightarrow> string \<Rightarrow> nat option" where
  "index_of c [] = None"
| "index_of c (x # xs) = (if x = c then Some 0 else map_option Suc (index_of c xs))"

text \<open>\<^verbatim>\<open>s.find(c, pos)\<close>\<close>

definition find_char :: "string \<Rightarrow> char \<Rightarrow> nat \<Rightarrow> nat option" where
  "find_char s c pos =
     (if length s < pos then None else map_option ((+) pos) (index_of c (drop pos s)))"

fun index_of_str :: "string \<Rightarrow> string \<Rightarrow> nat option" where
  "index_of_str n [] = (if n = [] then Some 0 else None)"
| "index_of_str n (x # xs) =
     (if take (length n) (x # xs) = n then Some 0 else map_option Suc (index_of_str n xs))"

text \<open>\<^verbatim>\<open>s.find(needle, pos)\<close>\<close>

definition find_str :: "string \<Rightarrow> string \<Rightarrow> nat \<Rightarrow> nat option" where
  "find_str s n pos =
     (if length s < pos then None else map_option ((+) pos) (index_of_str n (drop pos s)))"

text \<open>
  \<^verbatim>\<open>s.substr(pos, n)\<close> and \<^verbatim>\<open>s.substr(pos)\<close>. Both throw when
  \<open>pos\<close> is past the end, which no call of the sources can reach: every \<open>pos\<close> is 0 or one
  past a position that \<open>find\<close> returned.
\<close>

definition substr :: "string \<Rightarrow> nat \<Rightarrow> nat \<Rightarrow> string" where
  "substr s pos n = take n (drop pos s)"

definition substr_from :: "string \<Rightarrow> nat \<Rightarrow> string" where
  "substr_from s pos = drop pos s"

definition starts_with :: "string \<Rightarrow> string \<Rightarrow> bool" where
  "starts_with s p \<longleftrightarrow> take (length p) s = p"

section \<open>Character classes\<close>

definition in_range :: "char \<Rightarrow> char \<Rightarrow> char \<Rightarrow> bool" where
  "in_range lo hi c \<longleftrightarrow> (of_char lo :: nat) \<le> of_char c \<and> (of_char c :: nat) \<le> of_char hi"

definition isdigit :: "char \<Rightarrow> bool" where
  "isdigit c = in_range (CHR ''0'') (CHR ''9'') c"

definition isalnum :: "char \<Rightarrow> bool" where
  "isalnum c \<longleftrightarrow> isdigit c \<or> in_range (CHR ''a'') (CHR ''z'') c \<or> in_range (CHR ''A'') (CHR ''Z'') c"

definition isspace :: "char \<Rightarrow> bool" where
  "isspace c \<longleftrightarrow> c \<in> {CHR '' '', CHR 0x09, CHR 0x0A, CHR 0x0B, CHR 0x0C, CHR 0x0D}"

definition tolower :: "char \<Rightarrow> char" where
  "tolower c = (if in_range (CHR ''A'') (CHR ''Z'') c then char_of (of_char c + 32 :: nat) else c)"

section \<open>Numbers\<close>

definition digit_value :: "char \<Rightarrow> nat" where
  "digit_value c =
     (if isdigit c then of_char c - 48
      else if in_range (CHR ''a'') (CHR ''z'') c then of_char c - 87
      else if in_range (CHR ''A'') (CHR ''Z'') c then of_char c - 55
      else 36)"

definition is_base_digit :: "nat \<Rightarrow> char \<Rightarrow> bool" where
  "is_base_digit base c \<longleftrightarrow> digit_value c < base"

definition digits_value :: "nat \<Rightarrow> string \<Rightarrow> nat" where
  "digits_value base ds = foldl (\<lambda>acc c. acc * base + digit_value c) 0 ds"

text \<open>
  The subject sequence of \<^verbatim>\<open>strtoul\<close> and \<^verbatim>\<open>strtol\<close>: white
  space, an optional sign, for base 16 an optional prefix \<^verbatim>\<open>0x\<close> that a digit
  follows, then the digits. The result is the sign, the digits and the rest of the string;
  there was no conversion when the digits are empty.
\<close>

definition skip_hex_prefix :: "nat \<Rightarrow> string \<Rightarrow> string" where
  "skip_hex_prefix base s =
     (case s of
        z # x # d # rest \<Rightarrow>
          if base = 16 \<and> z = CHR ''0'' \<and> (x = CHR ''x'' \<or> x = CHR ''X'') \<and> is_base_digit 16 d
          then d # rest else s
      | _ \<Rightarrow> s)"

definition scan_number :: "nat \<Rightarrow> string \<Rightarrow> bool \<times> string \<times> string" where
  "scan_number base s =
     (let s1 = dropWhile isspace s;
          neg = (s1 \<noteq> [] \<and> hd s1 = CHR ''-'');
          s2 = (if s1 \<noteq> [] \<and> (hd s1 = CHR ''-'' \<or> hd s1 = CHR ''+'') then tl s1 else s1);
          s3 = skip_hex_prefix base s2
      in (neg, takeWhile (is_base_digit base) s3, dropWhile (is_base_digit base) s3))"

text \<open>
  \<^verbatim>\<open>strtoul(s, &end, base)\<close>: the value, the rest of the string at
  \<^verbatim>\<open>end\<close>, and whether \<^verbatim>\<open>errno\<close> is set to
  \<^verbatim>\<open>ERANGE\<close>. A minus sign negates the value in the unsigned type.
\<close>

definition strtoul :: "nat \<Rightarrow> string \<Rightarrow> 64 word \<times> string \<times> bool" where
  "strtoul base s =
     (case scan_number base s of (neg, ds, rest) \<Rightarrow>
        let v = digits_value base ds in
        if ds = [] then (0, s, False)
        else if 2 ^ 64 \<le> v then (- 1, rest, True)
        else ((if neg then - of_nat v else of_nat v), rest, False))"

text \<open>\<^verbatim>\<open>std::stoul(s, nullptr, base)\<close>\<close>

definition stoul :: "nat \<Rightarrow> string \<Rightarrow> (64 word) result" where
  "stoul base s =
     (case scan_number base s of (neg, ds, rest) \<Rightarrow>
        if ds = [] then Inl (Invalid_argument ''stoul'')
        else case strtoul base s of (v, _, erange) \<Rightarrow>
          if erange then Inl (Out_of_range ''stoul'') else Inr v)"

text \<open>\<^verbatim>\<open>std::stoi(s)\<close>, base 10 and a 32-bit \<^verbatim>\<open>int\<close>\<close>

definition stoi :: "string \<Rightarrow> int result" where
  "stoi s =
     (case scan_number 10 s of (neg, ds, rest) \<Rightarrow>
        let v = (if neg then - int (digits_value 10 ds) else int (digits_value 10 ds)) in
        if ds = [] then Inl (Invalid_argument ''stoi'')
        else if v < - (2 ^ 31) \<or> 2 ^ 31 \<le> v then Inl (Out_of_range ''stoi'')
        else Inr v)"

text \<open>\<^verbatim>\<open>std::to_string\<close> on an unsigned and on a signed number\<close>

fun to_string_nat :: "nat \<Rightarrow> string" where
  "to_string_nat n =
     (if n < 10 then [char_of (48 + n)] else to_string_nat (n div 10) @ [char_of (48 + n mod 10)])"

declare to_string_nat.simps [simp del]

definition to_string_int :: "int \<Rightarrow> string" where
  "to_string_int i = (if i < 0 then CHR ''-'' # to_string_nat (nat (- i)) else to_string_nat (nat i))"

section \<open>Lemmas on searching\<close>

lemma index_of_None_iff [simp]: "index_of c s = None \<longleftrightarrow> c \<notin> set s"
  by (induction s) auto

lemma map_option_add [simp]:
  "map_option ((+) (0 :: nat)) x = x"
  "map_option Suc (map_option ((+) n) x) = map_option ((+) (Suc n)) x"
  by (cases x; simp)+

lemma index_of_append_notin:
  "c \<notin> set xs \<Longrightarrow> index_of c (xs @ ys) = map_option ((+) (length xs)) (index_of c ys)"
  by (induction xs) (auto simp del: option.map_comp)

lemma index_of_first [simp]: "c \<notin> set xs \<Longrightarrow> index_of c (xs @ c # ys) = Some (length xs)"
  by (simp add: index_of_append_notin)

lemma index_of_SomeD:
  "index_of c s = Some i \<Longrightarrow> i < length s \<and> s ! i = c \<and> c \<notin> set (take i s)"
  by (induction s arbitrary: i) (auto split: if_splits)

lemma index_of_Some_split:
  assumes "index_of c s = Some i"
  shows "s = take i s @ c # drop (Suc i) s"
  using index_of_SomeD [OF assms] by (metis id_take_nth_drop)

lemma find_char_0 [simp]: "find_char s c 0 = index_of c s"
  by (simp add: find_char_def)

lemma find_char_after:
  "find_char (xs @ c' # ys) c (Suc (length xs)) = map_option ((+) (Suc (length xs))) (index_of c ys)"
  by (simp add: find_char_def)

lemma index_of_str_self: "index_of_str n (n @ xs) = Some 0"
  by (cases n; cases xs) auto

lemma index_of_str_bound: "index_of_str n xs = Some i \<Longrightarrow> i + length n \<le> length xs"
proof (induction xs arbitrary: i)
  case (Cons x xs)
  show ?case
  proof (cases "take (length n) (x # xs) = n")
    case True
    with Cons.prems show ?thesis by (metis add_0 index_of_str.simps(2) nat_le_linear option.inject take_all_iff length_take min.absorb_iff2)
  next
    case False
    with Cons show ?thesis by auto
  qed
qed (auto split: if_splits)

lemma index_of_str_append:
  "index_of_str n xs = Some i \<Longrightarrow> index_of_str n (xs @ ys) = Some i"
proof (induction xs arbitrary: i)
  case (Cons x xs)
  have "length n \<le> length (x # xs)"
    using index_of_str_bound [OF Cons.prems] by simp
  then have "take (length n) (x # xs @ ys) = take (length n) (x # xs)"
    by (metis append_Cons append_Nil2 diff_is_0_eq take0 take_append)
  with Cons show ?case by (auto split: if_splits)
qed (use index_of_str_self [of "[]" ys] in \<open>auto split: if_splits\<close>)

lemma index_of_str_found: "index_of_str n (xs @ n @ ys) \<noteq> None"
proof (induction xs)
  case Nil
  then show ?case by (simp add: index_of_str_self)
qed auto

lemma index_of_str_SomeD:
  "index_of_str n xs = Some i \<Longrightarrow> take (length n) (drop i xs) = n"
  by (induction xs arbitrary: i) (auto split: if_splits)

lemma index_of_str_hd:
  assumes "n \<noteq> []" "hd n \<notin> set xs"
  shows "index_of_str n (xs @ n @ ys) = Some (length xs)"
  using assms(2)
proof (induction xs)
  case (Cons x xs)
  have "take (length n) (x # zs) \<noteq> n" for zs
    using Cons.prems assms(1) by (cases n) auto
  with Cons show ?case by simp
qed (simp add: index_of_str_self)

lemma find_str_0 [simp]: "find_str s n 0 = index_of_str n s"
  by (simp add: find_str_def)

lemma find_str_after: "find_str (xs @ ys) n (length xs) = map_option ((+) (length xs)) (index_of_str n ys)"
  by (simp add: find_str_def)

section \<open>Lemmas on decimal numbers\<close>

lemma digit_char:
  assumes "n < 10"
  shows "isdigit (char_of (48 + n))" and "digit_value (char_of (48 + n)) = n"
    and "\<not> isspace (char_of (48 + n))" and "char_of (48 + n) \<notin> {CHR ''+'', CHR ''-'', CHR ''.''}"
proof -
  let ?c = "char_of (48 + n) :: char"
  have v: "(of_char ?c :: nat) = 48 + n" using assms by simp
  then show "isdigit ?c" and dv: "digit_value ?c = n"
    using assms by (simp_all add: isdigit_def in_range_def digit_value_def)
  have other: "(of_char d :: nat) < 48 \<Longrightarrow> ?c \<noteq> d" for d using v by auto
  show "\<not> isspace ?c" using other by (simp add: isspace_def)
  show "?c \<notin> {CHR ''+'', CHR ''-'', CHR ''.''}" using other by simp
qed

lemma digit_chars [simp]:
  "char_of (48 :: nat) = CHR ''0''" "char_of (49 :: nat) = CHR ''1''" "char_of (50 :: nat) = CHR ''2''"
  "char_of (51 :: nat) = CHR ''3''" "char_of (52 :: nat) = CHR ''4''" "char_of (53 :: nat) = CHR ''5''"
  "char_of (54 :: nat) = CHR ''6''" "char_of (55 :: nat) = CHR ''7''" "char_of (56 :: nat) = CHR ''8''"
  "char_of (57 :: nat) = CHR ''9''"
  by (simp_all add: char_of_def bit_0)

lemma to_string_nat_digits:
  "\<forall>c \<in> set (to_string_nat n). isdigit c \<and> is_base_digit 10 c \<and> \<not> isspace c \<and> c \<notin> {CHR ''+'', CHR ''-'', CHR ''.''}"
proof (induction n rule: to_string_nat.induct)
  case (1 n)
  note d = digit_char [of "n mod 10"] digit_char [of n]
  show ?case
  proof (cases "n < 10")
    case True
    with d show ?thesis by (simp add: to_string_nat.simps [of n] is_base_digit_def)
  next
    case False
    with d 1 show ?thesis
      by (auto simp: to_string_nat.simps [of n] is_base_digit_def)
  qed
qed

lemma to_string_nat_not_Nil [simp]: "to_string_nat n \<noteq> []"
  by (simp add: to_string_nat.simps [of n])

lemma digits_value_append:
  "digits_value base (xs @ [c]) = digits_value base xs * base + digit_value c"
  by (simp add: digits_value_def)

lemma digits_value_to_string [simp]: "digits_value 10 (to_string_nat n) = n"
proof (induction n rule: to_string_nat.induct)
  case (1 n)
  show ?case
  proof (cases "n < 10")
    case True
    then show ?thesis
      using digit_char(2) [of n] by (simp add: to_string_nat.simps [of n] digits_value_def)
  next
    case False
    with 1 show ?thesis
      using digit_char(2) [of "n mod 10"]
      by (simp add: to_string_nat.simps [of n] digits_value_append)
  qed
qed

text \<open>Scanning a printed number stops at the first character that is not a digit.\<close>

lemma scan_to_string:
  assumes "rest = [] \<or> \<not> is_base_digit 10 (hd rest)"
  shows "scan_number 10 (to_string_nat n @ rest) = (False, to_string_nat n, rest)"
proof -
  note d = to_string_nat_digits [of n]
  obtain c cs where s: "to_string_nat n = c # cs"
    by (cases "to_string_nat n") simp_all
  with d have c: "\<not> isspace c" "c \<noteq> CHR ''+''" "c \<noteq> CHR ''-''" by auto
  have hex: "skip_hex_prefix 10 s = s" for s
    by (auto simp: skip_hex_prefix_def split: list.splits)
  have tw: "takeWhile (is_base_digit 10) (to_string_nat n @ rest) = to_string_nat n"
    using d assms by (cases rest) (auto simp: takeWhile_append2)
  have dw: "dropWhile (is_base_digit 10) (to_string_nat n @ rest) = rest"
    using d assms by (cases rest) (auto simp: dropWhile_append2)
  from tw dw show ?thesis
    by (simp add: scan_number_def Let_def hex s c)
qed

lemma stoi_to_string: "n < 2 ^ 31 \<Longrightarrow> stoi (to_string_nat n) = Inr (int n)"
  using scan_to_string [of "[]" n] by (simp add: stoi_def)

lemma strtoul_to_string:
  assumes "rest = [] \<or> \<not> is_base_digit 10 (hd rest)" "n < 2 ^ 64"
  shows "strtoul 10 (to_string_nat n @ rest) = (of_nat n, rest, False)"
  using assms by (simp add: strtoul_def scan_to_string)

end
