(* ===== verification/Der.thy ===== *)
theory Der
  imports Cxx_Strings
begin

text \<open>
  The DER writer, \<^verbatim>\<open>src/src/der.cpp\<close> and \<^verbatim>\<open>src/src/der.hpp\<close>.
  Every operation is a function on byte lists. \<^verbatim>\<open>der_oid\<close> parses its
  argument with a loop that need not end (a component without digits makes no progress), so
  it is a partial function: \<open>None\<close> is the value of a call that never returns.
\<close>

section \<open>Length and header\<close>

definition write_length :: "bytes \<Rightarrow> nat \<Rightarrow> bytes" where
  "write_length out len =
     (if len < 0x80 then out @ [of_nat len]
      else if len < 0x100 then out @ [0x81, of_nat len]
      else if len < 0x10000 then out @ [0x82, of_nat (drop_bit 8 len), of_nat len]
      else if len < 0x1000000
        then out @ [0x83, of_nat (drop_bit 16 len), of_nat (drop_bit 8 len), of_nat len]
      else out @ [0x84, of_nat (drop_bit 24 len), of_nat (drop_bit 16 len),
                  of_nat (drop_bit 8 len), of_nat len])"

definition der_wrap :: "byte \<Rightarrow> bytes \<Rightarrow> bytes" where
  "der_wrap tag data = write_length [tag] (length data) @ data"

definition der_cat :: "bytes list \<Rightarrow> bytes" where
  "der_cat parts = foldl (@) [] parts"

definition der_wrap_parts :: "byte \<Rightarrow> bytes list \<Rightarrow> bytes" where
  "der_wrap_parts tag parts = der_wrap tag (der_cat parts)"

definition DER_SEQUENCE :: byte where "DER_SEQUENCE = 0x30"
definition DER_SET :: byte where "DER_SET = 0x31"

section \<open>Integers\<close>

fun der_integer_skip :: "bytes \<Rightarrow> bytes" where
  "der_integer_skip (a # b # rest) =
     (if a = 0 \<and> b AND 0x80 = 0 then der_integer_skip (b # rest) else a # b # rest)"
| "der_integer_skip data = data"

definition der_integer_bytes :: "bytes \<Rightarrow> bytes" where
  "der_integer_bytes data =
     (let d = der_integer_skip data in
      if d \<noteq> [] \<and> hd d AND 0x80 \<noteq> 0 then der_wrap 0x02 (0 # d) else der_wrap 0x02 d)"

text \<open>
  The two loops of the \<^verbatim>\<open>int64_t\<close> overload: counting the bytes of the value,
  and filling the buffer from its last byte.
\<close>

function count_bytes :: "64 word \<Rightarrow> nat" where
  "count_bytes tmp = (if tmp > 0 then Suc (count_bytes (drop_bit 8 tmp)) else 0)"
  by pat_completeness auto
termination
proof (relation "measure unat")
  fix tmp :: "64 word"
  assume "0 < tmp"
  then have "0 < unat tmp" by (simp add: word_less_nat_alt)
  moreover have "unat (drop_bit 8 tmp) = unat tmp div 2 ^ 8"
    by (rule unat_drop_bit)
  ultimately show "(drop_bit 8 tmp, tmp) \<in> measure unat" by simp
qed simp

declare count_bytes.simps [simp del]

fun fill_bytes :: "nat \<Rightarrow> 64 word \<Rightarrow> bytes" where
  "fill_bytes 0 v = []"
| "fill_bytes (Suc i) v = fill_bytes i (drop_bit 8 v) @ [ucast (v AND 0xff)]"

definition der_integer :: "64 word \<Rightarrow> bytes result" where
  "der_integer value =
     (if sint value < 0 then throw ''negative integers not supported''
      else if value = 0 then Inr (der_integer_bytes [0])
      else Inr (der_integer_bytes (fill_bytes (count_bytes value) value)))"

section \<open>Object identifiers\<close>

partial_function (option) oid_components :: "string \<Rightarrow> 64 word list \<Rightarrow> 64 word list option" where
  "oid_components p components =
     (if p = [] then Some components
      else case strtoul 10 p of (v, end, _) \<Rightarrow>
        oid_components (if end \<noteq> [] \<and> hd end = CHR ''.'' then tl end else end) (components @ [v]))"

text \<open>
  The base-128 digits of one component, least significant first, as the
  \<^verbatim>\<open>do\<close>/\<^verbatim>\<open>while\<close> loop leaves them in its buffer.
\<close>

function base128_digits :: "64 word \<Rightarrow> bytes" where
  "base128_digits v =
     (ucast (v AND 0x7f) # (if drop_bit 7 v > 0 then base128_digits (drop_bit 7 v) else []))"
  by pat_completeness auto
termination
proof (relation "measure unat")
  fix v :: "64 word"
  assume pos: "0 < drop_bit 7 v"
  have eq: "unat (drop_bit 7 v) = unat v div 2 ^ 7"
    by (rule unat_drop_bit)
  from pos have "0 < unat (drop_bit 7 v)" by (simp add: word_less_nat_alt)
  with eq show "(drop_bit 7 v, v) \<in> measure unat" by simp
qed simp

declare base128_digits.simps [simp del]

definition oid_arc :: "64 word \<Rightarrow> bytes" where
  "oid_arc v =
     (let buf = base128_digits v in map (\<lambda>d. d OR 0x80) (rev (tl buf)) @ [hd buf])"

definition der_oid :: "string \<Rightarrow> bytes result option" where
  "der_oid dotted =
     (case oid_components dotted [] of
        None \<Rightarrow> None
      | Some components \<Rightarrow> Some
          (if length components < 2 then throw ''OID must have at least 2 components''
           else Inr (der_wrap 0x06
             (ucast (40 * components ! 0 + components ! 1) #
              concat (map oid_arc (drop 2 components))))))"

section \<open>Strings, constructed types and tagging\<close>

definition der_octet_string :: "bytes \<Rightarrow> bytes" where
  "der_octet_string data = der_wrap 0x04 data"

definition der_bit_string :: "bytes \<Rightarrow> bytes" where
  "der_bit_string data = der_wrap 0x03 (0 # data)"

definition der_boolean :: "bool \<Rightarrow> bytes" where
  "der_boolean value = [0x01, 0x01, if value then 0xff else 0x00]"

definition der_null :: bytes where
  "der_null = [0x05, 0x00]"

definition der_sequence :: "bytes list \<Rightarrow> bytes" where
  "der_sequence parts = der_wrap_parts DER_SEQUENCE parts"

text \<open>
  \<^verbatim>\<open>std::sort\<close> with \<^verbatim>\<open>std::lexicographical_compare\<close> is the
  library's \<open>sort\<close> at the lexicographic order of byte lists: elements the order does not
  tell apart are equal, so the sort's instability cannot be seen.
\<close>

definition der_set :: "bytes list \<Rightarrow> bytes" where
  "der_set parts = der_wrap DER_SET (foldl (@) [] (sort parts))"

definition der_explicit :: "32 word \<Rightarrow> bytes \<Rightarrow> bytes" where
  "der_explicit tag_number content = der_wrap (0xa0 OR ucast (tag_number AND 0x1f)) content"

definition der_implicit :: "32 word \<Rightarrow> bool \<Rightarrow> bytes \<Rightarrow> bytes result" where
  "der_implicit tag_number constructed content =
     (if content = [] then throw ''cannot implicit-tag empty content''
      else let tag = 0x80 OR ucast (tag_number AND 0x1f);
               tag = (if constructed then tag OR 0x20 else tag)
           in Inr (content[0 := tag]))"

definition der_raw :: "bytes \<Rightarrow> bytes" where
  "der_raw data = data"

section \<open>Object identifiers: parsing and encoding\<close>

text \<open>The dotted form of a list of arcs, as it is written in the sources.\<close>

fun dotted_form :: "nat list \<Rightarrow> string" where
  "dotted_form [] = []"
| "dotted_form [n] = to_string_nat n"
| "dotted_form (n # ns) = to_string_nat n @ CHR ''.'' # dotted_form ns"

lemma dot_not_digit: "\<not> is_base_digit 10 (CHR ''.'')"
  by (simp add: is_base_digit_def digit_value_def isdigit_def in_range_def)

lemma oid_components_dotted:
  assumes "\<forall>n \<in> set ns. n < 2 ^ 64"
  shows "oid_components (dotted_form ns) acc = Some (acc @ map of_nat ns)"
  using assms
proof (induction ns arbitrary: acc rule: dotted_form.induct)
  case 1
  then show ?case by (simp add: oid_components.simps)
next
  case (2 n)
  then show ?case
    using strtoul_to_string [of "[]" n] by (simp add: oid_components.simps)
next
  case (3 n m ns)
  then show ?case
    using strtoul_to_string [of "CHR ''.'' # dotted_form (m # ns)" n] dot_not_digit
    by (simp add: oid_components.simps [of "to_string_nat n @ _"])
qed

text \<open>
  The reference reading of OID content octets (X.690, 8.19): each subidentifier is a
  big-endian base-128 number whose last octet has its top bit clear.
\<close>

fun subidentifiers :: "nat \<Rightarrow> bytes \<Rightarrow> nat list" where
  "subidentifiers acc [] = []"
| "subidentifiers acc (b # bs) =
     (if bit b 7 then subidentifiers (acc * 128 + unat b mod 128) bs
      else (acc * 128 + unat b) # subidentifiers 0 bs)"

lemma base128_digits_value:
  "foldr (\<lambda>d n. n * 128 + unat d) (base128_digits v) 0 = unat v \<and>
   (\<forall>d \<in> set (base128_digits v). unat d < 128) \<and> base128_digits v \<noteq> []"
proof (induction v rule: base128_digits.induct)
  case (1 v)
  have low: "unat (ucast (v AND 0x7f) :: byte) = unat v mod 128"
  proof -
    have "v AND 0x7f = take_bit 7 v" by (simp add: take_bit_eq_mask mask_eq_exp_minus_1)
    then have "unat (v AND 0x7f) = unat v mod 128"
      using unat_take_bit [of 7 v] by simp
    then show ?thesis by (simp add: unsigned_ucast_eq take_bit_eq_mod)
  qed
  have high: "unat (drop_bit 7 v) = unat v div 128" using unat_drop_bit [of 7 v] by simp
  show ?case
  proof (cases "drop_bit 7 v > 0")
    case True
    from "1.IH" [OF True] low high show ?thesis
      by (simp add: base128_digits.simps [of v] True)
  next
    case False
    then have "unat (drop_bit 7 v) = 0" by (simp add: word_less_nat_alt)
    with high low False show ?thesis
      by (simp add: base128_digits.simps [of v])
  qed
qed

lemma or_top_bit:
  fixes d :: byte
  assumes "unat d < 128"
  shows "bit (d OR 0x80) 7" and "unat (d OR 0x80) mod 128 = unat d" and "\<not> bit d 7"
proof -
  have top: "(0x80 :: byte) = push_bit 7 1" by simp
  have eq: "take_bit 7 d = d"
    using assms unat_take_bit [of 7 d] by (simp add: word_unat_eq_iff)
  then show "\<not> bit d 7" by (metis bit_take_bit_iff less_irrefl)
  show "bit (d OR 0x80) 7" unfolding top by (simp add: bit_simps)
  have "take_bit 7 (d OR 0x80) = d"
    unfolding take_bit_or eq by simp
  then have "unat (take_bit 7 (d OR 0x80)) = unat d" by simp
  then show "unat (d OR 0x80) mod 128 = unat d"
    using unat_take_bit [of 7 "d OR 0x80"] by simp
qed

lemma subidentifiers_continue:
  assumes "\<forall>d \<in> set ds. unat d < 128"
  shows "subidentifiers acc (map (\<lambda>d. d OR 0x80) ds @ bs) =
    subidentifiers (foldl (\<lambda>n d. n * 128 + unat d) acc ds) bs"
  using assms by (induction ds arbitrary: acc) (simp_all add: or_top_bit)

lemma subidentifiers_arc: "subidentifiers 0 (oid_arc v @ bs) = unat v # subidentifiers 0 bs"
proof -
  obtain d ds where b: "base128_digits v = d # ds"
    using base128_digits_value [of v] by (cases "base128_digits v") auto
  with base128_digits_value [of v] have
    val: "foldr (\<lambda>d n. n * 128 + unat d) ds 0 * 128 + unat d = unat v"
    and small: "\<forall>d \<in> set (rev ds). unat d < 128" "unat d < 128"
    by auto
  have "oid_arc v @ bs = map (\<lambda>d. d OR 0x80) (rev ds) @ d # bs"
    by (simp add: oid_arc_def b)
  then show ?thesis
    using val small subidentifiers_continue [OF small(1), of 0 "d # bs"]
    by (simp add: or_top_bit(3) foldl_conv_foldr)
qed

lemma subidentifiers_arcs: "subidentifiers 0 (concat (map oid_arc vs)) = map unat vs"
  by (induction vs) (simp_all add: subidentifiers_arc)

lemma der_oid_dotted:
  assumes "\<forall>n \<in> set ns. n < 2 ^ 64"
  shows "der_oid (dotted_form ns) = Some
    (case ns of c1 # c2 # rest \<Rightarrow>
       Inr (der_wrap 0x06 (of_nat (40 * c1 + c2) # concat (map (\<lambda>n. oid_arc (of_nat n)) rest)))
     | _ \<Rightarrow> throw ''OID must have at least 2 components'')"
proof -
  have "ucast (40 * of_nat a + of_nat b :: 64 word) = (of_nat (40 * a + b) :: byte)" for a b
  proof -
    have "(ucast (of_nat (40 * a + b) :: 64 word) :: byte) = of_nat (40 * a + b)"
      by (rule ucast_of_nat_down) simp
    then show ?thesis by simp
  qed
  then show ?thesis
    using oid_components_dotted [OF assms, of "[]"]
    by (simp add: der_oid_def comp_def split: list.split)
qed

section \<open>Integers: value and minimality\<close>

text \<open>The value of big-endian octets, and the DER rule for a non-negative INTEGER content.\<close>

definition be_value :: "bytes \<Rightarrow> nat" where
  "be_value bs = foldl (\<lambda>n b. n * 256 + unat b) 0 bs"

definition minimal_nonneg :: "bytes \<Rightarrow> bool" where
  "minimal_nonneg c \<longleftrightarrow>
     c \<noteq> [] \<and> \<not> bit (hd c) 7 \<and> (1 < length c \<longrightarrow> hd c \<noteq> 0 \<or> bit (c ! 1) 7)"

lemma and_top_bit: "(b :: byte) AND 0x80 = 0 \<longleftrightarrow> \<not> bit b 7"
  using and_exp_eq_0_iff_not_bit [of b 7] by simp

lemma be_value_Cons0 [simp]: "be_value (0 # bs) = be_value bs"
  by (simp add: be_value_def)

lemma be_value_snoc: "be_value (bs @ [b]) = be_value bs * 256 + unat b"
  by (simp add: be_value_def)

lemma be_value_skip [simp]: "be_value (der_integer_skip data) = be_value data"
  by (induction data rule: der_integer_skip.induct) simp_all

lemma der_integer_skip_head:
  "data \<noteq> [] \<Longrightarrow> der_integer_skip data \<noteq> [] \<and>
     (1 < length (der_integer_skip data) \<longrightarrow>
       hd (der_integer_skip data) \<noteq> 0 \<or> bit (der_integer_skip data ! 1) 7)"
  by (induction data rule: der_integer_skip.induct) (auto simp: and_top_bit)

lemma der_integer_bytes_content:
  assumes "data \<noteq> []"
  obtains c where "der_integer_bytes data = der_wrap 0x02 c" "be_value c = be_value data"
    "minimal_nonneg c"
proof (cases "bit (hd (der_integer_skip data)) 7")
  case True
  with der_integer_skip_head [OF assms] show ?thesis
    by (intro that [of "0 # der_integer_skip data"])
      (simp_all add: der_integer_bytes_def Let_def and_top_bit minimal_nonneg_def hd_conv_nth)
next
  case False
  with der_integer_skip_head [OF assms] show ?thesis
    by (intro that [of "der_integer_skip data"])
      (simp_all add: der_integer_bytes_def Let_def and_top_bit minimal_nonneg_def)
qed

lemma unat_less_count_bytes: "unat v < 256 ^ count_bytes v"
proof (induction v rule: count_bytes.induct)
  case (1 v)
  show ?case
  proof (cases "v > 0")
    case True
    have "unat (drop_bit 8 v) = unat v div 256" using unat_drop_bit [of 8 v] by simp
    with 1 [OF True] have "unat v div 256 < 256 ^ count_bytes (drop_bit 8 v)" by simp
    then show ?thesis
      by (simp add: count_bytes.simps [of v] True div_less_iff_less_mult mult.commute)
  qed (simp add: count_bytes.simps [of v] word_less_nat_alt)
qed

lemma be_value_fill_bytes: "be_value (fill_bytes n v) = unat v mod 256 ^ n"
proof (induction n arbitrary: v)
  case 0
  then show ?case by (simp add: be_value_def)
next
  case (Suc n)
  have "v AND 0xff = take_bit 8 v" by (simp add: take_bit_eq_mask mask_eq_exp_minus_1)
  then have low: "unat (ucast (v AND 0xff) :: byte) = unat v mod 256"
    using unat_take_bit [of 8 v] by (simp add: unsigned_ucast_eq take_bit_eq_mod)
  have "unat (drop_bit 8 v) = unat v div 256" using unat_drop_bit [of 8 v] by simp
  with Suc low show ?case
    by (simp add: be_value_snoc mod_mult2_eq)
qed

lemma fill_bytes_length [simp]: "length (fill_bytes n v) = n"
  by (induction n arbitrary: v) simp_all

lemma der_integer_1 [simp]: "der_integer 1 = Inr (der_wrap 0x02 [1])"
  by (simp add: der_integer_def count_bytes.simps der_integer_bytes_def numeral_eq_Suc)

section \<open>Sets\<close>

lemma foldl_append_concat [simp]: "foldl (@) xs yss = xs @ concat yss"
  by (induction yss arbitrary: xs) simp_all

lemma der_cat_concat [simp]: "der_cat parts = concat parts"
  by (simp add: der_cat_def)

lemma der_sequence_eq: "der_sequence parts = der_wrap 0x30 (concat parts)"
  by (simp add: der_sequence_def der_wrap_parts_def DER_SEQUENCE_def)

lemma der_set_eq: "der_set parts = der_wrap 0x31 (concat (sort parts))"
  by (simp add: der_set_def DER_SET_def)

lemma der_wrap_length_bounds:
  "length c + 2 \<le> length (der_wrap tag c)" "length (der_wrap tag c) \<le> length c + 6"
  by (simp_all add: der_wrap_def write_length_def)

section \<open>Properties\<close>

text \<open>
  Encoding a non-negative 64-bit integer gives an INTEGER whose content has exactly that
  value and satisfies DER's minimality rule: the sign bit of the first octet is clear, and
  the first octet is not a zero that the next octet makes redundant.
\<close>

theorem der_integer_value_minimal:
  assumes "0 \<le> sint v"
  shows "\<exists>c. der_integer v = Inr (der_wrap 0x02 c) \<and> be_value c = unat v \<and> minimal_nonneg c"
proof (cases "v = 0")
  case True
  obtain c where "der_integer_bytes [0] = der_wrap 0x02 c" "be_value c = be_value [0]" "minimal_nonneg c"
    by (rule der_integer_bytes_content [of "[0]"]) simp_all
  with True show ?thesis by (auto simp: der_integer_def be_value_def)
next
  case False
  let ?d = "fill_bytes (count_bytes v) v"
  have d: "be_value ?d = unat v"
    using unat_less_count_bytes [of v] by (simp add: be_value_fill_bytes)
  from False have "count_bytes v \<noteq> 0"
    by (simp add: count_bytes.simps [of v] word_gt_0)
  then have "?d \<noteq> []" by (metis fill_bytes_length list.size(3))
  then obtain c where "der_integer_bytes ?d = der_wrap 0x02 c" "be_value c = be_value ?d" "minimal_nonneg c"
    by (rule der_integer_bytes_content)
  with False d assms show ?thesis by (auto simp: der_integer_def)
qed

theorem der_integer_value_minimal_witness:
  "0 \<le> sint (0xfedcba :: 64 word) \<and>
   (\<exists>c. der_integer 0xfedcba = Inr (der_wrap 0x02 c) \<and> be_value c = 0xfedcba \<and> minimal_nonneg c)"
proof -
  have h: "0 \<le> sint (0xfedcba :: 64 word)" by simp
  show ?thesis using h der_integer_value_minimal [OF h] by simp
qed



text \<open>
  On a dotted-decimal identifier of at least two arcs, \<^verbatim>\<open>der_oid\<close>
  returns, and its content octets read back as the subidentifiers that X.690 prescribes, the
  first one combining the first two arcs, provided that combination fits seven bits.
\<close>

theorem der_oid_roundtrip:
  assumes "40 * c1 + c2 < 128" "\<forall>n \<in> set rest. n < 2 ^ 64"
  shows "\<exists>content. der_oid (dotted_form (c1 # c2 # rest)) = Some (Inr (der_wrap 0x06 content)) \<and>
    subidentifiers 0 content = (40 * c1 + c2) # rest"
proof -
  have "\<forall>n \<in> set (c1 # c2 # rest). n < 2 ^ 64" using assms by auto
  from der_oid_dotted [OF this] have
    "der_oid (dotted_form (c1 # c2 # rest)) = Some (Inr (der_wrap 0x06
       (of_nat (40 * c1 + c2) # concat (map oid_arc (map of_nat rest)))))"
    by (simp add: comp_def)
  moreover have first: "unat (of_nat (40 * c1 + c2) :: byte) = 40 * c1 + c2"
    using assms(1) by (simp add: unat_of_nat del: of_nat_add of_nat_mult)
  then have "\<not> bit (of_nat (40 * c1 + c2) :: byte) 7"
    using assms(1) by (intro or_top_bit(3)) (simp del: of_nat_add of_nat_mult)
  with first have "subidentifiers 0 (of_nat (40 * c1 + c2) # concat (map oid_arc (map of_nat rest))) =
      (40 * c1 + c2) # map unat (map of_nat rest :: 64 word list)"
    by (simp only: subidentifiers.simps subidentifiers_arcs if_False mult_zero_left add_0)
  moreover have "map unat (map of_nat rest :: 64 word list) = rest"
    using assms(2) by (induction rest) (simp_all add: unat_of_nat)
  ultimately show ?thesis by (intro exI conjI) (assumption, simp)
qed

theorem der_oid_roundtrip_witness:
  "(40 * 1 + 3 :: nat) < 128 \<and> list_all (\<lambda>n. n < 2 ^ 64) [6, 1, 4, 1, 311, 2, 1, 4 :: nat] \<and>
   (\<exists>content. der_oid (dotted_form (1 # 3 # [6, 1, 4, 1, 311, 2, 1, 4])) = Some (Inr (der_wrap 0x06 content)) \<and>
     subidentifiers 0 content = (40 * 1 + 3) # [6, 1, 4, 1, 311, 2, 1, 4])"
proof -
  have a: "(40 * 1 + 3 :: nat) < 128" by simp
  have b: "\<forall>n \<in> set [6, 1, 4, 1, 311, 2, 1, 4 :: nat]. n < 2 ^ 64" by simp
  show ?thesis using a der_oid_roundtrip [OF a b] by simp
qed

text \<open>
  The parsing loop of \<^verbatim>\<open>der_oid\<close> makes no progress on a component that
  does not start with a number: \<^verbatim>\<open>strtoul\<close> converts nothing, and the call
  never returns.
\<close>

theorem der_oid_diverges: "der_oid ''1.2.x'' = None"
proof -
  have x: "strtoul 10 ''x'' = (0, ''x'', False)"
    by (simp add: strtoul_def scan_number_def isspace_def skip_hex_prefix_def
        is_base_digit_def digit_value_def isdigit_def in_range_def)
  have stuck: "oid_components ''x'' acc = None" for acc
  proof (rule ccontr)
    assume "oid_components ''x'' acc \<noteq> None"
    then obtain r where r: "oid_components ''x'' acc = Some r" by blast
    have "''x'' \<noteq> ''x''"
    proof (rule oid_components.raw_induct [where P = "\<lambda>p acc r. p \<noteq> ''x''", OF _ r])
      fix f :: "string \<Rightarrow> 64 word list \<Rightarrow> 64 word list option" and p acc r
      assume IH: "\<And>p acc r. f p acc = Some r \<Longrightarrow> p \<noteq> ''x''"
        and eq: "(if p = [] then Some acc
          else case strtoul 10 p of (v, end, _) \<Rightarrow>
            f (if end \<noteq> [] \<and> hd end = CHR ''.'' then tl end else end) (acc @ [v])) = Some r"
      show "p \<noteq> ''x''"
      proof
        assume "p = ''x''"
        with eq have "f ''x'' (acc @ [0]) = Some r" by (simp add: x)
        then show False using IH by blast
      qed
    qed
    then show False by simp
  qed
  have "strtoul 10 ''1.2.x'' = (1, ''.2.x'', False)" "strtoul 10 ''2.x'' = (2, ''.x'', False)"
    using strtoul_to_string [of "''.2.x''" 1] strtoul_to_string [of "''.x''" 2] dot_not_digit
    by (simp_all add: to_string_nat.simps)
  then have "oid_components ''1.2.x'' [] = oid_components ''x'' [1, 2]"
    by (simp add: oid_components.simps [of "''1.2.x''"] oid_components.simps [of "''2.x''"])
  then show ?thesis by (simp add: der_oid_def stuck)
qed

text \<open>
  The combination of the first two arcs is truncated to one octet, so identifiers under
  \<^verbatim>\<open>2.\<close> with a large second arc collide with others: 2.999 and 1.15 have
  the same encoding.
\<close>

theorem der_oid_collision:
  "der_oid (dotted_form [2, 999]) = der_oid (dotted_form [1, 15])"
proof -
  have "der_wrap 0x06 [1079] = der_wrap 0x06 [55]" by (simp add: der_wrap_def)
  then show ?thesis by (simp add: der_oid_dotted del: dotted_form.simps)
qed

end
