(* ===== verification/Tlv.thy ===== *)
theory Tlv
  imports Der
begin

text \<open>
  The DER reader \<^verbatim>\<open>der_read_tlv\<close> of \<^verbatim>\<open>src/src/x509.cpp\<close>, the
  contract between it and the code that walks over encoded elements, and the round trip with
  the writer of theory \<open>Der\<close>.

  A \<^verbatim>\<open>TlvView\<close> points into the buffer it was read from. The model keeps the
  bytes it points at: \<open>tlv_content\<close> are the \<open>content_len\<close> bytes at
  \<^verbatim>\<open>content\<close>, and \<open>tlv_raw\<close> the \<open>total_len\<close> bytes that start
  \<open>total_len - content_len\<close> before them, which is the whole element.
\<close>

section \<open>The reader\<close>

record TlvView =
  tlv_tag :: byte
  tlv_content :: bytes
  content_len :: nat
  total_len :: nat
  tlv_raw :: bytes

definition read_length :: "bytes \<Rightarrow> nat" where
  "read_length bs = foldl (\<lambda>len b. push_bit 8 len OR unat b) 0 bs"

definition tlv_view :: "bytes \<Rightarrow> nat \<Rightarrow> nat \<Rightarrow> TlvView" where
  "tlv_view data pos len =
     \<lparr>tlv_tag = data ! 0, tlv_content = take len (drop pos data), content_len = len,
      total_len = pos + len, tlv_raw = take (pos + len) data\<rparr>"

definition tlv_at :: "bytes \<Rightarrow> nat \<Rightarrow> nat \<Rightarrow> TlvView result" where
  "tlv_at data pos len =
     (if pos + len > length data then throw ''DER content exceeds buffer''
      else Inr (tlv_view data pos len))"

definition der_read_tlv :: "bytes \<Rightarrow> TlvView result" where
  "der_read_tlv data =
     (if length data < 2 then throw ''truncated DER TLV''
      else if data ! 1 < 0x80 then tlv_at data 2 (unat (data ! 1))
      else let nbytes = unat (data ! 1 AND 0x7f) in
        if nbytes = 0 \<or> nbytes > 4 \<or> 2 + nbytes > length data then throw ''invalid DER length''
        else tlv_at data (2 + nbytes) (read_length (take nbytes (drop 2 data))))"

section \<open>What a successful read promises\<close>

text \<open>
  Where the content starts and how long it is are a function of the header alone: these are
  the successful branches of the reader.
\<close>

definition tlv_extent :: "bytes \<Rightarrow> (nat \<times> nat) option" where
  "tlv_extent data =
     (if length data < 2 then None
      else if data ! 1 < 0x80 then Some (2, unat (data ! 1))
      else let n = unat (data ! 1 AND 0x7f) in
        if n = 0 \<or> n > 4 \<or> 2 + n > length data then None
        else Some (2 + n, read_length (take n (drop 2 data))))"

lemma tlv_view_simps [simp]:
  "tlv_tag (tlv_view data pos len) = data ! 0"
  "tlv_content (tlv_view data pos len) = take len (drop pos data)"
  "content_len (tlv_view data pos len) = len"
  "total_len (tlv_view data pos len) = pos + len"
  "tlv_raw (tlv_view data pos len) = take (pos + len) data"
  by (simp_all add: tlv_view_def)

lemma der_read_tlv_Inr_iff:
  "der_read_tlv data = Inr v \<longleftrightarrow>
     (\<exists>pos len. tlv_extent data = Some (pos, len) \<and> pos + len \<le> length data \<and> v = tlv_view data pos len)"
  by (auto simp: der_read_tlv_def tlv_extent_def tlv_at_def Let_def)

lemma tlv_extent_bounds:
  "tlv_extent data = Some (pos, len) \<Longrightarrow> 2 \<le> pos \<and> 2 \<le> length data"
  by (auto simp: tlv_extent_def Let_def split: if_splits)

lemma tlv_extent_append:
  assumes "tlv_extent data = Some (pos, len)" "pos \<le> n" "n \<le> length data"
  shows "tlv_extent (take n data @ rest) = Some (pos, len)"
proof -
  from assms have "2 \<le> n" using tlv_extent_bounds [OF assms(1)] by simp
  with assms have [simp]: "(take n data @ rest) ! Suc 0 = data ! Suc 0"
    by (simp add: nth_append)
  show ?thesis
  proof (cases "data ! 1 < 0x80")
    case True
    with assms \<open>2 \<le> n\<close> show ?thesis
      by (simp add: tlv_extent_def split: if_splits)
  next
    case False
    let ?k = "unat (data ! 1 AND 0x7f)"
    from assms False have k: "?k \<noteq> 0" "?k \<le> 4" "pos = 2 + ?k"
      "len = read_length (take ?k (drop 2 data))"
      by (simp_all add: tlv_extent_def Let_def split: if_splits)
    have "take ?k (drop 2 (take n data @ rest)) = take ?k (drop 2 data)"
      using k assms(2,3) by (simp add: drop_take)
    with k assms \<open>2 \<le> n\<close> False show ?thesis
      by (simp add: tlv_extent_def Let_def)
  qed
qed

lemma der_read_tlv_bounds:
  assumes "der_read_tlv data = Inr v"
  shows "2 \<le> total_len v" "total_len v \<le> length data" "content_len v + 2 \<le> total_len v"
    "length (tlv_content v) = content_len v" "tlv_raw v = take (total_len v) data"
    "tlv_tag v = data ! 0" "data \<noteq> []"
  using assms by (auto simp: der_read_tlv_Inr_iff dest: tlv_extent_bounds)

lemma der_read_tlv_content:
  assumes "der_read_tlv data = Inr v"
  shows "tlv_content v = drop (total_len v - content_len v) (tlv_raw v)"
  using assms by (auto simp: der_read_tlv_Inr_iff drop_take)

lemma tlv_content_length:
  "der_read_tlv data = Inr v \<Longrightarrow> length (tlv_content v) \<le> length data"
  using der_read_tlv_bounds [of data v] by simp

lemma der_read_tlv_prefix:
  assumes "der_read_tlv data = Inr v"
  shows "der_read_tlv (tlv_raw v @ rest) = Inr v"
proof -
  from assms obtain pos len where ext: "tlv_extent data = Some (pos, len)"
    and le: "pos + len \<le> length data" and v: "v = tlv_view data pos len"
    by (auto simp: der_read_tlv_Inr_iff)
  have "tlv_extent (take (pos + len) data @ rest) = Some (pos, len)"
    using ext le by (intro tlv_extent_append) auto
  moreover have "tlv_view (take (pos + len) data @ rest) pos len = v"
    using le tlv_extent_bounds [OF ext]
    by (simp add: v tlv_view_def nth_append drop_take)
  ultimately show ?thesis
    using le by (auto simp: der_read_tlv_Inr_iff v)
qed

section \<open>The reader inverts the writer\<close>

lemma read_length_nat: "read_length bs = foldl (\<lambda>len b. len * 256 + unat b) 0 bs"
proof -
  have "push_bit 8 len OR unat b = len * 256 + unat b" for len and b :: byte
    using push_bit_or_nat [of "unat b" 8 len] by simp
  then show ?thesis by (simp add: read_length_def)
qed

text \<open>The view that reading a freshly written element gives.\<close>

definition wrap_view :: "byte \<Rightarrow> bytes \<Rightarrow> TlvView" where
  "wrap_view tag c =
     \<lparr>tlv_tag = tag, tlv_content = c, content_len = length c,
      total_len = length (der_wrap tag c), tlv_raw = der_wrap tag c\<rparr>"

lemma wrap_view_simps [simp]:
  "tlv_tag (wrap_view tag c) = tag"
  "tlv_content (wrap_view tag c) = c"
  "content_len (wrap_view tag c) = length c"
  "total_len (wrap_view tag c) = length (der_wrap tag c)"
  "tlv_raw (wrap_view tag c) = der_wrap tag c"
  by (simp_all add: wrap_view_def)

lemma write_length_extent:
  assumes "length c < 2 ^ 32"
  shows "tlv_extent (der_wrap tag c @ rest) =
    Some (length (der_wrap tag c) - length c, length c)"
  using assms
  by (auto simp: tlv_extent_def der_wrap_def write_length_def Let_def read_length_nat
      unat_of_nat take_Cons' word_less_nat_alt drop_bit_eq_div base256_digits)

lemma der_read_tlv_wrap [tlv_simps]:
  assumes "length c < 2 ^ 32"
  shows "der_read_tlv (der_wrap tag c @ rest) = Inr (wrap_view tag c)"
proof -
  have len: "length c \<le> length (der_wrap tag c)" by (simp add: der_wrap_def)
  have "der_wrap tag c ! 0 = tag"
    by (simp add: der_wrap_def write_length_def)
  moreover have "drop (length (der_wrap tag c) - length c) (der_wrap tag c) = c"
    by (simp add: der_wrap_def)
  moreover have "der_wrap tag c \<noteq> []"
    by (simp add: der_wrap_def write_length_def)
  ultimately have "tlv_view (der_wrap tag c @ rest) (length (der_wrap tag c) - length c) (length c)
      = wrap_view tag c"
    using len by (simp add: tlv_view_def wrap_view_def nth_append)
  with write_length_extent [OF assms, of tag rest] len show ?thesis
    by (auto simp: der_read_tlv_Inr_iff)
qed

text \<open>
  A complete element: a byte list that is exactly one TLV. Freshly written elements are
  complete, and so is what a view spans.
\<close>

definition complete_tlv :: "bytes \<Rightarrow> bool" where
  "complete_tlv e \<longleftrightarrow> (case der_read_tlv e of Inl _ \<Rightarrow> False | Inr v \<Rightarrow> total_len v = length e)"

lemma complete_tlvE:
  assumes "complete_tlv e"
  obtains v where "der_read_tlv e = Inr v" "total_len v = length e" "tlv_raw v = e"
  using assms by (auto simp: complete_tlv_def dest: der_read_tlv_bounds(5) split: sum.splits)

lemma complete_tlv_wrap [simp, intro]: "length c < 2 ^ 32 \<Longrightarrow> complete_tlv (der_wrap tag c)"
  using der_read_tlv_wrap [of c tag "[]"] by (simp add: complete_tlv_def)

lemma complete_tlv_raw [intro]:
  assumes "der_read_tlv data = Inr v"
  shows "complete_tlv (tlv_raw v)"
  using der_read_tlv_prefix [OF assms, of "[]"] der_read_tlv_bounds [OF assms]
  by (simp add: complete_tlv_def)

section \<open>Properties\<close>

lemma read_length_bound: "read_length bs < 256 ^ length bs"
proof (induction bs rule: rev_induct)
  case Nil
  then show ?case by (simp add: read_length_def)
next
  case (snoc b bs)
  then have "read_length bs * 256 + 255 < 256 ^ length bs * 256" by simp
  then show ?case
    using unat_byte_le [of b] by (simp add: read_length_nat mult.commute)
qed

text \<open>
  C10: round trip of DER elements. Reading what \<^verbatim>\<open>der_wrap\<close> wrote gives back
  the tag and the content, and consumes exactly the bytes written, whatever follows them, for
  every content shorter than 4 GiB.
\<close>

theorem der_tlv_roundtrip:
  assumes "length c < 2 ^ 32"
  shows "der_read_tlv (der_wrap tag c @ rest) =
    Inr \<lparr>tlv_tag = tag, tlv_content = c, content_len = length c,
         total_len = length (der_wrap tag c), tlv_raw = der_wrap tag c\<rparr>"
  using der_read_tlv_wrap [OF assms] by (simp add: wrap_view_def)

theorem der_tlv_roundtrip_witness:
  "length (replicate 300 (7 :: byte)) < 2 ^ 32 \<and>
   der_read_tlv (der_wrap 0x04 (replicate 300 7) @ [1, 2]) =
     Inr \<lparr>tlv_tag = 0x04, tlv_content = replicate 300 7, content_len = 300,
          total_len = 304, tlv_raw = der_wrap 0x04 (replicate 300 7)\<rparr>"
proof -
  have h: "length (replicate 300 (7 :: byte)) < 2 ^ 32" by simp
  have "length (der_wrap 0x04 (replicate 300 (7 :: byte))) = 304"
    by (simp add: der_wrap_def write_length_def)
  then show ?thesis using h der_tlv_roundtrip [OF h, of "0x04" "[1, 2]"] by simp
qed

text \<open>
  C11: memory safety of the reader. An accepted element lies inside the buffer, its content is
  the suffix of the element after a header of two to six bytes, its length has at most 32
  bits, and the result does not depend on any byte after the element.
\<close>

theorem der_read_tlv_safe:
  assumes "der_read_tlv data = Inr v"
  shows "total_len v \<le> length data \<and> tlv_raw v = take (total_len v) data \<and>
    tlv_content v = drop (total_len v - content_len v) (tlv_raw v) \<and>
    length (tlv_content v) = content_len v \<and>
    content_len v + 2 \<le> total_len v \<and> total_len v \<le> content_len v + 6 \<and>
    content_len v < 2 ^ 32 \<and> (\<forall>rest. der_read_tlv (tlv_raw v @ rest) = Inr v)"
proof -
  from assms obtain pos len where ext: "tlv_extent data = Some (pos, len)"
    and v: "v = tlv_view data pos len" by (auto simp: der_read_tlv_Inr_iff)
  have "pos \<le> 6 \<and> len < 2 ^ 32"
  proof (cases "data ! 1 < 0x80")
    case True
    with ext have "pos = 2" "len = unat (data ! 1)"
      by (auto simp: tlv_extent_def split: if_splits)
    then show ?thesis using unat_byte_le [of "data ! 1"] by simp
  next
    case False
    with ext obtain n where n: "n \<le> 4" "pos = 2 + n" "len = read_length (take n (drop 2 data))"
      by (auto simp: tlv_extent_def Let_def split: if_splits)
    have "len < 256 ^ length (take n (drop 2 data))"
      unfolding n by (rule read_length_bound)
    also have "\<dots> \<le> 256 ^ 4" using n by (intro power_increasing) simp_all
    finally show ?thesis using n by simp
  qed
  with der_read_tlv_bounds [OF assms] der_read_tlv_content [OF assms] der_read_tlv_prefix [OF assms]
  show ?thesis by (simp add: v)
qed

theorem der_read_tlv_safe_witness:
  "\<exists>v. der_read_tlv [0x04, 0x02, 0xaa, 0xbb, 0xcc] = Inr v \<and> total_len v = 4 \<and>
     der_read_tlv (tlv_raw v @ [0x11]) = Inr v"
proof -
  have h: "der_read_tlv [0x04, 0x02, 0xaa, 0xbb, 0xcc] =
      Inr \<lparr>tlv_tag = 0x04, tlv_content = [0xaa, 0xbb], content_len = 2, total_len = 4,
           tlv_raw = [0x04, 0x02, 0xaa, 0xbb]\<rparr>"
    by (simp add: der_read_tlv_def tlv_at_def tlv_view_def)
  then show ?thesis using der_read_tlv_safe [OF h] by auto
qed

section \<open>Walking over a sequence of elements\<close>

text \<open>
  Several loops of the sources consume a buffer element by element until nothing remains: the
  two certificate splitters, the signer loop, the attribute loop and the attribute value loop
  of the CMS checks. They share this contract: \<open>walk\<close> is the loop, \<open>item\<close> what it does with
  one element, \<open>stop\<close> its result on the empty buffer and \<open>add\<close> how an element's result
  joins the result of the rest.
\<close>

locale tlv_walk =
  fixes walk :: "bytes \<Rightarrow> 'r result"
    and item :: "TlvView \<Rightarrow> 'x result"
    and stop :: 'r
    and add :: "'x \<Rightarrow> 'r \<Rightarrow> 'r"
  assumes walk_empty: "walk [] = Inr stop"
    and walk_step: "data \<noteq> [] \<Longrightarrow> walk data =
      bindE (der_read_tlv data) (\<lambda>v. bindE (item v) (\<lambda>x.
      bindE (walk (drop (total_len v) data)) (\<lambda>r. Inr (add x r))))"
begin

text \<open>One element in front of a buffer.\<close>

lemma walk_element:
  assumes "der_read_tlv (e @ rest) = Inr v" "total_len v = length e" "item v = Inr x"
  shows "walk (e @ rest) = bindE (walk rest) (\<lambda>r. Inr (add x r))"
proof -
  from assms(1) have "e @ rest \<noteq> []" by (rule der_read_tlv_bounds(7))
  with assms show ?thesis by (simp add: walk_step)
qed

lemma walk_wrap:
  assumes "length c < 2 ^ 32" "item (wrap_view tag c) = Inr x"
  shows "walk (der_wrap tag c @ rest) = bindE (walk rest) (\<lambda>r. Inr (add x r))"
  using assms by (intro walk_element) (simp_all add: der_read_tlv_wrap)

text \<open>A walk that succeeds has cut its buffer into complete elements, all of them accepted.\<close>

lemma walk_InrD:
  assumes "walk data = Inr r"
  shows "\<exists>vs xs. data = concat (map tlv_raw vs) \<and>
    (\<forall>v \<in> set vs. complete_tlv (tlv_raw v)) \<and> list_all2 (\<lambda>v x. item v = Inr x) vs xs \<and>
    r = foldr add xs stop"
  using assms
proof (induction data arbitrary: r rule: length_induct)
  case (1 data)
  show ?case
  proof (cases "data = []")
    case True
    with 1 show ?thesis by (intro exI [of _ "[]"]) (simp add: walk_empty)
  next
    case False
    with "1.prems" obtain v x s where v: "der_read_tlv data = Inr v" and x: "item v = Inr x"
      and s: "walk (drop (total_len v) data) = Inr s" and r: "r = add x s"
      by (auto simp: walk_step result_iff)
    note b = der_read_tlv_bounds [OF v]
    then have "length (drop (total_len v) data) < length data" by simp
    with "1.IH" s obtain vs xs where
      "drop (total_len v) data = concat (map tlv_raw vs)"
      "\<forall>v \<in> set vs. complete_tlv (tlv_raw v)" "list_all2 (\<lambda>v x. item v = Inr x) vs xs"
      "s = foldr add xs stop"
      by blast
    with v x r b complete_tlv_raw [OF v] show ?thesis
      by (intro exI [of _ "v # vs"] exI [of _ "x # xs"])
        (auto, metis append_take_drop_id)
  qed
qed

end

end
