(* ===== verification/X509.thy ===== *)
theory X509
  imports Tlv
begin

text \<open>
  \<^verbatim>\<open>src/src/x509.cpp\<close> above the reader: issuer and serial number of a certificate,
  and the splitting of a certificate chain that is either a concatenation of DER certificates
  or a CMS SignedData that carries them.
\<close>

section \<open>Issuer and serial number\<close>

record CertId =
  issuer_raw :: bytes
  serial_raw :: bytes

definition x509_cert_id :: "bytes \<Rightarrow> CertId result" where
  "x509_cert_id cert_der =
     bindE (der_read_tlv cert_der) (\<lambda>cert.
     if tlv_tag cert AND 0x1f \<noteq> 0x10 then throw ''expected SEQUENCE for Certificate'' else
     bindE (der_read_tlv (tlv_content cert)) (\<lambda>tbs.
     if tlv_tag tbs AND 0x1f \<noteq> 0x10 then throw ''expected SEQUENCE for TBSCertificate'' else
     let p = tlv_content tbs in
     bindE (der_read_tlv p) (\<lambda>elem.
     bindE (if tlv_tag elem = 0xa0
            then let p = drop (total_len elem) p in bindE (der_read_tlv p) (\<lambda>elem. Inr (p, elem))
            else Inr (p, elem)) (\<lambda>(p, elem).
     if tlv_tag elem \<noteq> 0x02 then throw ''expected INTEGER for serialNumber'' else
     let serial = take (total_len elem) p; p = drop (total_len elem) p in
     bindE (der_read_tlv p) (\<lambda>elem.
     let p = drop (total_len elem) p in
     bindE (der_read_tlv p) (\<lambda>elem.
     if tlv_tag elem AND 0x1f \<noteq> 0x10 then throw ''expected SEQUENCE for issuer'' else
     Inr \<lparr>issuer_raw = take (total_len elem) p, serial_raw = serial\<rparr>))))))"

section \<open>Splitting a chain\<close>

text \<open>The loop over concatenated certificates; the CMS branch has the same loop.\<close>

function split_loop :: "bytes \<Rightarrow> bytes list result" where
  "split_loop data =
     (if data = [] then Inr []
      else bindE (der_read_tlv data) (\<lambda>tlv.
        bindE (split_loop (drop (total_len tlv) data)) (\<lambda>certs.
        Inr (take (total_len tlv) data # certs))))"
  by pat_completeness auto
termination
  by (relation "measure length") (auto dest: der_read_tlv_bounds(1))

declare split_loop.simps [simp del]

text \<open>
  The walk over the SignedData fields: \<open>None\<close> when no field is the certificates field
  \<^verbatim>\<open>[0]\<close>, where the source returns \<^verbatim>\<open>false\<close>.
\<close>

function find_certs_field :: "bytes \<Rightarrow> bytes list option result" where
  "find_certs_field data =
     (if data = [] then Inr None
      else bindE (der_read_tlv data) (\<lambda>field.
        if tlv_tag field = 0xa0
        then bindE (split_loop (tlv_content field)) (\<lambda>certs. Inr (Some certs))
        else find_certs_field (drop (total_len field) data)))"
  by pat_completeness auto
termination
  by (relation "measure length") (auto dest: der_read_tlv_bounds(1))

declare find_certs_field.simps [simp del]

definition x509_oid_signed_data :: bytes where
  "x509_oid_signed_data = [0x2a, 0x86, 0x48, 0x86, 0xf7, 0x0d, 0x01, 0x07, 0x02]"

definition try_extract_cms_certs :: "bytes \<Rightarrow> bytes list option result" where
  "try_extract_cms_certs data =
     (if length data < 20 then Inr None else
      bindE (der_read_tlv data) (\<lambda>ci.
      if tlv_tag ci \<noteq> 0x30 then Inr None else
      bindE (der_read_tlv (tlv_content ci)) (\<lambda>oid.
      if tlv_tag oid \<noteq> 0x06 \<or> content_len oid \<noteq> length x509_oid_signed_data then Inr None else
      if tlv_content oid \<noteq> x509_oid_signed_data then Inr None else
      bindE (der_read_tlv (drop (total_len oid) (tlv_content ci))) (\<lambda>explicit0.
      if tlv_tag explicit0 \<noteq> 0xa0 then Inr None else
      bindE (der_read_tlv (tlv_content explicit0)) (\<lambda>sd.
      if tlv_tag sd \<noteq> 0x30 then Inr None else
      find_certs_field (tlv_content sd))))))"

definition x509_split_certs :: "bytes \<Rightarrow> bytes list result" where
  "x509_split_certs data =
     bindE (try_extract_cms_certs data) (\<lambda>found.
     case found of Some certs \<Rightarrow> Inr certs | None \<Rightarrow> split_loop data)"

section \<open>Lemmas\<close>

interpretation split: tlv_walk split_loop "\<lambda>v. Inr (tlv_raw v)" "[]" "(#)"
proof unfold_locales
  show "split_loop [] = Inr []" by (simp add: split_loop.simps)
next
  fix data :: bytes
  assume "data \<noteq> []"
  then show "split_loop data = bindE (der_read_tlv data) (\<lambda>v. bindE (Inr (tlv_raw v)) (\<lambda>x.
      bindE (split_loop (drop (total_len v) data)) (\<lambda>r. Inr (x # r))))"
    by (cases "der_read_tlv data") (simp_all add: split_loop.simps [of data] der_read_tlv_bounds(5))
qed

lemma split_loop_InrD:
  assumes "split_loop data = Inr certs"
  shows "concat certs = data \<and> (\<forall>c \<in> set certs. complete_tlv c)"
  using split.walk_InrD [OF assms]
proof (elim exE conjE)
  fix vs xs
  assume data: "data = concat (map tlv_raw vs)" and c: "\<forall>v \<in> set vs. complete_tlv (tlv_raw v)"
    and all: "list_all2 (\<lambda>v x. Inr (tlv_raw v) = Inr x) vs xs" and certs: "certs = foldr (#) xs []"
  from all have "xs = map tlv_raw vs"
    by (induction rule: list_all2_induct) auto
  moreover have "foldr (#) ys [] = ys" for ys :: "bytes list" by (induction ys) auto
  ultimately show ?thesis using data c certs by auto
qed

lemma split_loop_concat:
  assumes "\<forall>c \<in> set certs. complete_tlv c"
  shows "split_loop (concat certs) = Inr certs"
  using assms
proof (induction certs)
  case Nil
  then show ?case by (simp add: split.walk_empty)
next
  case (Cons c certs)
  then obtain v where v: "der_read_tlv c = Inr v" "total_len v = length c" "tlv_raw v = c"
    by (auto elim: complete_tlvE)
  from der_read_tlv_prefix [OF v(1), of "concat certs"] v
  have "split_loop (c @ concat certs) = bindE (split_loop (concat certs)) (\<lambda>r. Inr (c # r))"
    by (intro split.walk_element) simp_all
  with Cons show ?case by simp
qed

lemma find_certs_field_InrD:
  assumes "find_certs_field data = Inr (Some certs)"
  shows "length (concat certs) \<le> length data \<and> (\<forall>c \<in> set certs. complete_tlv c)"
  using assms
proof (induction data rule: find_certs_field.induct)
  case (1 data)
  from "1.prems" obtain v where ne: "data \<noteq> []" and v: "der_read_tlv data = Inr v"
    by (auto simp: find_certs_field.simps [of data] result_iff split: if_splits)
  show ?case
  proof (cases "tlv_tag v = 0xa0")
    case True
    with "1.prems" ne v have "split_loop (tlv_content v) = Inr certs"
      by (auto simp: find_certs_field.simps [of data] result_iff)
    with tlv_content_length [OF v] show ?thesis by (auto dest!: split_loop_InrD)
  next
    case False
    with "1.prems" ne v have "find_certs_field (drop (total_len v) data) = Inr (Some certs)"
      by (simp add: find_certs_field.simps [of data])
    with "1.IH" [OF ne v False] show ?thesis by auto
  qed
qed

lemma try_extract_cms_certs_InrD:
  assumes "try_extract_cms_certs data = Inr (Some certs)"
  shows "length (concat certs) \<le> length data \<and> (\<forall>c \<in> set certs. complete_tlv c)"
proof -
  from assms obtain ci oid e sd :: TlvView where
    "der_read_tlv data = Inr ci" "der_read_tlv (drop (total_len oid) (tlv_content ci)) = Inr e"
    "der_read_tlv (tlv_content e) = Inr sd" and f: "find_certs_field (tlv_content sd) = Inr (Some certs)"
    by (auto simp: try_extract_cms_certs_def result_iff split: if_splits)
  from this(1-3) [THEN tlv_content_length] have "length (tlv_content sd) \<le> length data" by simp
  with find_certs_field_InrD [OF f] show ?thesis by auto
qed

lemma x509_split_certs_InrD:
  assumes "x509_split_certs data = Inr certs"
  shows "length (concat certs) \<le> length data" "\<forall>c \<in> set certs. complete_tlv c"
  using assms
  by (auto simp: x509_split_certs_def result_iff split: option.splits
      dest: try_extract_cms_certs_InrD split_loop_InrD)

text \<open>What a certificate identifier is made of: two complete elements of the certificate.\<close>

lemma x509_cert_id_InrD:
  assumes "x509_cert_id cert = Inr cid"
  shows "complete_tlv (issuer_raw cid)" "complete_tlv (serial_raw cid)" "hd (serial_raw cid) = 0x02"
    "hd (issuer_raw cid) AND 0x1f = 0x10"
    "length (issuer_raw cid) + length (serial_raw cid) \<le> length cert"
proof -
  from assms obtain c t e s a i :: TlvView and p where
    r: "der_read_tlv cert = Inr c" "der_read_tlv (tlv_content c) = Inr t"
    and e: "der_read_tlv (tlv_content t) = Inr e"
    and v: "(if tlv_tag e = 0xa0
        then bindE (der_read_tlv (drop (total_len e) (tlv_content t)))
          (\<lambda>elem. Inr (drop (total_len e) (tlv_content t), elem))
        else Inr (tlv_content t, e)) = Inr (p, s)"
    and tag: "tlv_tag s = 0x02"
    and a: "der_read_tlv (drop (total_len s) p) = Inr a"
    and i: "der_read_tlv (drop (total_len a) (drop (total_len s) p)) = Inr i" "tlv_tag i AND 0x1f = 0x10"
    and cid: "cid = \<lparr>issuer_raw = take (total_len i) (drop (total_len a) (drop (total_len s) p)),
      serial_raw = take (total_len s) p\<rparr>"
    by (simp only: x509_cert_id_def bindE_Inr_iff throw_if_Inr_iff Let_def split_paired_Ex
        prod.case sum.inject not_not) (elim exE conjE, rule that, (assumption | erule sym)+)
  from v e have pl: "length p \<le> length (tlv_content t)" and s: "der_read_tlv p = Inr s"
    by (auto simp: result_iff split: if_splits)
  note s = s tag
  note bs = der_read_tlv_bounds [OF s(1)] and bi = der_read_tlv_bounds [OF i(1)]
  from bs bi cid have ids: "issuer_raw cid = tlv_raw i" "serial_raw cid = tlv_raw s" by simp_all
  then show "complete_tlv (issuer_raw cid)" "complete_tlv (serial_raw cid)"
    using s i by auto
  show "hd (serial_raw cid) = 0x02"
    using bs s by (simp add: cid hd_conv_nth)
  show "hd (issuer_raw cid) AND 0x1f = 0x10"
    using bi i by (simp add: cid hd_conv_nth)
  show "length (issuer_raw cid) + length (serial_raw cid) \<le> length cert"
    using bs bi der_read_tlv_bounds [OF a] r [THEN tlv_content_length] pl
    by (simp add: cid)
qed

section \<open>Properties\<close>

text \<open>
  A chain given as concatenated DER certificates is split into exactly those certificates,
  in order. The first certificate starts with a TBSCertificate SEQUENCE, which is what tells
  the chain apart from a CMS.
\<close>

theorem split_concatenated_chain:
  assumes "length (der_wrap 0x30 tbs @ r) < 2 ^ 32" "length tbs < 2 ^ 32"
    and "\<forall>c \<in> set certs. complete_tlv c"
  shows "x509_split_certs (concat (der_wrap 0x30 (der_wrap 0x30 tbs @ r) # certs)) =
    Inr (der_wrap 0x30 (der_wrap 0x30 tbs @ r) # certs)"
proof -
  let ?data = "concat (der_wrap 0x30 (der_wrap 0x30 tbs @ r) # certs)"
  have "try_extract_cms_certs ?data = Inr None"
    using assms by (simp add: try_extract_cms_certs_def der_read_tlv_wrap)
  moreover have "split_loop ?data = Inr (der_wrap 0x30 (der_wrap 0x30 tbs @ r) # certs)"
    using assms by (intro split_loop_concat) auto
  ultimately show ?thesis by (simp add: x509_split_certs_def)
qed

theorem split_concatenated_chain_witness:
  "x509_split_certs (concat [der_wrap 0x30 (der_wrap 0x30 [0x02, 0x01, 0x05] @ [0x30, 0x00]), [0x30, 0x00]]) =
   Inr [der_wrap 0x30 (der_wrap 0x30 [0x02, 0x01, 0x05] @ [0x30, 0x00]), [0x30, 0x00]]"
proof (rule split_concatenated_chain)
  show "length (der_wrap 0x30 [0x02, 0x01, 0x05] @ [0x30, 0x00]) < 2 ^ 32"
    by (simp add: der_wrap_def write_length_def)
  show "length [0x02, 0x01, 0x05 :: byte] < 2 ^ 32" by simp
  show "\<forall>c \<in> set [[0x30, 0x00 :: byte]]. complete_tlv c"
    by (simp add: complete_tlv_def der_read_tlv_def tlv_at_def)
qed

text \<open>
  The identifier of a certificate. For a certificate whose TBSCertificate holds an optional
  version, a serial number, an algorithm identifier and an issuer, followed by anything,
  \<^verbatim>\<open>x509_cert_id\<close> returns the complete encodings of the issuer and of the
  serial number.
\<close>

theorem x509_cert_id_correct:
  assumes "version = [] \<or> (\<exists>v. version = der_wrap 0xa0 v \<and> length v < 2 ^ 32)"
    and "length serial < 2 ^ 32" "length alg < 2 ^ 32" "length issuer < 2 ^ 32"
    and "length tbs < 2 ^ 32" "length (der_wrap 0x30 tbs @ sig) < 2 ^ 32"
    and "tbs = version @ der_wrap 0x02 serial @ der_wrap alg_tag alg @ der_wrap 0x30 issuer @ tail"
  shows "x509_cert_id (der_wrap 0x30 (der_wrap 0x30 tbs @ sig)) =
    Inr \<lparr>issuer_raw = der_wrap 0x30 issuer, serial_raw = der_wrap 0x02 serial\<rparr>"
proof -
  have outer: "der_read_tlv (der_wrap 0x30 (der_wrap 0x30 tbs @ sig)) = Inr (wrap_view 0x30 (der_wrap 0x30 tbs @ sig))"
    using der_read_tlv_wrap [OF assms(6), of "0x30" "[]"] by simp
  have inner: "der_read_tlv (der_wrap 0x30 tbs @ sig) = Inr (wrap_view 0x30 tbs)"
    using assms(5) by (rule der_read_tlv_wrap)
  note read = der_read_tlv_wrap [OF assms(2)] der_read_tlv_wrap [OF assms(3)] der_read_tlv_wrap [OF assms(4)]
  from assms(1) show ?thesis
  proof (elim disjE exE conjE)
    assume "version = []"
    with assms(7) have tbs: "tbs = der_wrap 0x02 serial @ der_wrap alg_tag alg @ der_wrap 0x30 issuer @ tail"
      by simp
    show ?thesis by (simp add: x509_cert_id_def outer inner) (simp add: tbs read)
  next
    fix v assume v: "version = der_wrap 0xa0 v" "length v < 2 ^ 32"
    with assms(7) have tbs: "tbs = der_wrap 0xa0 v @ der_wrap 0x02 serial @ der_wrap alg_tag alg @
        der_wrap 0x30 issuer @ tail"
      by simp
    show ?thesis
      by (simp add: x509_cert_id_def outer inner) (simp add: tbs read der_read_tlv_wrap [OF v(2)])
  qed
qed

theorem x509_cert_id_correct_witness:
  "x509_cert_id (der_wrap 0x30 (der_wrap 0x30
      (der_wrap 0xa0 [0x02, 0x01, 0x02] @ der_wrap 0x02 [0x05] @ der_wrap 0x30 [] @ der_wrap 0x30 [0x31, 0x00] @ []) @ [])) =
   Inr \<lparr>issuer_raw = der_wrap 0x30 [0x31, 0x00], serial_raw = der_wrap 0x02 [0x05]\<rparr>"
proof (rule x509_cert_id_correct [where alg_tag = "0x30" and alg = "[]" and tail = "[]"])
  show "der_wrap 0xa0 [0x02, 0x01, 0x02] = [] \<or>
      (\<exists>v. der_wrap 0xa0 [0x02, 0x01, 0x02] = der_wrap 0xa0 v \<and> length v < 2 ^ 32)"
    by (intro disjI2 exI [of _ "[0x02, 0x01, 0x02]"]) simp
qed (simp_all, simp_all add: der_wrap_def write_length_def)

end
