(* ===== verification/Cms.thy ===== *)
theory Cms
  imports X509
begin

text \<open>
  \<^verbatim>\<open>src/src/cms.cpp\<close>: the Authenticode CMS that aas-sign assembles around a
  signature, the extraction of the indirect data from osslsigncode's PKCS\#7 output, and the
  structural check that a CMS has a signer.

  SHA-256 is \<^verbatim>\<open>platform::sha256\<close>, implemented by mbedTLS or BCrypt outside
  the sources: a parameter \<open>sha\<close> of the operations that hash.
\<close>

section \<open>Object identifiers and algorithm identifiers\<close>

text \<open>
  The object identifiers are calls of \<^verbatim>\<open>der_oid\<close> on constants. Lemma
  \<open>oid_values\<close> below shows that every one of them returns, so the default is never used.
\<close>

definition oid_const :: "string \<Rightarrow> bytes" where
  "oid_const dotted = (case der_oid dotted of Some (Inr oid) \<Rightarrow> oid | _ \<Rightarrow> [])"

definition oid_signed_data :: bytes where
  "oid_signed_data = oid_const ''1.2.840.113549.1.7.2''"
definition oid_spc_indirect_data :: bytes where
  "oid_spc_indirect_data = oid_const ''1.3.6.1.4.1.311.2.1.4''"
definition oid_spc_statement_type :: bytes where
  "oid_spc_statement_type = oid_const ''1.3.6.1.4.1.311.2.1.11''"
definition oid_spc_individual :: bytes where
  "oid_spc_individual = oid_const ''1.3.6.1.4.1.311.2.1.21''"
definition oid_sha256 :: bytes where
  "oid_sha256 = oid_const ''2.16.840.1.101.3.4.2.1''"
definition oid_rsa_encryption :: bytes where
  "oid_rsa_encryption = oid_const ''1.2.840.113549.1.1.1''"
definition oid_content_type :: bytes where
  "oid_content_type = oid_const ''1.2.840.113549.1.9.3''"
definition oid_message_digest :: bytes where
  "oid_message_digest = oid_const ''1.2.840.113549.1.9.4''"

definition sha256_alg_id :: bytes where
  "sha256_alg_id = der_sequence [oid_sha256, der_null]"

section \<open>Assembly\<close>

definition build_auth_attrs :: "(bytes \<Rightarrow> bytes) \<Rightarrow> bytes \<Rightarrow> bytes result" where
  "build_auth_attrs sha spc_indirect_data =
     bindE (der_read_tlv spc_indirect_data) (\<lambda>content.
     if tlv_tag content \<noteq> DER_SEQUENCE \<or> total_len content \<noteq> length spc_indirect_data
     then throw ''invalid SpcIndirectDataContent'' else
     let content_hash = sha (tlv_content content);
         attr_content_type = der_sequence [oid_content_type, der_set [oid_spc_indirect_data]];
         attr_msg_digest =
           der_sequence [oid_message_digest, der_set [der_octet_string content_hash]];
         attr_statement =
           der_sequence [oid_spc_statement_type, der_set [der_sequence [oid_spc_individual]]]
     in Inr (der_set [attr_content_type, attr_msg_digest, attr_statement]))"

definition assemble_cms ::
  "(bytes \<Rightarrow> bytes) \<Rightarrow> bytes \<Rightarrow> bytes \<Rightarrow> bytes \<Rightarrow> bytes result" where
  "assemble_cms sha spc_idc signature certs_der =
     bindE (x509_split_certs certs_der) (\<lambda>certs.
     if certs = [] then throw ''no certificates in chain'' else
     bindE (x509_cert_id (certs ! 0)) (\<lambda>cert_id.
     bindE (build_auth_attrs sha spc_idc) (\<lambda>auth_attrs_set.
     bindE (der_integer 1) (\<lambda>si_version.
     let sid = der_sequence [issuer_raw cert_id, serial_raw cert_id];
         si_digest_alg = sha256_alg_id in
     bindE (der_implicit 0 True auth_attrs_set) (\<lambda>si_auth_attrs.
     let si_sig_alg = der_sequence [oid_rsa_encryption, der_null];
         si_signature = der_octet_string signature;
         signer_info = der_sequence
           [si_version, sid, si_digest_alg, si_auth_attrs, si_sig_alg, si_signature] in
     bindE (der_integer 1) (\<lambda>sd_version.
     let sd_digest_algs = der_set [sha256_alg_id];
         encap_content = der_sequence [oid_spc_indirect_data, der_explicit 0 spc_idc];
         all_certs = foldl (@) [] certs;
         certs_wrapped = der_wrap 0xa0 all_certs;
         signer_infos = der_set [signer_info];
         signed_data = der_sequence
           [sd_version, sd_digest_algs, encap_content, certs_wrapped, signer_infos]
     in Inr (der_sequence [oid_signed_data, der_explicit 0 signed_data])))))))"

section \<open>The field cursor\<close>

text \<open>
  A \<^verbatim>\<open>DerFields\<close> is the buffer that is left; \<^verbatim>\<open>take\<close>
  returns the element and the cursor after it.
\<close>

type_synonym DerFields = bytes

definition fields_take :: "byte \<Rightarrow> DerFields \<Rightarrow> (TlvView \<times> DerFields) result" where
  "fields_take tag s =
     bindE (der_read_tlv s) (\<lambda>v.
     if tlv_tag v \<noteq> tag then throw ''unexpected CMS DER field''
     else Inr (v, drop (total_len v) s))"

definition fields_next :: "DerFields \<Rightarrow> byte" where
  "fields_next s = (if s = [] then 0 else s ! 0)"

definition fields_end :: "DerFields \<Rightarrow> unit result" where
  "fields_end s = (if s \<noteq> [] then throw ''trailing CMS DER fields'' else Inr ())"

text \<open>\<^verbatim>\<open>if (s.next() == tag) s.take(tag);\<close>\<close>

definition skip_optional :: "byte \<Rightarrow> DerFields \<Rightarrow> DerFields result" where
  "skip_optional tag s =
     (if fields_next s = tag then bindE (fields_take tag s) (\<lambda>(_, s). Inr s) else Inr s)"

definition require_oid :: "TlvView \<Rightarrow> bytes \<Rightarrow> unit result" where
  "require_oid value oid =
     bindE (der_read_tlv oid) (\<lambda>expected.
     if content_len value \<noteq> content_len expected \<or> tlv_content value \<noteq> tlv_content expected
     then throw ''unexpected CMS content or digest algorithm (SHA-256 required)'' else Inr ())"

definition signed_data :: "bytes \<Rightarrow> TlvView result" where
  "signed_data pkcs7 =
     bindE (der_read_tlv pkcs7) (\<lambda>outer.
     if tlv_tag outer \<noteq> DER_SEQUENCE \<or> total_len outer \<noteq> length pkcs7
     then throw ''invalid PKCS#7 ContentInfo'' else
     bindE (fields_take 0x06 (tlv_content outer)) (\<lambda>(oid, ci).
     bindE (require_oid oid oid_signed_data) (\<lambda>_.
     bindE (fields_take 0xa0 ci) (\<lambda>(w, ci).
     bindE (fields_take DER_SEQUENCE (tlv_content w)) (\<lambda>(sd, wrapper).
     bindE (fields_end wrapper) (\<lambda>_.
     bindE (fields_end ci) (\<lambda>_. Inr sd)))))))"

definition skip_signed_data_header :: "DerFields \<Rightarrow> (TlvView \<times> DerFields) result" where
  "skip_signed_data_header sd =
     bindE (fields_take 0x02 sd) (\<lambda>(version, sd).
     if content_len version \<noteq> 1 \<or> tlv_content version ! 0 \<noteq> 1
     then throw ''Authenticode requires SignedData version 1'' else
     bindE (fields_take DER_SET sd) (\<lambda>(_, sd).
     fields_take DER_SEQUENCE sd))"

section \<open>Extraction of the indirect data\<close>

text \<open>The checks on the SpcIndirectDataContent itself: its digest is a SHA-256 one.\<close>

definition check_indirect_data :: "TlvView \<Rightarrow> unit result" where
  "check_indirect_data idc =
     bindE (fields_take DER_SEQUENCE (tlv_content idc)) (\<lambda>(_, data).
     bindE (fields_take DER_SEQUENCE data) (\<lambda>(d, data).
     bindE (fields_take DER_SEQUENCE (tlv_content d)) (\<lambda>(a, digest).
     bindE (fields_take 0x06 (tlv_content a)) (\<lambda>(oid, algorithm).
     bindE (require_oid oid oid_sha256) (\<lambda>_.
     bindE (if algorithm \<noteq> []
            then bindE (fields_take 0x05 algorithm) (\<lambda>(null, algorithm).
              if content_len null \<noteq> 0 then throw ''invalid SHA-256 parameters''
              else Inr algorithm)
            else Inr algorithm) (\<lambda>algorithm.
     bindE (fields_end algorithm) (\<lambda>_.
     bindE (fields_take 0x04 digest) (\<lambda>(octets, digest).
     if content_len octets = 0 then throw ''empty Authenticode digest'' else
     bindE (fields_end digest) (\<lambda>_. fields_end data)))))))))"

definition cms_extract_indirect_data :: "bytes \<Rightarrow> bytes result" where
  "cms_extract_indirect_data pkcs7 =
     bindE (signed_data pkcs7) (\<lambda>v.
     bindE (skip_signed_data_header (tlv_content v)) (\<lambda>(e, sd).
     bindE (fields_take 0x06 (tlv_content e)) (\<lambda>(oid, eci).
     bindE (require_oid oid oid_spc_indirect_data) (\<lambda>_.
     bindE (fields_take 0xa0 eci) (\<lambda>(c, eci).
     bindE (fields_take DER_SEQUENCE (tlv_content c)) (\<lambda>(idc, content).
     bindE (fields_end content) (\<lambda>_.
     bindE (fields_end eci) (\<lambda>_.
     bindE (check_indirect_data idc) (\<lambda>_.
     bindE (skip_optional 0xa0 sd) (\<lambda>sd.
     bindE (skip_optional 0xa1 sd) (\<lambda>sd.
     bindE (fields_take DER_SET sd) (\<lambda>(_, sd).
     bindE (fields_end sd) (\<lambda>_. Inr (tlv_raw idc))))))))))))))"

section \<open>The signer check\<close>

definition signer_algorithm :: "DerFields \<Rightarrow> DerFields result" where
  "signer_algorithm signer =
     bindE (fields_take DER_SEQUENCE signer) (\<lambda>(a, signer).
     bindE (fields_take 0x06 (tlv_content a)) (\<lambda>(oid, fields).
     if content_len oid = 0 then throw ''empty signature algorithm OID'' else
     bindE (if fields \<noteq> []
            then bindE (fields_take (fields_next fields) fields) (\<lambda>(_, fields). Inr fields)
            else Inr fields) (\<lambda>fields.
     bindE (fields_end fields) (\<lambda>_. Inr signer))))"

lemma fields_take_length:
  "fields_take tag s = Inr (v, s') \<Longrightarrow> length s' < length s"
  using der_read_tlv_bounds(1,2) [of s v] by (auto simp: fields_take_def result_iff)

function values_loop :: "DerFields \<Rightarrow> unit result" where
  "values_loop values =
     (if values = [] then Inr ()
      else bindE (fields_take (fields_next values) values) (\<lambda>(_, values). values_loop values))"
  by pat_completeness auto
termination
  by (relation "measure length") (auto dest: fields_take_length)

definition check_attribute :: "TlvView \<Rightarrow> unit result" where
  "check_attribute v =
     bindE (fields_take 0x06 (tlv_content v)) (\<lambda>(oid, attr).
     if content_len oid = 0 then throw ''empty attribute OID'' else
     bindE (fields_take DER_SET attr) (\<lambda>(values, attr).
     if tlv_content values = [] then throw ''empty attribute values'' else
     bindE (values_loop (tlv_content values)) (\<lambda>_. fields_end attr)))"

function attrs_loop :: "DerFields \<Rightarrow> unit result" where
  "attrs_loop attrs =
     (if attrs = [] then Inr ()
      else bindE (fields_take DER_SEQUENCE attrs) (\<lambda>(v, attrs).
        bindE (check_attribute v) (\<lambda>_. attrs_loop attrs)))"
  by pat_completeness auto
termination
  by (relation "measure length") (auto dest: fields_take_length)

definition signer_attributes :: "byte \<Rightarrow> DerFields \<Rightarrow> DerFields result" where
  "signer_attributes tag signer =
     bindE (fields_take tag signer) (\<lambda>(v, signer).
     if tlv_content v = [] then throw ''empty signer attributes'' else
     bindE (attrs_loop (tlv_content v)) (\<lambda>_. Inr signer))"

definition check_signer :: "TlvView \<Rightarrow> unit result" where
  "check_signer v =
     bindE (fields_take 0x02 (tlv_content v)) (\<lambda>(version, signer).
     if content_len version \<noteq> 1 \<or> tlv_content version ! 0 \<noteq> 1
     then throw ''invalid Authenticode SignerInfo version'' else
     bindE (fields_take DER_SEQUENCE signer) (\<lambda>(s, signer).
     bindE (fields_take DER_SEQUENCE (tlv_content s)) (\<lambda>(issuer, sid).
     if content_len issuer = 0 then throw ''empty signer issuer'' else
     bindE (fields_take 0x02 sid) (\<lambda>(serial, sid).
     if content_len serial = 0 then throw ''empty signer serial'' else
     bindE (fields_end sid) (\<lambda>_.
     bindE (signer_algorithm signer) (\<lambda>signer.
     bindE (if fields_next signer = 0xa0 then signer_attributes 0xa0 signer else Inr signer) (\<lambda>signer.
     bindE (signer_algorithm signer) (\<lambda>signer.
     bindE (fields_take 0x04 signer) (\<lambda>(octets, signer).
     if content_len octets = 0 then throw ''empty CMS signature'' else
     bindE (if fields_next signer = 0xa1 then signer_attributes 0xa1 signer else Inr signer) (\<lambda>signer.
     fields_end signer))))))))))"

function signers_loop :: "bool \<Rightarrow> DerFields \<Rightarrow> bool result" where
  "signers_loop found signers =
     (if signers = [] then Inr found
      else bindE (fields_take DER_SEQUENCE signers) (\<lambda>(v, signers).
        bindE (check_signer v) (\<lambda>_. signers_loop True signers)))"
  by pat_completeness auto
termination
  by (relation "measure (length \<circ> snd)") (auto dest: fields_take_length)

declare values_loop.simps [simp del] attrs_loop.simps [simp del] signers_loop.simps [simp del]

definition cms_has_signer :: "bytes \<Rightarrow> bool result" where
  "cms_has_signer pkcs7 =
     bindE (signed_data pkcs7) (\<lambda>v.
     bindE (skip_signed_data_header (tlv_content v)) (\<lambda>(_, sd).
     bindE (skip_optional 0xa0 sd) (\<lambda>sd.
     bindE (skip_optional 0xa1 sd) (\<lambda>sd.
     bindE (fields_take DER_SET sd) (\<lambda>(signers, sd).
     bindE (fields_end sd) (\<lambda>_.
     signers_loop False (tlv_content signers)))))))"

section \<open>The adapter\<close>

definition cms_auth_attrs_hash :: "(bytes \<Rightarrow> bytes) \<Rightarrow> bytes \<Rightarrow> bytes result" where
  "cms_auth_attrs_hash sha indirect_data =
     bindE (build_auth_attrs sha indirect_data) (\<lambda>attrs. Inr (sha attrs))"

definition cms_build_authenticode ::
  "(bytes \<Rightarrow> bytes) \<Rightarrow> bytes \<Rightarrow> bytes \<Rightarrow> bytes \<Rightarrow> bytes result" where
  "cms_build_authenticode sha indirect_data signature certs_der =
     assemble_cms sha indirect_data signature certs_der"

section \<open>The identifiers\<close>

lemma oid_const_dotted:
  assumes "\<forall>n \<in> set (c1 # c2 # rest). n < 2 ^ 64"
  shows "oid_const (dotted_form (c1 # c2 # rest)) =
    der_wrap 0x06 (of_nat (40 * c1 + c2) # concat (map (\<lambda>n. oid_arc (of_nat n)) rest))"
  using der_oid_dotted [OF assms] by (simp add: oid_const_def del: of_nat_add of_nat_mult)

lemma oid_dotted_forms:
  "''1.2.840.113549.1.7.2'' = dotted_form [1, 2, 840, 113549, 1, 7, 2]"
  "''1.3.6.1.4.1.311.2.1.4'' = dotted_form [1, 3, 6, 1, 4, 1, 311, 2, 1, 4]"
  "''1.3.6.1.4.1.311.2.1.11'' = dotted_form [1, 3, 6, 1, 4, 1, 311, 2, 1, 11]"
  "''1.3.6.1.4.1.311.2.1.21'' = dotted_form [1, 3, 6, 1, 4, 1, 311, 2, 1, 21]"
  "''2.16.840.1.101.3.4.2.1'' = dotted_form [2, 16, 840, 1, 101, 3, 4, 2, 1]"
  "''1.2.840.113549.1.1.1'' = dotted_form [1, 2, 840, 113549, 1, 1, 1]"
  "''1.2.840.113549.1.9.3'' = dotted_form [1, 2, 840, 113549, 1, 9, 3]"
  "''1.2.840.113549.1.9.4'' = dotted_form [1, 2, 840, 113549, 1, 9, 4]"
  by (simp_all add: to_string_nat.simps)

lemma oid_values:
  "oid_signed_data = der_wrap 0x06 [0x2a, 0x86, 0x48, 0x86, 0xf7, 0x0d, 0x01, 0x07, 0x02]"
  "oid_spc_indirect_data = der_wrap 0x06 [0x2b, 0x06, 0x01, 0x04, 0x01, 0x82, 0x37, 0x02, 0x01, 0x04]"
  "oid_spc_statement_type = der_wrap 0x06 [0x2b, 0x06, 0x01, 0x04, 0x01, 0x82, 0x37, 0x02, 0x01, 0x0b]"
  "oid_spc_individual = der_wrap 0x06 [0x2b, 0x06, 0x01, 0x04, 0x01, 0x82, 0x37, 0x02, 0x01, 0x15]"
  "oid_sha256 = der_wrap 0x06 [0x60, 0x86, 0x48, 0x01, 0x65, 0x03, 0x04, 0x02, 0x01]"
  "oid_rsa_encryption = der_wrap 0x06 [0x2a, 0x86, 0x48, 0x86, 0xf7, 0x0d, 0x01, 0x01, 0x01]"
  "oid_content_type = der_wrap 0x06 [0x2a, 0x86, 0x48, 0x86, 0xf7, 0x0d, 0x01, 0x09, 0x03]"
  "oid_message_digest = der_wrap 0x06 [0x2a, 0x86, 0x48, 0x86, 0xf7, 0x0d, 0x01, 0x09, 0x04]"
  by (simp_all add: oid_signed_data_def oid_spc_indirect_data_def oid_spc_statement_type_def
      oid_spc_individual_def oid_sha256_def oid_rsa_encryption_def oid_content_type_def
      oid_message_digest_def oid_dotted_forms oid_const_dotted oid_arc_def base128_digits.simps
      del: dotted_form.simps)

section \<open>The cursor on written elements\<close>

lemma fields_take_element:
  assumes "der_read_tlv e = Inr v" "total_len v = length e" "tlv_tag v = tag"
  shows "fields_take tag (e @ rest) = Inr (v, rest)" "fields_take tag e = Inr (v, [])"
proof -
  have "tlv_raw v = e" using der_read_tlv_bounds(5) [OF assms(1)] assms(2) by simp
  with der_read_tlv_prefix [OF assms(1)] assms
  show "fields_take tag (e @ rest) = Inr (v, rest)" "fields_take tag e = Inr (v, [])"
    by (simp_all add: fields_take_def)
qed

lemma fields_take_wrap [tlv_simps]:
  assumes "length c < 2 ^ 32"
  shows "fields_take tag (der_wrap tag c @ rest) = Inr (wrap_view tag c, rest)"
    and "fields_take tag (der_wrap tag c) = Inr (wrap_view tag c, [])"
  using assms der_read_tlv_wrap [of c tag "[]"] by (auto intro!: fields_take_element)

lemma fields_next_wrap [simp]:
  "fields_next (der_wrap tag c @ rest) = tag" "fields_next (der_wrap tag c) = tag"
  by (simp_all add: fields_next_def der_wrap_def write_length_def)

lemma fields_next_Nil [simp]: "fields_next [] = 0"
  by (simp add: fields_next_def)

lemma fields_end_Inr_iff [result_iff]: "fields_end s = Inr u \<longleftrightarrow> s = []"
  by (simp add: fields_end_def)

lemma fields_end_Nil [simp]: "fields_end [] = Inr ()"
  by (simp add: fields_end_def)

lemma der_wrap_not_Nil [simp]: "der_wrap tag c \<noteq> []"
  by (simp add: der_wrap_def write_length_def)

lemma der_set_single [simp]: "der_set [x] = der_wrap 0x31 x"
  by (simp add: der_set_eq)

lemma der_explicit_0 [simp]: "der_explicit 0 c = der_wrap 0xa0 c"
  by (simp add: der_explicit_def)

lemma der_implicit_0 [simp]: "der_implicit 0 True (der_wrap tag c) = Inr (der_wrap 0xa0 c)"
  by (simp add: der_implicit_def Let_def) (simp add: der_wrap_def write_length_def)

lemma der_null_wrap: "der_null = der_wrap 0x05 []"
  by (simp add: der_null_def der_wrap_def write_length_def)

lemma require_oid_same [tlv_simps]:
  assumes "length c < 2 ^ 32" "content_len v = length c" "tlv_content v = c"
  shows "require_oid v (der_wrap 0x06 c) = Inr ()"
  using assms der_read_tlv_wrap [of c "0x06" "[]"] by (simp add: require_oid_def)

section \<open>The loops\<close>

interpretation vals: tlv_walk values_loop "\<lambda>v. Inr ()" "()" "\<lambda>_ _. ()"
proof unfold_locales
  show "values_loop [] = Inr ()" by (simp add: values_loop.simps)
next
  fix data :: bytes
  assume "data \<noteq> []"
  then show "values_loop data = bindE (der_read_tlv data) (\<lambda>v. bindE (Inr ()) (\<lambda>x.
      bindE (values_loop (drop (total_len v) data)) (\<lambda>r. Inr ())))"
    by (cases "der_read_tlv data"; cases "values_loop (drop (total_len (projr (der_read_tlv data))) data)")
      (auto simp: values_loop.simps [of data] fields_take_def fields_next_def
        dest: der_read_tlv_bounds(6))
qed

interpretation attrs: tlv_walk attrs_loop
  "\<lambda>v. bindE (checkE (tlv_tag v = DER_SEQUENCE) ''unexpected CMS DER field'') (\<lambda>_. check_attribute v)"
  "()" "\<lambda>_ _. ()"
proof unfold_locales
  show "attrs_loop [] = Inr ()" by (simp add: attrs_loop.simps)
next
  fix data :: bytes
  assume "data \<noteq> []"
  show "attrs_loop data = bindE (der_read_tlv data) (\<lambda>v.
      bindE (bindE (checkE (tlv_tag v = DER_SEQUENCE) ''unexpected CMS DER field'') (\<lambda>_. check_attribute v)) (\<lambda>x.
      bindE (attrs_loop (drop (total_len v) data)) (\<lambda>r. Inr ())))"
    using \<open>data \<noteq> []\<close>
    by (cases "der_read_tlv data") (simp_all add: attrs_loop.simps [of data] fields_take_def checkE_def)
qed

lemma signers_loop_True: "signers_loop True data = Inr b \<Longrightarrow> b"
proof (induction data rule: length_induct)
  case (1 data)
  then show ?case
    by (auto simp: signers_loop.simps [of True data] result_iff dest: fields_take_length split: if_splits)
qed

lemma signers_loop_found:
  "signers_loop True data = bindE (signers_loop False data) (\<lambda>_. Inr True)"
proof (cases "signers_loop True data")
  case (Inl e)
  then show ?thesis
    by (cases "data = []") (simp_all add: signers_loop.simps [of _ data] signers_loop.simps [of _ "[]"])
next
  case (Inr b)
  with signers_loop_True [OF Inr] have "signers_loop True data = Inr True" by simp
  then show ?thesis
    by (cases "data = []") (simp_all add: signers_loop.simps [of _ data] signers_loop.simps [of _ "[]"])
qed

interpretation signers: tlv_walk "signers_loop False"
  "\<lambda>v. bindE (checkE (tlv_tag v = DER_SEQUENCE) ''unexpected CMS DER field'') (\<lambda>_. check_signer v)"
  False "\<lambda>_ _. True"
proof unfold_locales
  show "signers_loop False [] = Inr False" by (simp add: signers_loop.simps)
next
  fix data :: bytes
  assume "data \<noteq> []"
  then show "signers_loop False data = bindE (der_read_tlv data) (\<lambda>v.
      bindE (bindE (checkE (tlv_tag v = DER_SEQUENCE) ''unexpected CMS DER field'') (\<lambda>_. check_signer v)) (\<lambda>x.
      bindE (signers_loop False (drop (total_len v) data)) (\<lambda>r. Inr True)))"
    by (cases "der_read_tlv data")
      (simp_all add: signers_loop.simps [of False data] fields_take_def checkE_def signers_loop_found)
qed

section \<open>The assembled CMS\<close>

text \<open>
  The shape of what \<^verbatim>\<open>assemble_cms\<close> returns, as a function of the parts that
  vary: the authenticated attributes, the certificates and the signer information.
\<close>

definition auth_attrs :: "(bytes \<Rightarrow> bytes) \<Rightarrow> bytes \<Rightarrow> bytes list" where
  "auth_attrs sha content =
     [der_sequence [oid_content_type, der_set [oid_spc_indirect_data]],
      der_sequence [oid_message_digest, der_set [der_octet_string (sha content)]],
      der_sequence [oid_spc_statement_type, der_set [der_sequence [oid_spc_individual]]]]"

definition signer_info_content :: "bytes \<Rightarrow> CertId \<Rightarrow> bytes \<Rightarrow> bytes" where
  "signer_info_content attrs cert_id signature =
     der_wrap 0x02 [1] @ der_sequence [issuer_raw cert_id, serial_raw cert_id] @ sha256_alg_id @
     der_wrap 0xa0 attrs @ der_sequence [oid_rsa_encryption, der_null] @ der_octet_string signature"

definition signed_data_content :: "bytes \<Rightarrow> bytes \<Rightarrow> bytes \<Rightarrow> bytes" where
  "signed_data_content idc all_certs signer_infos =
     der_wrap 0x02 [1] @ der_wrap 0x31 sha256_alg_id @
     der_wrap 0x30 (oid_spc_indirect_data @ der_wrap 0xa0 idc) @
     der_wrap 0xa0 all_certs @ der_wrap 0x31 signer_infos"

definition cms_form :: "bytes \<Rightarrow> bytes \<Rightarrow> bytes \<Rightarrow> bytes" where
  "cms_form idc all_certs signer_infos =
     der_wrap 0x30 (oid_signed_data @
       der_wrap 0xa0 (der_wrap 0x30 (signed_data_content idc all_certs signer_infos)))"

lemma build_auth_attrs_Inr_iff:
  "build_auth_attrs sha idc = Inr attrs \<longleftrightarrow>
     (\<exists>v. der_read_tlv idc = Inr v \<and> tlv_tag v = 0x30 \<and> total_len v = length idc \<and>
       attrs = der_wrap 0x31 (concat (sort (auth_attrs sha (tlv_content v)))))"
proof -
  have "build_auth_attrs sha idc = bindE (der_read_tlv idc) (\<lambda>v.
      if tlv_tag v \<noteq> DER_SEQUENCE \<or> total_len v \<noteq> length idc
      then throw ''invalid SpcIndirectDataContent'' else Inr (der_set (auth_attrs sha (tlv_content v))))"
    by (simp only: build_auth_attrs_def auth_attrs_def Let_def)
  then show ?thesis by (auto simp: result_iff der_set_eq DER_SEQUENCE_def)
qed

lemma assemble_cms_InrD:
  assumes "assemble_cms sha idc signature certs_der = Inr cms"
  obtains certs cert_id v where
    "x509_split_certs certs_der = Inr certs" "certs \<noteq> []"
    "x509_cert_id (certs ! 0) = Inr cert_id"
    "der_read_tlv idc = Inr v" "tlv_tag v = 0x30" "total_len v = length idc"
    "cms = cms_form idc (concat certs) (der_wrap 0x30 (signer_info_content
       (concat (sort (auth_attrs sha (tlv_content v)))) cert_id signature))"
proof -
  from assms obtain certs where certs: "x509_split_certs certs_der = Inr certs"
    by (cases "x509_split_certs certs_der") (simp_all add: assemble_cms_def)
  with assms have ne: "certs \<noteq> []"
    by (cases "certs = []") (simp_all add: assemble_cms_def)
  with assms certs obtain cert_id where cid: "x509_cert_id (certs ! 0) = Inr cert_id"
    by (cases "x509_cert_id (certs ! 0)") (simp_all add: assemble_cms_def)
  with assms certs ne obtain attrs where attrs: "build_auth_attrs sha idc = Inr attrs"
    by (cases "build_auth_attrs sha idc") (simp_all add: assemble_cms_def)
  then obtain v where v: "der_read_tlv idc = Inr v" "tlv_tag v = 0x30" "total_len v = length idc"
    and a: "attrs = der_wrap 0x31 (concat (sort (auth_attrs sha (tlv_content v))))"
    by (auto simp: build_auth_attrs_Inr_iff)
  from assms certs ne cid attrs have
    "cms = cms_form idc (concat certs) (der_wrap 0x30 (signer_info_content
       (concat (sort (auth_attrs sha (tlv_content v)))) cert_id signature))"
    by (simp add: assemble_cms_def a Let_def cms_form_def signed_data_content_def
        signer_info_content_def der_sequence_eq)
  with certs ne cid v show ?thesis by (rule that)
qed

text \<open>The sizes of the fixed parts.\<close>

lemma cms_fixed_sizes:
  "length oid_signed_data = 11" "length oid_spc_indirect_data = 12" "length sha256_alg_id = 15"
  "length (der_sequence [oid_rsa_encryption, der_null]) = 15" "length (der_wrap 0x02 [1]) = 3"
  by (simp_all add: oid_values sha256_alg_id_def der_sequence_eq der_null_def der_wrap_def write_length_def)

lemma auth_attrs_size:
  assumes "length (sha content) = 32"
  shows "length (concat (sort (auth_attrs sha content))) = 106"
proof -
  have "length (concat (sort xs)) = length (concat xs)" for xs :: "bytes list"
  proof -
    have "sum_list (map length (sort xs)) = sum_list (map length xs)"
      by (metis mset_map mset_sort sum_mset_sum_list)
    then show ?thesis by (simp add: length_concat)
  qed
  then show ?thesis
    using assms by (simp add: auth_attrs_def oid_values der_sequence_eq der_octet_string_def
        der_wrap_def write_length_def)
qed

lemma signed_data_content_size:
  "length (signed_data_content idc certs si) \<le> length idc + length certs + length si + 100"
  using der_wrap_length_bounds(2) [of "0x31" sha256_alg_id] der_wrap_length_bounds(2) [of "0xa0" idc]
    der_wrap_length_bounds(2) [of "0x30" "oid_spc_indirect_data @ der_wrap 0xa0 idc"]
    der_wrap_length_bounds(2) [of "0xa0" certs] der_wrap_length_bounds(2) [of "0x31" si]
  by (simp add: signed_data_content_def cms_fixed_sizes)

lemma signed_data_cms_form:
  assumes "length idc + length certs + length si < 2 ^ 31"
  shows "signed_data (cms_form idc certs si) = Inr (wrap_view 0x30 (signed_data_content idc certs si))"
proof -
  let ?sd = "signed_data_content idc certs si"
  have sd: "length ?sd < 2 ^ 32" using signed_data_content_size [of idc certs si] assms by simp
  have w: "length (der_wrap 0x30 ?sd) < 2 ^ 32"
    using der_wrap_length_bounds(2) [of "0x30" ?sd] signed_data_content_size [of idc certs si] assms by simp
  have o: "length (oid_signed_data @ der_wrap 0xa0 (der_wrap 0x30 ?sd)) < 2 ^ 32"
    using der_wrap_length_bounds(2) [of "0x30" ?sd] der_wrap_length_bounds(2) [of "0xa0" "der_wrap 0x30 ?sd"]
      signed_data_content_size [of idc certs si] assms by (simp add: cms_fixed_sizes)
  have "der_read_tlv (cms_form idc certs si) =
      Inr (wrap_view 0x30 (oid_signed_data @ der_wrap 0xa0 (der_wrap 0x30 ?sd)))"
    unfolding cms_form_def using der_read_tlv_wrap [OF o, of "0x30" "[]"] by simp
  with sd w show ?thesis
    by (simp add: signed_data_def DER_SEQUENCE_def cms_form_def)
      (simp add: oid_values tlv_simps)
qed

lemma skip_header_cms_form:
  assumes "length idc + length certs + length si < 2 ^ 31"
  shows "skip_signed_data_header (signed_data_content idc certs si) =
    Inr (wrap_view 0x30 (oid_spc_indirect_data @ der_wrap 0xa0 idc),
         der_wrap 0xa0 certs @ der_wrap 0x31 si)"
  using assms der_wrap_length_bounds(2) [of "0xa0" idc]
  by (simp add: skip_signed_data_header_def signed_data_content_def DER_SEQUENCE_def DER_SET_def
      tlv_simps cms_fixed_sizes)

lemma find_certs_field_other:
  assumes "length c < 2 ^ 32" "tag \<noteq> 0xa0"
  shows "find_certs_field (der_wrap tag c @ rest) = find_certs_field rest"
  using assms by (simp add: find_certs_field.simps [of "der_wrap tag c @ rest"] der_read_tlv_wrap)

lemma try_extract_cms_form:
  assumes "length idc + length certs + length si < 2 ^ 31"
  shows "try_extract_cms_certs (cms_form idc certs si) =
    bindE (split_loop certs) (\<lambda>cs. Inr (Some cs))"
proof -
  let ?sd = "signed_data_content idc certs si"
  note b = der_wrap_length_bounds
  have sd: "length ?sd \<le> length idc + length certs + length si + 100" by (rule signed_data_content_size)
  with assms have n: "length ?sd < 2 ^ 32" "length (der_wrap 0x30 ?sd) < 2 ^ 32"
    "length (oid_signed_data @ der_wrap 0xa0 (der_wrap 0x30 ?sd)) < 2 ^ 32"
    using b(2) [of "0x30" ?sd] b(2) [of "0xa0" "der_wrap 0x30 ?sd"] by (simp_all add: cms_fixed_sizes)
  have big: "20 \<le> length (cms_form idc certs si)"
    using b(1) [of "oid_signed_data @ der_wrap 0xa0 (der_wrap 0x30 ?sd)" "0x30"]
      b(1) [of "der_wrap 0x30 ?sd" "0xa0"] b(1) [of ?sd "0x30"]
      b(1) [of "[1]" "0x02"]
    by (simp add: cms_form_def cms_fixed_sizes signed_data_content_def)
  have fields: "find_certs_field ?sd = bindE (split_loop certs) (\<lambda>cs. Inr (Some cs))"
    unfolding signed_data_content_def
    using assms b(2) [of "0xa0" idc]
    by (simp add: find_certs_field_other cms_fixed_sizes find_certs_field.simps [of "der_wrap 0xa0 certs @ _"]
        der_read_tlv_wrap)
  have read: "der_read_tlv (cms_form idc certs si) =
      Inr (wrap_view 0x30 (oid_signed_data @ der_wrap 0xa0 (der_wrap 0x30 ?sd)))"
    "der_read_tlv (der_wrap 0xa0 (der_wrap 0x30 ?sd)) = Inr (wrap_view 0xa0 (der_wrap 0x30 ?sd))"
    "der_read_tlv (der_wrap 0x30 ?sd) = Inr (wrap_view 0x30 ?sd)"
    using der_read_tlv_wrap [OF n(3), of "0x30" "[]"] der_read_tlv_wrap [OF n(2), of "0xa0" "[]"]
      der_read_tlv_wrap [OF n(1), of "0x30" "[]"] by (simp_all add: cms_form_def)
  have oid: "der_read_tlv (oid_signed_data @ rest) = Inr (wrap_view 0x06 x509_oid_signed_data)" for rest
    by (simp add: oid_values x509_oid_signed_data_def der_read_tlv_wrap)
  show ?thesis
    using big by (simp add: try_extract_cms_certs_def read oid fields)
      (simp add: oid_values x509_oid_signed_data_def read fields)
qed

text \<open>What the extraction requires of the indirect data alone.\<close>

definition valid_indirect_data :: "bytes \<Rightarrow> bool" where
  "valid_indirect_data idc \<longleftrightarrow>
     (case der_read_tlv idc of Inl _ \<Rightarrow> False
      | Inr v \<Rightarrow> tlv_tag v = 0x30 \<and> total_len v = length idc \<and> check_indirect_data v = Inr ())"

lemma extract_valid:
  assumes "cms_extract_indirect_data pkcs7 = Inr idc"
  shows "valid_indirect_data idc"
proof -
  from assms obtain c :: TlvView and content v where
    "fields_take DER_SEQUENCE (tlv_content c) = Inr (v, content)"
    "check_indirect_data v = Inr ()" "idc = tlv_raw v"
    by (auto simp: cms_extract_indirect_data_def result_iff)
  moreover from this(1) have read: "der_read_tlv (tlv_content c) = Inr v" and "tlv_tag v = 0x30"
    by (auto simp: fields_take_def result_iff DER_SEQUENCE_def)
  moreover note der_read_tlv_prefix [OF read, of "[]"] der_read_tlv_bounds(2,5) [OF read]
  ultimately show ?thesis by (simp add: valid_indirect_data_def)
qed

lemma extract_cms_form:
  assumes "valid_indirect_data idc" "length idc + length certs + length si < 2 ^ 31"
  shows "cms_extract_indirect_data (cms_form idc certs si) = Inr idc"
proof -
  from assms(1) obtain v where v: "der_read_tlv idc = Inr v" "total_len v = length idc"
    "tlv_tag v = 0x30" and ok: "check_indirect_data v = Inr ()"
    by (auto simp: valid_indirect_data_def split: sum.splits)
  have raw: "tlv_raw v = idc" using der_read_tlv_bounds(5) [OF v(1)] v(2) by simp
  have take: "fields_take 0x30 idc = Inr (v, [])" using v by (rule fields_take_element(2))
  have oid: "fields_take 0x06 (oid_spc_indirect_data @ der_wrap 0xa0 idc) =
      Inr (wrap_view 0x06 [0x2b, 0x06, 0x01, 0x04, 0x01, 0x82, 0x37, 0x02, 0x01, 0x04], der_wrap 0xa0 idc)"
    by (simp add: oid_values tlv_simps)
  have req: "require_oid (wrap_view 0x06 [0x2b, 0x06, 0x01, 0x04, 0x01, 0x82, 0x37, 0x02, 0x01, 0x04])
      oid_spc_indirect_data = Inr ()"
    by (simp add: oid_values tlv_simps)
  show ?thesis
    using assms(2) ok
    by (simp add: cms_extract_indirect_data_def signed_data_cms_form skip_header_cms_form oid req
        tlv_simps DER_SEQUENCE_def DER_SET_def take raw skip_optional_def)
qed

lemma has_signer_cms_form:
  assumes "length idc + length certs + length si < 2 ^ 31"
  shows "cms_has_signer (cms_form idc certs si) = signers_loop False si"
  using assms
  by (simp add: cms_has_signer_def signed_data_cms_form skip_header_cms_form tlv_simps
      DER_SET_def skip_optional_def)

text \<open>The attributes pass the attribute checks, in any order.\<close>

definition attribute_form :: "bytes \<Rightarrow> bool" where
  "attribute_form a \<longleftrightarrow>
     (\<exists>oid tag c. a = der_wrap 0x30 (der_wrap 0x06 oid @ der_wrap 0x31 (der_wrap tag c)) \<and>
       oid \<noteq> [] \<and> length oid < 100 \<and> length c < 2 ^ 31)"

lemma attrs_loop_forms:
  assumes "\<forall>a \<in> set as. attribute_form a"
  shows "attrs_loop (concat as) = Inr ()"
  using assms
proof (induction as)
  case Nil
  then show ?case by (simp add: attrs.walk_empty)
next
  case (Cons a as)
  then obtain oid tag c where a: "a = der_wrap 0x30 (der_wrap 0x06 oid @ der_wrap 0x31 (der_wrap tag c))"
    and o: "oid \<noteq> []" "length oid < 100" and c: "length c < 2 ^ 31"
    by (auto simp: attribute_form_def)
  let ?c = "der_wrap 0x06 oid @ der_wrap 0x31 (der_wrap tag c)"
  note size = der_wrap_length_bounds(2) [of "0x06" oid] der_wrap_length_bounds(2) [of tag c]
    der_wrap_length_bounds(2) [of "0x31" "der_wrap tag c"]
  have "values_loop (der_wrap tag c) = Inr ()"
    using vals.walk_wrap [of c "()" tag "[]"] vals.walk_empty c by simp
  with o c size have "check_attribute (wrap_view 0x30 ?c) = Inr ()"
    by (simp add: check_attribute_def DER_SET_def tlv_simps)
  then have "attrs_loop (der_wrap 0x30 ?c @ concat as) = bindE (attrs_loop (concat as)) (\<lambda>r. Inr ())"
    using o c size by (intro attrs.walk_wrap) (simp_all add: DER_SEQUENCE_def)
  with Cons a show ?case by simp
qed

lemma auth_attrs_forms:
  assumes "length (sha content) = 32"
  shows "\<forall>a \<in> set (sort (auth_attrs sha content)). attribute_form a"
proof -
  have "attribute_form (der_wrap 0x30 (der_wrap 0x06 oid @ der_wrap 0x31 (der_wrap tag c)))"
    if "oid \<noteq> []" "length oid < 100" "length c < 2 ^ 31" for oid tag c
    using that by (auto simp: attribute_form_def)
  moreover have "length (der_wrap 0x06 c) < 2147483648" if "length c < 100" for c
    using der_wrap_length_bounds(2) [of "0x06" c] that by simp
  ultimately show ?thesis
    using assms by (simp add: auth_attrs_def der_sequence_eq oid_values der_octet_string_def)
qed

text \<open>
  A certificate identifier that the signer check accepts: both parts are non-empty, and the
  issuer has the universal constructed SEQUENCE tag.
\<close>

definition usable_cert_id :: "CertId \<Rightarrow> bool" where
  "usable_cert_id cid \<longleftrightarrow>
     (case der_read_tlv (issuer_raw cid) of Inl _ \<Rightarrow> False
      | Inr i \<Rightarrow> tlv_tag i = 0x30 \<and> content_len i \<noteq> 0) \<and>
     (case der_read_tlv (serial_raw cid) of Inl _ \<Rightarrow> False | Inr s \<Rightarrow> content_len s \<noteq> 0)"

lemma signer_algorithm_form:
  assumes "oid \<noteq> []" "length oid < 100"
  shows "signer_algorithm (der_wrap 0x30 (der_wrap 0x06 oid @ der_null) @ rest) = Inr rest"
proof -
  have "length (der_wrap 0x06 oid @ der_wrap 0x05 []) < 2 ^ 32"
    using assms der_wrap_length_bounds(2) [of "0x06" oid] der_wrap_length_bounds(2) [of "0x05" "[]"]
    by simp
  with assms show ?thesis
    by (simp add: signer_algorithm_def DER_SEQUENCE_def der_null_wrap fields_take_wrap)
qed

lemma check_signer_form:
  assumes sid: "x509_cert_id cert = Inr cid" "usable_cert_id cid"
    and sig: "signature \<noteq> []"
    and attrs: "attrs \<noteq> []" "attrs_loop attrs = Inr ()"
    and size: "length cert + length attrs + length signature < 2 ^ 31"
  shows "check_signer (wrap_view 0x30 (signer_info_content attrs cid signature)) = Inr ()"
proof -
  note c = x509_cert_id_InrD [OF sid(1)]
  obtain i where i: "der_read_tlv (issuer_raw cid) = Inr i" "total_len i = length (issuer_raw cid)"
    using c(1) by (rule complete_tlvE)
  obtain s where s: "der_read_tlv (serial_raw cid) = Inr s" "total_len s = length (serial_raw cid)"
    using c(2) by (rule complete_tlvE)
  from sid(2) i s have ok: "tlv_tag i = 0x30" "content_len i \<noteq> 0" "content_len s \<noteq> 0"
    by (simp_all add: usable_cert_id_def)
  have "tlv_tag s = 0x02"
    using der_read_tlv_bounds(6,7) [OF s(1)] c(3) by (simp add: hd_conv_nth)
  then have take: "fields_take 0x30 (issuer_raw cid @ serial_raw cid) = Inr (i, serial_raw cid)"
    "fields_take 0x02 (serial_raw cid) = Inr (s, [])"
    using i s ok by (auto intro!: fields_take_element)
  have len: "length (issuer_raw cid) + length (serial_raw cid) < 4294967296"
    "length attrs < 4294967296" "length signature < 4294967296"
    using c(5) size by simp_all
  have alg: "signer_algorithm (sha256_alg_id @ rest) = Inr rest"
    "signer_algorithm (der_sequence [oid_rsa_encryption, der_null] @ rest) = Inr rest" for rest
    using signer_algorithm_form by (simp_all add: sha256_alg_id_def der_sequence_eq oid_values)
  show ?thesis
    using ok sig attrs
    by (simp add: check_signer_def signer_info_content_def DER_SEQUENCE_def der_octet_string_def
        fields_take_wrap len alg take signer_attributes_def der_sequence_eq [of "[issuer_raw cid, serial_raw cid]"])
qed

section \<open>Properties\<close>

lemma signer_info_size:
  assumes "x509_cert_id cert = Inr cid"
  shows "length (der_wrap 0x30 (signer_info_content attrs cid signature)) \<le>
    length cert + length attrs + length signature + 100"
  using x509_cert_id_InrD(5) [OF assms]
    der_wrap_length_bounds(2) [of "0x30" "issuer_raw cid @ serial_raw cid"]
    der_wrap_length_bounds(2) [of "0xa0" attrs] der_wrap_length_bounds(2) [of "0x04" signature]
    der_wrap_length_bounds(2) [of "0x30" "signer_info_content attrs cid signature"]
  by (simp add: signer_info_content_def cms_fixed_sizes der_octet_string_def
      der_sequence_eq [of "[issuer_raw cid, serial_raw cid]"])

lemma first_cert_size:
  assumes "x509_split_certs data = Inr certs" "certs \<noteq> []"
  shows "length (certs ! 0) \<le> length data"
  using x509_split_certs_InrD(1) [OF assms(1)] assms(2) by (cases certs) simp_all

text \<open>The assembled CMS with its size facts, for the two properties below.\<close>

lemma build_form:
  assumes "cms_build_authenticode sha idc signature certs_der = Inr cms"
    and "\<And>x. length (sha x) = 32"
    and "length idc + length signature + length certs_der < 2 ^ 29"
  obtains certs cid v where "x509_split_certs certs_der = Inr certs" "certs \<noteq> []"
    "x509_cert_id (certs ! 0) = Inr cid"
    "der_read_tlv idc = Inr v"
    "cms = cms_form idc (concat certs) (der_wrap 0x30 (signer_info_content
       (concat (sort (auth_attrs sha (tlv_content v)))) cid signature))"
    "length idc + length (concat certs) + length (der_wrap 0x30 (signer_info_content
       (concat (sort (auth_attrs sha (tlv_content v)))) cid signature)) < 2 ^ 31"
    "length (certs ! 0) + 106 + length signature < 2 ^ 31"
proof -
  from assms(1) obtain certs cid v where c: "x509_split_certs certs_der = Inr certs" "certs \<noteq> []"
    "x509_cert_id (certs ! 0) = Inr cid" "der_read_tlv idc = Inr v"
    "cms = cms_form idc (concat certs) (der_wrap 0x30 (signer_info_content
       (concat (sort (auth_attrs sha (tlv_content v)))) cid signature))"
    unfolding cms_build_authenticode_def by (rule assemble_cms_InrD)
  have "length (concat (sort (auth_attrs sha (tlv_content v)))) = 106"
    using assms(2) by (rule auth_attrs_size)
  with signer_info_size [OF c(3), of "concat (sort (auth_attrs sha (tlv_content v)))" signature]
    first_cert_size [OF c(1,2)] x509_split_certs_InrD(1) [OF c(1)] assms(3)
  show ?thesis by (intro that [OF c]) simp_all
qed

text \<open>
  A small concrete instance: indirect data with a SHA-256 digest, a certificate with an issuer
  and a serial number, and a constant in place of the hash function.
\<close>

definition sample_idc :: bytes where
  "sample_idc = [0x30, 0x33, 0x30, 0x00, 0x30, 0x2f, 0x30, 0x0b, 0x06, 0x09,
     0x60, 0x86, 0x48, 0x01, 0x65, 0x03, 0x04, 0x02, 0x01, 0x04, 0x20] @ replicate 32 7"

definition sample_cert :: bytes where
  "sample_cert = [0x30, 0x0b, 0x30, 0x09, 0x02, 0x01, 0x05, 0x30, 0x00, 0x30, 0x02, 0x31, 0x00]"

definition sample_sha :: "bytes \<Rightarrow> bytes" where
  "sample_sha x = replicate 32 9"

lemma sample_split: "x509_split_certs sample_cert = Inr [sample_cert]"
  by (simp add: x509_split_certs_def try_extract_cms_certs_def split_loop.simps sample_cert_def
      der_read_tlv_def tlv_at_def tlv_view_def)

lemma sample_cert_id:
  "x509_cert_id sample_cert = Inr \<lparr>issuer_raw = [0x30, 0x02, 0x31, 0x00], serial_raw = [0x02, 0x01, 0x05]\<rparr>"
  by (simp add: x509_cert_id_def sample_cert_def der_read_tlv_def tlv_at_def tlv_view_def)

lemma sample_valid: "valid_indirect_data sample_idc"
  by (simp add: valid_indirect_data_def sample_idc_def check_indirect_data_def fields_take_def
      der_read_tlv_def tlv_at_def tlv_view_def require_oid_def oid_values der_wrap_def write_length_def
      DER_SEQUENCE_def)

lemma sample_build: "\<exists>cms. cms_build_authenticode sample_sha sample_idc [1] sample_cert = Inr cms"
proof -
  obtain v where "der_read_tlv sample_idc = Inr v" "tlv_tag v = 0x30" "total_len v = length sample_idc"
    using sample_valid by (auto simp: valid_indirect_data_def split: sum.splits)
  then have "build_auth_attrs sample_sha sample_idc =
      Inr (der_wrap 0x31 (concat (sort (auth_attrs sample_sha (tlv_content v)))))"
    by (simp add: build_auth_attrs_Inr_iff)
  then show ?thesis
    by (simp add: cms_build_authenticode_def assemble_cms_def sample_split sample_cert_id Let_def)
qed

lemma build_has_signer:
  assumes "cms_build_authenticode sha idc signature certs_der = Inr cms"
    and "\<And>x. length (sha x) = 32"
    and "length idc + length signature + length certs_der < 2 ^ 29"
    and "signature \<noteq> []"
    and "\<And>certs cid. x509_split_certs certs_der = Inr certs \<Longrightarrow> x509_cert_id (certs ! 0) = Inr cid \<Longrightarrow>
      usable_cert_id cid"
  shows "cms_has_signer cms = Inr True"
proof (rule build_form [OF assms(1-3)])
  fix certs cid v
  let ?attrs = "concat (sort (auth_attrs sha (tlv_content v)))"
  let ?si = "signer_info_content ?attrs cid signature"
  assume c: "x509_split_certs certs_der = Inr certs" "x509_cert_id (certs ! 0) = Inr cid"
    and cms: "cms = cms_form idc (concat certs) (der_wrap 0x30 ?si)"
    and size: "length idc + length (concat certs) + length (der_wrap 0x30 ?si) < 2 ^ 31"
      "length (certs ! 0) + 106 + length signature < 2 ^ 31"
  have attrs: "length ?attrs = 106" "attrs_loop ?attrs = Inr ()"
    by (rule auth_attrs_size, rule assms(2), rule attrs_loop_forms, rule auth_attrs_forms, rule assms(2))
  have "?attrs \<noteq> []" using attrs(1) by force
  then have "check_signer (wrap_view 0x30 ?si) = Inr ()"
    using c assms(4,5) attrs size(2) by (intro check_signer_form) auto
  moreover have "length ?si < 2 ^ 32"
    using size der_wrap_length_bounds(1) [of ?si "0x30"] by simp
  ultimately have "signers_loop False (der_wrap 0x30 ?si) = Inr True"
    using signers.walk_wrap [where c = ?si and x = "()" and tag = "0x30" and rest = "[]"] by (simp add: DER_SEQUENCE_def signers.walk_empty)
  with size(1) show ?thesis by (simp add: cms has_signer_cms_form)
qed

lemma build_extracts:
  assumes "valid_indirect_data idc"
    and "cms_build_authenticode sha idc signature certs_der = Inr cms"
    and "\<And>x. length (sha x) = 32"
    and "length idc + length signature + length certs_der < 2 ^ 29"
  shows "cms_extract_indirect_data cms = Inr idc"
  using extract_cms_form [OF assms(1)] build_form [OF assms(2-4)] by metis

lemma build_size:
  assumes "cms_build_authenticode sha idc signature certs_der = Inr cms"
    and "\<And>x. length (sha x) = 32"
    and "length idc + length signature + length certs_der < 2 ^ 29"
  shows "length cms \<le> length idc + 2 * length certs_der + length signature + 500"
proof (rule build_form [OF assms])
  fix certs cid v
  let ?attrs = "concat (sort (auth_attrs sha (tlv_content v)))"
  let ?si = "der_wrap 0x30 (signer_info_content ?attrs cid signature)"
  assume c: "x509_split_certs certs_der = Inr certs" "certs \<noteq> []" "x509_cert_id (certs ! 0) = Inr cid"
    and cms: "cms = cms_form idc (concat certs) ?si"
  have "length ?attrs = 106" by (rule auth_attrs_size, rule assms(2))
  with signer_info_size [OF c(3), of ?attrs signature] first_cert_size [OF c(1,2)] x509_split_certs_InrD(1) [OF c(1)]
    signed_data_content_size [of idc "concat certs" ?si]
    der_wrap_length_bounds(2) [of "0x30" "signed_data_content idc (concat certs) ?si"]
    der_wrap_length_bounds(2) [of "0xa0" "der_wrap 0x30 (signed_data_content idc (concat certs) ?si)"]
    der_wrap_length_bounds(2) [of "0x30" "oid_signed_data @ der_wrap 0xa0 (der_wrap 0x30 (signed_data_content idc (concat certs) ?si))"]
  show ?thesis by (simp add: cms cms_form_def cms_fixed_sizes)
qed

lemma sample_cms:
  "\<exists>cms digest. cms_build_authenticode sample_sha sample_idc [1] sample_cert = Inr cms \<and>
     cms_auth_attrs_hash sample_sha sample_idc = Inr digest \<and>
     cms_has_signer cms = Inr True \<and> cms_extract_indirect_data cms = Inr sample_idc \<and> cms \<noteq> [] \<and> length cms \<le> 1000"
proof -
  obtain cms where b: "cms_build_authenticode sample_sha sample_idc [1] sample_cert = Inr cms"
    using sample_build by blast
  have sz: "length sample_idc + length ([1] :: bytes) + length sample_cert < 2 ^ 29"
    "length sample_idc + 2 * length sample_cert + length ([1] :: bytes) + 500 \<le> 1000"
    by (simp_all add: sample_idc_def sample_cert_def)
  have "usable_cert_id \<lparr>issuer_raw = [0x30, 0x02, 0x31, 0x00], serial_raw = [0x02, 0x01, 0x05]\<rparr>"
    by (simp add: usable_cert_id_def der_read_tlv_def tlv_at_def tlv_view_def)
  then have s: "cms_has_signer cms = Inr True"
    by (intro build_has_signer [OF b _ sz(1)]) (auto simp: sample_sha_def sample_split sample_cert_id)
  have e: "cms_extract_indirect_data cms = Inr sample_idc"
    by (rule build_extracts [OF sample_valid b _ sz(1)]) (simp add: sample_sha_def)
  have l: "length cms \<le> 1000"
    using build_size [OF b _ sz(1)] sz(2) by (simp add: sample_sha_def)
  have n: "cms \<noteq> []" using s by (auto simp: cms_has_signer_def signed_data_def der_read_tlv_def tlv_at_def)
  have "\<exists>digest. cms_auth_attrs_hash sample_sha sample_idc = Inr digest"
    using b by (auto simp: cms_build_authenticode_def assemble_cms_def cms_auth_attrs_hash_def result_iff Let_def)
  with b s e l n show ?thesis by blast
qed

text \<open>
  C8: round trip of the indirect data. If the indirect data was extracted from a PKCS\#7 and
  a CMS is assembled around it with any signature and certificate chain, extracting from the
  assembled CMS gives back exactly the same bytes. This is the comparison that
  \<^verbatim>\<open>sign_staged\<close> makes before it replaces the input file.
\<close>

theorem cms_indirect_data_roundtrip:
  assumes "cms_extract_indirect_data pkcs7 = Inr idc"
    and "cms_build_authenticode sha idc signature certs_der = Inr cms"
    and "\<And>x. length (sha x) = 32"
    and "length idc + length signature + length certs_der < 2 ^ 29"
  shows "cms_extract_indirect_data cms = Inr idc"
  by (rule build_extracts [OF extract_valid [OF assms(1)] assms(2-4)])

theorem cms_indirect_data_roundtrip_witness:
  "\<exists>pkcs7 cms. cms_extract_indirect_data pkcs7 = Inr sample_idc \<and>
     cms_build_authenticode sample_sha sample_idc [1] sample_cert = Inr cms \<and>
     cms_extract_indirect_data cms = Inr sample_idc"
proof -
  have a: "cms_extract_indirect_data (cms_form sample_idc [] []) = Inr sample_idc"
    using sample_valid by (rule extract_cms_form) (simp add: sample_idc_def)
  obtain cms where b: "cms_build_authenticode sample_sha sample_idc [1] sample_cert = Inr cms"
    using sample_build by blast
  have "cms_extract_indirect_data cms = Inr sample_idc"
    by (rule cms_indirect_data_roundtrip [OF a b])
      (simp_all add: sample_sha_def sample_idc_def sample_cert_def)
  with a b show ?thesis by blast
qed

text \<open>
  C7: an assembled CMS passes the signer check of \<^verbatim>\<open>cms_has_signer\<close>
  whenever the signature is not empty and the signing certificate has a non-empty issuer with
  the SEQUENCE tag and a non-empty serial number.
\<close>

theorem cms_build_has_signer:
  assumes "cms_build_authenticode sha idc signature certs_der = Inr cms"
    and "\<And>x. length (sha x) = 32"
    and "length idc + length signature + length certs_der < 2 ^ 29"
    and "signature \<noteq> []"
    and "\<And>certs cid. x509_split_certs certs_der = Inr certs \<Longrightarrow> x509_cert_id (certs ! 0) = Inr cid \<Longrightarrow>
      usable_cert_id cid"
  shows "cms_has_signer cms = Inr True"
  by (rule build_has_signer [OF assms])

theorem cms_build_has_signer_witness:
  "\<exists>cms. cms_build_authenticode sample_sha sample_idc [1] sample_cert = Inr cms \<and>
     cms_has_signer cms = Inr True"
proof -
  obtain cms where b: "cms_build_authenticode sample_sha sample_idc [1] sample_cert = Inr cms"
    using sample_build by blast
  have "usable_cert_id \<lparr>issuer_raw = [0x30, 0x02, 0x31, 0x00], serial_raw = [0x02, 0x01, 0x05]\<rparr>"
    by (simp add: usable_cert_id_def der_read_tlv_def tlv_at_def tlv_view_def)
  then have "cms_has_signer cms = Inr True"
    by (intro cms_build_has_signer [OF b])
      (auto simp: sample_sha_def sample_split sample_cert_id, simp add: sample_idc_def sample_cert_def)
  with b show ?thesis by blast
qed

text \<open>
  C9: what the signature covers. The digest that is sent for signing is the hash of the
  authenticated attributes as a SET, and the SignerInfo of the assembled CMS carries exactly
  those attributes under the implicit tag \<^verbatim>\<open>[0]\<close>; one of them is the
  message digest attribute, whose value is the hash of the content octets of the indirect
  data that the CMS encapsulates.
\<close>

theorem cms_signature_covers_content:
  assumes "cms_build_authenticode sha idc signature certs_der = Inr cms"
  shows "\<exists>(v :: TlvView) attrs certs (cid :: CertId). der_read_tlv idc = Inr v \<and>
    cms_auth_attrs_hash sha idc = Inr (sha (der_wrap 0x31 attrs)) \<and>
    (\<exists>pre post. attrs = pre @ der_wrap 0x30 (oid_message_digest @
        der_wrap 0x31 (der_wrap 0x04 (sha (tlv_content v)))) @ post) \<and>
    cms = cms_form idc certs (der_wrap 0x30 (der_wrap 0x02 [1] @
      der_wrap 0x30 (issuer_raw cid @ serial_raw cid) @ sha256_alg_id @ der_wrap 0xa0 attrs @
      der_wrap 0x30 (oid_rsa_encryption @ der_null) @ der_wrap 0x04 signature))"
proof -
  from assms obtain certs cid v where v: "der_read_tlv idc = Inr v" "tlv_tag v = 0x30" "total_len v = length idc"
    and cms: "cms = cms_form idc (concat certs) (der_wrap 0x30 (signer_info_content
       (concat (sort (auth_attrs sha (tlv_content v)))) cid signature))"
    unfolding cms_build_authenticode_def by (rule assemble_cms_InrD)
  let ?as = "sort (auth_attrs sha (tlv_content v))"
  let ?md = "der_wrap 0x30 (oid_message_digest @ der_wrap 0x31 (der_wrap 0x04 (sha (tlv_content v))))"
  have "?md \<in> set ?as"
    by (simp add: auth_attrs_def der_sequence_eq der_octet_string_def)
  then obtain xs ys where "?as = xs @ ?md # ys" by (meson split_list)
  then have "concat ?as = concat xs @ ?md @ concat ys" by simp
  then have "\<exists>pre post. concat ?as = pre @ ?md @ post" by blast
  moreover have "cms_auth_attrs_hash sha idc = Inr (sha (der_wrap 0x31 (concat ?as)))"
    using v by (simp add: cms_auth_attrs_hash_def build_auth_attrs_Inr_iff [THEN iffD2])
  moreover have "cms = cms_form idc (concat certs) (der_wrap 0x30 (der_wrap 0x02 [1] @
      der_wrap 0x30 (issuer_raw cid @ serial_raw cid) @ sha256_alg_id @ der_wrap 0xa0 (concat ?as) @
      der_wrap 0x30 (oid_rsa_encryption @ der_null) @ der_wrap 0x04 signature))"
    using cms by (simp add: signer_info_content_def der_sequence_eq der_octet_string_def)
  ultimately show ?thesis
    using v(1) by blast
qed

theorem cms_signature_covers_content_witness:
  "\<exists>cms v attrs. cms_build_authenticode sample_sha sample_idc [1] sample_cert = Inr cms \<and>
     der_read_tlv sample_idc = Inr v \<and>
     cms_auth_attrs_hash sample_sha sample_idc = Inr (sample_sha (der_wrap 0x31 attrs)) \<and>
     (\<exists>pre post. attrs = pre @ der_wrap 0x30 (oid_message_digest @
        der_wrap 0x31 (der_wrap 0x04 (sample_sha (tlv_content v)))) @ post)"
proof -
  obtain cms where b: "cms_build_authenticode sample_sha sample_idc [1] sample_cert = Inr cms"
    using sample_build by blast
  with cms_signature_covers_content [OF b] show ?thesis by blast
qed

text \<open>
  Round trip of the certificates. Splitting the assembled CMS with
  \<^verbatim>\<open>x509_split_certs\<close> gives the same certificates as splitting the chain it
  was assembled from.
\<close>

theorem cms_certificates_roundtrip:
  assumes "cms_build_authenticode sha idc signature certs_der = Inr cms"
    and "\<And>x. length (sha x) = 32"
    and "length idc + length signature + length certs_der < 2 ^ 29"
  shows "x509_split_certs cms = x509_split_certs certs_der"
proof (rule build_form [OF assms])
  fix certs cid v
  let ?si = "der_wrap 0x30 (signer_info_content (concat (sort (auth_attrs sha (tlv_content v)))) cid signature)"
  assume c: "x509_split_certs certs_der = Inr certs"
    and cms: "cms = cms_form idc (concat certs) ?si"
    and size: "length idc + length (concat certs) + length ?si < 2 ^ 31"
  have "split_loop (concat certs) = Inr certs"
    using x509_split_certs_InrD(2) [OF c] by (rule split_loop_concat)
  with try_extract_cms_form [OF size] have "x509_split_certs cms = Inr certs"
    unfolding cms x509_split_certs_def by simp
  then show ?thesis by (simp add: c)
qed

theorem cms_certificates_roundtrip_witness:
  "\<exists>cms. cms_build_authenticode sample_sha sample_idc [1] sample_cert = Inr cms \<and>
     x509_split_certs cms = Inr [sample_cert]"
proof -
  obtain cms where b: "cms_build_authenticode sample_sha sample_idc [1] sample_cert = Inr cms"
    using sample_build by blast
  have "x509_split_certs cms = x509_split_certs sample_cert"
    by (rule cms_certificates_roundtrip [OF b])
      (simp_all add: sample_sha_def sample_idc_def sample_cert_def)
  with b show ?thesis by (simp add: sample_split)
qed

end
