(* ===== verification/Base64.thy ===== *)
theory Base64
  imports Prelude Cxx_Strings
begin

text \<open>
  The two base64 codecs of \<^verbatim>\<open>src/src/base64.cpp\<close>. An encoder consumes the data in
  groups of three bytes that it packs in a 32-bit number; a decoder shifts six bits per
  character into a 32-bit accumulator, which wraps, and emits a byte whenever eight bits are
  pending. Characters outside the alphabet are skipped.

  The locale \<open>base64_alphabet\<close> states what the codecs need of a table and its inverse; it is
  interpreted on both alphabets. The locale \<open>codec\<close> is the contract the rest of the program
  relies on: decoding undoes encoding.
\<close>

section \<open>The encoders\<close>

definition base64_table :: string where
  "base64_table = ''ABCDEFGHIJKLMNOPQRSTUVWXYZabcdefghijklmnopqrstuvwxyz0123456789+/''"

definition url_table :: string where
  "url_table = ''ABCDEFGHIJKLMNOPQRSTUVWXYZabcdefghijklmnopqrstuvwxyz0123456789-_''"

text \<open>The number \<open>n\<close> that one iteration packs, and the table index of one of its sextets\<close>

definition pack_group :: "byte \<Rightarrow> bytes \<Rightarrow> 32 word" where
  "pack_group d rest =
     (let n = push_bit 16 (ucast d);
          n = (if 0 < length rest then n OR push_bit 8 (ucast (rest ! 0)) else n);
          n = (if 1 < length rest then n OR ucast (rest ! 1) else n)
      in n)"

definition sextet :: "32 word \<Rightarrow> nat \<Rightarrow> nat" where
  "sextet n k = unat (drop_bit k n AND 0x3f)"

fun base64_encode :: "bytes \<Rightarrow> string" where
  "base64_encode [] = []"
| "base64_encode (d # rest) =
     (let n = pack_group d rest in
      [base64_table ! sextet n 18, base64_table ! sextet n 12,
       if 0 < length rest then base64_table ! sextet n 6 else CHR ''='',
       if 1 < length rest then base64_table ! sextet n 0 else CHR ''='']
      @ base64_encode (drop 2 rest))"

fun base64url_encode :: "bytes \<Rightarrow> string" where
  "base64url_encode [] = []"
| "base64url_encode (d # rest) =
     (let n = pack_group d rest in
      [url_table ! sextet n 18, url_table ! sextet n 12]
      @ (if 0 < length rest then [url_table ! sextet n 6] else [])
      @ (if 1 < length rest then [url_table ! sextet n 0] else [])
      @ base64url_encode (drop 2 rest))"

section \<open>The decoders\<close>

definition char_minus :: "char \<Rightarrow> char \<Rightarrow> int" where
  "char_minus c d = int (of_char c) - int (of_char d)"

definition decode_char :: "char \<Rightarrow> int" where
  "decode_char c =
     (if in_range (CHR ''A'') (CHR ''Z'') c then char_minus c (CHR ''A'')
      else if in_range (CHR ''a'') (CHR ''z'') c then char_minus c (CHR ''a'') + 26
      else if in_range (CHR ''0'') (CHR ''9'') c then char_minus c (CHR ''0'') + 52
      else if c = CHR ''+'' then 62
      else if c = CHR ''/'' then 63
      else - 1)"

definition decode_url_char :: "char \<Rightarrow> int" where
  "decode_url_char c =
     (if in_range (CHR ''A'') (CHR ''Z'') c then char_minus c (CHR ''A'')
      else if in_range (CHR ''a'') (CHR ''z'') c then char_minus c (CHR ''a'') + 26
      else if in_range (CHR ''0'') (CHR ''9'') c then char_minus c (CHR ''0'') + 52
      else if c = CHR ''-'' then 62
      else if c = CHR ''_'' then 63
      else - 1)"

text \<open>One iteration of the decoding loop on the state (accumulator, pending bits, output)\<close>

type_synonym decoder = "32 word \<times> nat \<times> bytes"

definition decode_step :: "(char \<Rightarrow> int) \<Rightarrow> decoder \<Rightarrow> char \<Rightarrow> decoder" where
  "decode_step dec st c =
     (case st of (accum, bits, out) \<Rightarrow>
        let v = dec c in
        if v < 0 then (accum, bits, out)
        else
          let accum = push_bit 6 accum OR of_int v;
              bits = bits + 6
          in if 8 \<le> bits
             then (accum, bits - 8, out @ [ucast (drop_bit (bits - 8) accum AND 0xff)])
             else (accum, bits, out))"

definition decode_output :: "decoder \<Rightarrow> bytes" where
  "decode_output st = snd (snd st)"

definition base64_decode :: "string \<Rightarrow> bytes" where
  "base64_decode s = decode_output (foldl (decode_step decode_char) (0, 0, []) s)"

definition base64_mime_decode :: "string \<Rightarrow> bytes" where
  "base64_mime_decode s = base64_decode s"

definition base64url_decode :: "string \<Rightarrow> bytes" where
  "base64url_decode s = decode_output (foldl (decode_step decode_url_char) (0, 0, []) s)"

section \<open>Sextets\<close>

lemma and_3f: "(w :: 'a::len word) AND 0x3f = take_bit 6 w"
  by (simp add: take_bit_eq_mask mask_eq_exp_minus_1)

lemma and_ff: "(w :: 'a::len word) AND 0xff = take_bit 8 w"
  by (simp add: take_bit_eq_mask mask_eq_exp_minus_1)

lemma sextet_less [simp]: "sextet n k < 64"
  by (simp add: sextet_def and_3f unat_take_bit)

lemma of_nat_sextet: "of_nat (sextet n k) = take_bit 6 (drop_bit k n)"
  by (simp add: sextet_def and_3f)

text \<open>
  The bits of a packed group, and what the decoder emits after the sextets of a group: from
  no pending bits, the second, third and fourth sextet each complete one byte, whatever the
  accumulator held before.
\<close>

lemma bit_pack_group:
  "bit (pack_group d rest) i \<longleftrightarrow> i < 32 \<and>
     ((16 \<le> i \<and> bit d (i - 16)) \<or> (0 < length rest \<and> 8 \<le> i \<and> bit (rest ! 0) (i - 8)) \<or>
      (1 < length rest \<and> bit (rest ! 1) i))"
  by (auto simp: pack_group_def Let_def bit_simps)

lemma byte_bit_beyond: "8 \<le> n \<Longrightarrow> \<not> bit (w :: byte) n"
  by (simp add: impossible_bit)

lemma less_8_cases: "i < 8 \<Longrightarrow> i \<in> {0, 1, 2, 3, 4, 5, 6, 7 :: nat}"
  by auto

lemmas group_bits = and_ff of_nat_sextet bit_simps bit_pack_group byte_bit_beyond

definition shift_in :: "32 word \<Rightarrow> nat \<Rightarrow> 32 word" where
  "shift_in a k = push_bit 6 a OR of_nat k"

lemma emit_first:
  "ucast (drop_bit 4 (shift_in (shift_in a (sextet (pack_group d rest) 18))
     (sextet (pack_group d rest) 12)) AND 0xff) = d"
  (is "?w = d")
proof (rule bit_word_eqI)
  fix i assume "i < LENGTH(8)"
  then have "i \<in> {0, 1, 2, 3, 4, 5, 6, 7}" using less_8_cases by simp
  then show "bit ?w i = bit d i"
    by (elim insertE emptyE; simp add: group_bits shift_in_def)
qed

lemma emit_second:
  assumes "0 < length rest"
  shows "ucast (drop_bit 2 (shift_in (shift_in a (sextet (pack_group d rest) 12))
     (sextet (pack_group d rest) 6)) AND 0xff) = rest ! 0"
  (is "?w = _")
proof (rule bit_word_eqI)
  fix i assume "i < LENGTH(8)"
  then have "i \<in> {0, 1, 2, 3, 4, 5, 6, 7}" using less_8_cases by simp
  then show "bit ?w i = bit (rest ! 0) i"
    using assms by (elim insertE emptyE; simp add: group_bits shift_in_def)
qed

lemma emit_third:
  assumes "1 < length rest"
  shows "ucast (shift_in (shift_in a (sextet (pack_group d rest) 6))
     (sextet (pack_group d rest) 0) AND 0xff) = rest ! 1"
  (is "?w = _")
proof (rule bit_word_eqI)
  fix i assume "i < LENGTH(8)"
  then have "i \<in> {0, 1, 2, 3, 4, 5, 6, 7}" using less_8_cases by simp
  then show "bit ?w i = bit (rest ! 1) i"
    using assms by (elim insertE emptyE; simp add: group_bits shift_in_def)
qed

section \<open>The contract of a base64 codec\<close>

text \<open>What the program relies on: decoding an encoded byte string gives it back.\<close>

locale codec =
  fixes enc :: "bytes \<Rightarrow> string" and dec :: "string \<Rightarrow> bytes"
  assumes dec_enc: "dec (enc x) = x"
begin

lemma enc_eq_iff: "enc x = enc y \<longleftrightarrow> x = y"
  by (metis dec_enc)

lemma dec_surj: "\<exists>s. dec s = x"
  using dec_enc by blast

end

text \<open>A decoding table that inverts an encoding table on the 64 sextets\<close>

locale base64_alphabet =
  fixes tbl :: string and dec :: "char \<Rightarrow> int"
  assumes dec_tbl: "k < 64 \<Longrightarrow> dec (tbl ! k) = int k"
begin

lemma step_skip: "dec c < 0 \<Longrightarrow> decode_step dec st c = st"
  by (cases st) (simp add: decode_step_def)

lemma skip_all: "\<forall>c \<in> set s. dec c < 0 \<Longrightarrow> foldl (decode_step dec) st s = st"
  by (induction s) (simp_all add: step_skip)

lemma step_tbl:
  assumes "k < 64"
  shows "decode_step dec (a, b, out) (tbl ! k) =
    (if 2 \<le> b then (shift_in a k, b - 2, out @ [ucast (drop_bit (b - 2) (shift_in a k) AND 0xff)])
     else (shift_in a k, b + 6, out))"
  using assms by (simp add: decode_step_def dec_tbl Let_def shift_in_def)

lemma group_one:
  "foldl (decode_step dec) (a, 0, out)
     [tbl ! sextet (pack_group d rest) 18, tbl ! sextet (pack_group d rest) 12]
   = (shift_in (shift_in a (sextet (pack_group d rest) 18)) (sextet (pack_group d rest) 12), 4, out @ [d])"
  by (simp add: step_tbl emit_first)

lemma group_two:
  assumes "0 < length rest"
  shows "foldl (decode_step dec) (a, 0, out)
     [tbl ! sextet (pack_group d rest) 18, tbl ! sextet (pack_group d rest) 12,
      tbl ! sextet (pack_group d rest) 6]
   = (shift_in (shift_in (shift_in a (sextet (pack_group d rest) 18)) (sextet (pack_group d rest) 12))
        (sextet (pack_group d rest) 6), 2, out @ [d, rest ! 0])"
  using assms by (simp add: step_tbl emit_first emit_second)

lemma group_three:
  assumes "1 < length rest"
  shows "\<exists>a'. foldl (decode_step dec) (a, 0, out)
     [tbl ! sextet (pack_group d rest) 18, tbl ! sextet (pack_group d rest) 12,
      tbl ! sextet (pack_group d rest) 6, tbl ! sextet (pack_group d rest) 0]
   = (a', 0, out @ [d, rest ! 0, rest ! 1])"
proof -
  have "0 < length rest" using assms by linarith
  from emit_second [OF this] emit_third [OF assms] show ?thesis
    by (simp add: step_tbl emit_first)
qed

lemma decode_filter:
  "foldl (decode_step dec) st s = foldl (decode_step dec) st (filter (\<lambda>c. 0 \<le> dec c) s)"
  by (induction s arbitrary: st) (auto simp: step_skip)

lemma decode_length:
  assumes "b < 8" "\<And>c. dec c < 64"
  shows "case foldl (decode_step dec) (a, b, out) s of (a', b', out') \<Rightarrow>
    b' < 8 \<and> 8 * length out' + b' = 8 * length out + b + 6 * length (filter (\<lambda>c. 0 \<le> dec c) s)"
  using assms(1)
proof (induction s arbitrary: a b out)
  case (Cons c s)
  obtain a' b' out' where st: "decode_step dec (a, b, out) c = (a', b', out')"
    by (metis prod_cases3)
  with Cons.prems have "b' < 8" and "8 * length out' + b' = 8 * length out + b + (if 0 \<le> dec c then 6 else 0)"
    by (auto simp: decode_step_def Let_def split: if_splits)
  with Cons.IH [of b' out' a'] st show ?case by (auto split: prod.splits)
qed simp

end

text \<open>
  An encoder over that alphabet: one group of three bytes at a time, the sextets of the bytes
  that are there, then characters the decoder skips.
\<close>

locale base64_encoder = base64_alphabet +
  fixes enc :: "bytes \<Rightarrow> string"
  assumes enc_Nil: "enc [] = []"
    and enc_group: "\<exists>pad. (\<forall>c \<in> set pad. dec c < 0) \<and>
      enc (d # rest) = [tbl ! sextet (pack_group d rest) 18, tbl ! sextet (pack_group d rest) 12]
        @ (if 0 < length rest then [tbl ! sextet (pack_group d rest) 6] else [])
        @ (if 1 < length rest then [tbl ! sextet (pack_group d rest) 0] else [])
        @ pad @ enc (drop 2 rest)"
begin

lemma decode_encode:
  "\<exists>a' b'. foldl (decode_step dec) (a, 0, out) (enc x) = (a', b', out @ x)"
proof (induction x arbitrary: a out rule: length_induct)
  case (1 x)
  show ?case
  proof (cases x)
    case Nil
    then show ?thesis by (simp add: enc_Nil)
  next
    case (Cons d rest)
    obtain pad where pad: "\<forall>c \<in> set pad. dec c < 0" and e: "enc (d # rest) =
        [tbl ! sextet (pack_group d rest) 18, tbl ! sextet (pack_group d rest) 12]
        @ (if 0 < length rest then [tbl ! sextet (pack_group d rest) 6] else [])
        @ (if 1 < length rest then [tbl ! sextet (pack_group d rest) 0] else [])
        @ pad @ enc (drop 2 rest)"
      using enc_group by blast
    consider "rest = []" | r0 where "rest = [r0]" | r0 r1 r where "rest = r0 # r1 # r"
      by (cases rest; cases "tl rest") auto
    then show ?thesis
    proof cases
      case 1
      then show ?thesis
        using e group_one [of a out d rest] pad Cons by (auto simp: skip_all enc_Nil)
    next
      case 2
      then show ?thesis
        using e group_two [of rest a out d] pad Cons by (auto simp: skip_all enc_Nil)
    next
      case 3
      then obtain a' where g: "foldl (decode_step dec) (a, 0, out)
         [tbl ! sextet (pack_group d rest) 18, tbl ! sextet (pack_group d rest) 12,
          tbl ! sextet (pack_group d rest) 6, tbl ! sextet (pack_group d rest) 0]
         = (a', 0, out @ [d, r0, r1])"
        using group_three [of rest a out d] by auto
      from e 3 have "enc x = [tbl ! sextet (pack_group d rest) 18, tbl ! sextet (pack_group d rest) 12,
          tbl ! sextet (pack_group d rest) 6, tbl ! sextet (pack_group d rest) 0] @ pad @ enc r"
        using Cons by simp
      then have "foldl (decode_step dec) (a, 0, out) (enc x)
          = foldl (decode_step dec) (a', 0, out @ [d, r0, r1]) (enc r)"
        by (simp only: foldl_append g skip_all [OF pad])
      moreover have "length r < length x" using Cons 3 by simp
      ultimately obtain a'' b'' where
          "foldl (decode_step dec) (a, 0, out) (enc x) = (a'', b'', (out @ [d, r0, r1]) @ r)"
        using "1.IH" by metis
      then show ?thesis using Cons 3 by simp
    qed
  qed
qed

end

sublocale base64_encoder \<subseteq> codec enc "\<lambda>s. decode_output (foldl (decode_step dec) (0, 0, []) s)"
proof
  show "decode_output (foldl (decode_step dec) (0, 0, []) (enc x)) = x" for x
    using decode_encode [of 0 "[]" x] by (auto simp: decode_output_def)
qed

section \<open>Both alphabets\<close>

lemma less_64_cases: "(k :: nat) < 64 \<Longrightarrow> k \<in> set [0..<64]"
  by simp

lemma decode_char_table: "map decode_char base64_table = map int [0..<64]"
  by (simp add: base64_table_def decode_char_def in_range_def char_minus_def upt_rec)

lemma decode_url_char_table: "map decode_url_char url_table = map int [0..<64]"
  by (simp add: url_table_def decode_url_char_def in_range_def char_minus_def upt_rec)

lemma table_lengths [simp]: "length base64_table = 64" "length url_table = 64"
  by (simp_all add: base64_table_def url_table_def)

lemma map_table_nth:
  assumes "map f xs = map int [0..<64]" "length xs = 64" "k < 64"
  shows "f (xs ! k) = int k"
  using arg_cong [OF assms(1), of "\<lambda>l. l ! k"] assms(2,3) by simp

interpretation std: base64_encoder base64_table decode_char base64_encode
proof
  show "k < 64 \<Longrightarrow> decode_char (base64_table ! k) = int k" for k
    using decode_char_table by (rule map_table_nth) simp_all
  show "base64_encode [] = []" by simp
  fix d :: byte and rest :: bytes
  have "\<forall>c \<in> set (replicate (2 - length rest) (CHR ''='')). decode_char c < 0"
    by (simp add: decode_char_def in_range_def)
  then show "\<exists>pad. (\<forall>c \<in> set pad. decode_char c < 0) \<and> base64_encode (d # rest) =
      [base64_table ! sextet (pack_group d rest) 18, base64_table ! sextet (pack_group d rest) 12]
        @ (if 0 < length rest then [base64_table ! sextet (pack_group d rest) 6] else [])
        @ (if 1 < length rest then [base64_table ! sextet (pack_group d rest) 0] else [])
        @ pad @ base64_encode (drop 2 rest)"
    by (rule_tac exI [of _ "replicate (2 - length rest) (CHR ''='')"])
      (cases rest; cases "tl rest"; simp add: Let_def numeral_2_eq_2)
qed

interpretation url: base64_encoder url_table decode_url_char base64url_encode
proof
  show "k < 64 \<Longrightarrow> decode_url_char (url_table ! k) = int k" for k
    using decode_url_char_table by (rule map_table_nth) simp_all
  show "base64url_encode [] = []" by simp
  fix d :: byte and rest :: bytes
  show "\<exists>pad. (\<forall>c \<in> set pad. decode_url_char c < 0) \<and> base64url_encode (d # rest) =
      [url_table ! sextet (pack_group d rest) 18, url_table ! sextet (pack_group d rest) 12]
        @ (if 0 < length rest then [url_table ! sextet (pack_group d rest) 6] else [])
        @ (if 1 < length rest then [url_table ! sextet (pack_group d rest) 0] else [])
        @ pad @ base64url_encode (drop 2 rest)"
    by (rule exI [of _ "[]"]) (simp add: Let_def)
qed

section \<open>Properties\<close>

lemma decode_chars_bound: "decode_char c < 64" "decode_url_char c < 64"
  by (auto simp: decode_char_def decode_url_char_def in_range_def char_minus_def)

lemma decode_char_nonneg_iff: "\<forall>c. 0 \<le> decode_char c \<longleftrightarrow> c \<in> set base64_table"
  by code_simp

lemma url_table_unreserved: "list_all (\<lambda>c. isalnum c \<or> c = CHR ''-'' \<or> c = CHR ''_'') url_table"
  by code_simp

lemma base64url_encode_chars:
  assumes "\<And>n k. url_table ! sextet n k \<in> A"
  shows "set (base64url_encode x) \<subseteq> A"
proof (induction x rule: base64url_encode.induct)
  case (2 d rest)
  then show ?case using assms by (auto simp: Let_def)
qed simp

text \<open>
  C18: \<^verbatim>\<open>base64_decode\<close> undoes \<^verbatim>\<open>base64_encode\<close> on every byte
  string, padding and the wrapping 32-bit accumulator included; so does
  \<^verbatim>\<open>base64_mime_decode\<close>.
\<close>

theorem base64_roundtrip: "base64_decode (base64_encode x) = x \<and> base64_mime_decode (base64_encode x) = x"
  using std.dec_enc by (simp add: base64_decode_def base64_mime_decode_def)

text \<open>
  The URL-safe codec, with which PKCE and the JWT reader work: decoding undoes encoding,
  different data have different encodings, and every character of an encoding is unreserved
  in a URL (no padding character among them).
\<close>

theorem base64url_roundtrip:
  "base64url_decode (base64url_encode x) = x \<and>
   (base64url_encode x = base64url_encode y \<longleftrightarrow> x = y) \<and>
   set (base64url_encode x) \<subseteq> {c. isalnum c \<or> c = CHR ''-'' \<or> c = CHR ''_''}"
proof (intro conjI)
  show "base64url_decode (base64url_encode x) = x"
    using url.dec_enc by (simp add: base64url_decode_def)
  show "base64url_encode x = base64url_encode y \<longleftrightarrow> x = y"
    by (rule url.enc_eq_iff)
  have "url_table ! sextet n k \<in> {c. isalnum c \<or> c = CHR ''-'' \<or> c = CHR ''_''}" for n k
    using url_table_unreserved unfolding list_all_length mem_Collect_eq by (simp only: table_lengths sextet_less)
  then show "set (base64url_encode x) \<subseteq> {c. isalnum c \<or> c = CHR ''-'' \<or> c = CHR ''_''}"
    by (rule base64url_encode_chars)
qed

text \<open>
  \<^verbatim>\<open>base64_mime_decode\<close> reads exactly the characters of the alphabet: any
  other character (line breaks, padding, blanks) may be inserted anywhere without changing the
  result, and the number of bytes is six bits per alphabet character, rounded down.
\<close>

theorem base64_mime_skips:
  "base64_mime_decode s = base64_mime_decode (filter (\<lambda>c. c \<in> set base64_table) s) \<and>
   length (base64_mime_decode s) = 6 * length (filter (\<lambda>c. c \<in> set base64_table) s) div 8"
proof -
  have eq: "filter (\<lambda>c. c \<in> set base64_table) s = filter (\<lambda>c. 0 \<le> decode_char c) s"
    using decode_char_nonneg_iff by simp
  have "base64_mime_decode s = base64_mime_decode (filter (\<lambda>c. 0 \<le> decode_char c) s)"
    unfolding base64_mime_decode_def base64_decode_def by (subst std.decode_filter) (rule refl)
  moreover have "length (base64_mime_decode s) = 6 * length (filter (\<lambda>c. 0 \<le> decode_char c) s) div 8"
    using std.decode_length [of 0 "[]" s 0] decode_chars_bound
    by (auto simp: base64_mime_decode_def base64_decode_def decode_output_def split: prod.splits)
  ultimately show ?thesis using eq by simp
qed

end
