(* ===== verification/Urlenc.thy ===== *)
theory Urlenc
  imports Prelude Cxx_Strings
begin

text \<open>
  Percent-encoding of \<^verbatim>\<open>src/src/urlenc.cpp\<close> and the query and form helpers of
  \<^verbatim>\<open>src/src/auth_laptop.cpp\<close>: the form bodies sent to the identity provider and
  the query string of the redirect it sends back. A \<^verbatim>\<open>std::map\<close> is a HOL map.
\<close>

section \<open>Encoding\<close>

definition hex_upper :: string where
  "hex_upper = ''0123456789ABCDEF''"

definition hex_lower :: string where
  "hex_lower = ''0123456789abcdef''"

definition high_nibble :: "byte \<Rightarrow> nat" where
  "high_nibble c = unat (drop_bit 4 c AND 0xF)"

definition low_nibble :: "byte \<Rightarrow> nat" where
  "low_nibble c = unat (c AND 0xF)"

definition unreserved :: "char \<Rightarrow> bool" where
  "unreserved c \<longleftrightarrow> isalnum c \<or> c = CHR ''-'' \<or> c = CHR ''_'' \<or> c = CHR ''.'' \<or> c = CHR ''~''"

definition url_encode_char :: "char \<Rightarrow> string" where
  "url_encode_char ch =
     (let c = byte_of_char ch in
      if unreserved ch then [ch]
      else [CHR ''%'', hex_upper ! high_nibble c, hex_upper ! low_nibble c])"

definition url_encode :: "string \<Rightarrow> string" where
  "url_encode s = concat (map url_encode_char s)"

definition hex_encode :: "bytes \<Rightarrow> string" where
  "hex_encode bs = concat (map (\<lambda>b. [hex_lower ! high_nibble b, hex_lower ! low_nibble b]) bs)"

definition form_encode :: "(string \<times> string) list \<Rightarrow> string" where
  "form_encode pairs =
     foldl (\<lambda>out (k, v). (if out \<noteq> [] then out @ ''&'' else out) @ k @ ''='' @ url_encode v) [] pairs"

section \<open>Parsing a query string\<close>

definition hex_value :: "char \<Rightarrow> nat" where
  "hex_value c =
     (if in_range (CHR ''0'') (CHR ''9'') c then of_char c - of_char (CHR ''0'')
      else if in_range (CHR ''a'') (CHR ''f'') c then of_char c - of_char (CHR ''a'') + 10
      else if in_range (CHR ''A'') (CHR ''F'') c then of_char c - of_char (CHR ''A'') + 10
      else 0)"

fun decode_value :: "string \<Rightarrow> string" where
  "decode_value [] = []"
| "decode_value (c # cs) =
     (if c = CHR ''+'' then CHR '' '' # decode_value cs
      else if c = CHR ''%'' \<and> 2 \<le> length cs
      then char_of (push_bit 4 (hex_value (cs ! 0)) OR hex_value (cs ! 1)) # decode_value (drop 2 cs)
      else c # decode_value cs)"

text \<open>The loop of \<^verbatim>\<open>parse_query\<close> on the rest of the query from position \<open>p\<close>\<close>

function query_loop :: "string \<Rightarrow> (string \<rightharpoonup> string) \<Rightarrow> (string \<rightharpoonup> string)" where
  "query_loop qs q =
     (if qs = [] then q
      else
        let amp = (case index_of (CHR ''&'') qs of None \<Rightarrow> length qs | Some i \<Rightarrow> i);
            pair = substr qs 0 amp;
            eq = find_char pair (CHR ''='') 0;
            k = (case eq of None \<Rightarrow> pair | Some e \<Rightarrow> substr pair 0 e);
            v = (case eq of None \<Rightarrow> [] | Some e \<Rightarrow> substr_from pair (e + 1))
        in query_loop (drop (amp + 1) qs) (q(k \<mapsto> decode_value v)))"
  by pat_completeness auto
termination by (relation "measure (length \<circ> fst)") auto

declare query_loop.simps [simp del]

definition parse_query :: "string \<Rightarrow> (string \<rightharpoonup> string)" where
  "parse_query target =
     (case find_char target (CHR ''?'') 0 of
        None \<Rightarrow> Map.empty
      | Some qpos \<Rightarrow> query_loop (substr_from target (qpos + 1)) Map.empty)"

section \<open>Lemmas\<close>

lemma nibbles:
  "high_nibble b < 16" "low_nibble b < 16" "push_bit 4 (high_nibble b) OR low_nibble b = unat b"
proof -
  have "w AND 0xF = take_bit 4 w" for w :: byte
    by (simp add: take_bit_eq_mask mask_eq_exp_minus_1)
  then have h: "high_nibble b = unat b div 16 mod 16" and l: "low_nibble b = unat b mod 16"
    by (simp_all add: high_nibble_def low_nibble_def unat_drop_bit unat_take_bit)
  show "high_nibble b < 16" "low_nibble b < 16" unfolding h l by simp_all
  show "push_bit 4 (high_nibble b) OR low_nibble b = unat b"
    unfolding h l using unat_byte_less [of b] by (subst push_bit_or_nat) (simp_all add: less_mult_imp_div_less)
qed

lemma hex_digits: "k < 16 \<Longrightarrow> hex_value (hex_upper ! k) = k \<and> hex_value (hex_lower ! k) = k"
proof -
  have "list_all (\<lambda>k. hex_value (hex_upper ! k) = k \<and> hex_value (hex_lower ! k) = k) [0..<16]"
    by code_simp
  then show "k < 16 \<Longrightarrow> ?thesis" by (simp add: list_all_iff)
qed

lemma hex_byte:
  "push_bit 4 (hex_value (hex_upper ! high_nibble b)) OR hex_value (hex_upper ! low_nibble b) = unat b"
  "push_bit 4 (hex_value (hex_lower ! high_nibble b)) OR hex_value (hex_lower ! low_nibble b) = unat b"
  by (simp_all add: hex_digits nibbles)

lemma percent_char:
  "char_of (push_bit 4 (hex_value (hex_upper ! high_nibble (byte_of_char ch)))
      OR hex_value (hex_upper ! low_nibble (byte_of_char ch))) = ch"
  unfolding hex_byte by (metis byte_of_char_inverse char_of_byte_def)

lemma unreserved_literal: "unreserved ch \<Longrightarrow> ch \<noteq> CHR ''%'' \<and> ch \<noteq> CHR ''+''"
  by (auto simp: unreserved_def isalnum_def isdigit_def in_range_def)

lemma decode_value_url_encode [simp]: "decode_value (url_encode s @ t) = s @ decode_value t"
proof (induction s)
  case (Cons ch s)
  have "decode_value (url_encode_char ch @ r) = ch # decode_value r" for r
    using percent_char unreserved_literal [of ch] by (simp add: url_encode_char_def Let_def)
  with Cons show ?case by (simp add: url_encode_def)
qed (simp add: url_encode_def)

lemma hex_unreserved: "k < 16 \<Longrightarrow> unreserved (hex_upper ! k)"
proof -
  have "list_all (\<lambda>k. unreserved (hex_upper ! k)) [0..<16]" by code_simp
  then show "k < 16 \<Longrightarrow> ?thesis" by (simp add: list_all_iff)
qed

lemma url_encode_set: "c \<in> set (url_encode s) \<Longrightarrow> unreserved c \<or> c = CHR ''%''"
  by (auto simp: url_encode_def url_encode_char_def Let_def hex_unreserved nibbles split: if_splits)

lemma not_in_url_encode [simp]: "CHR ''&'' \<notin> set (url_encode s)"
  using url_encode_set [of "CHR ''&''" s]
  by (auto simp: unreserved_def isalnum_def isdigit_def in_range_def)

lemma form_encode_snoc:
  "form_encode (ps @ [(k, v)]) =
    (if ps = [] then [] else form_encode ps @ ''&'') @ k @ ''='' @ url_encode v"
proof -
  have "ps \<noteq> [] \<Longrightarrow> form_encode ps \<noteq> []"
    by (cases ps rule: rev_cases) (auto simp: form_encode_def)
  moreover have "form_encode [] = []" by (simp add: form_encode_def)
  ultimately show ?thesis by (auto simp: form_encode_def)
qed

lemma form_encode_Cons:
  "form_encode ((k, v) # ps) = k @ ''='' @ url_encode v @ (if ps = [] then [] else ''&'' @ form_encode ps)"
proof (induction ps rule: rev_induct)
  case (snoc p ps)
  obtain k' v' where "p = (k', v')" by (cases p)
  with snoc show ?case
    using form_encode_snoc [of "(k, v) # ps" k' v'] form_encode_snoc [of ps k' v'] by simp
qed (use form_encode_snoc [of "[]" k v] in simp)

definition plain_key :: "string \<Rightarrow> bool" where
  "plain_key k \<longleftrightarrow> CHR ''&'' \<notin> set k \<and> CHR ''='' \<notin> set k"

lemma query_loop_pair:
  assumes "plain_key k"
  shows "query_loop (k @ ''='' @ url_encode v @ (if r = [] then [] else ''&'' @ r)) q
     = query_loop r (q(k \<mapsto> v))"
proof -
  have [simp]: "decode_value (url_encode v) = v"
    using decode_value_url_encode [of v "[]"] by simp
  show ?thesis
    using assms
    by (subst query_loop.simps)
      (auto simp: plain_key_def index_of_append_notin substr_def substr_from_def Let_def
        query_loop.simps [of "[]"])
qed

lemma query_loop_form:
  assumes "\<forall>(k, v) \<in> set ps. plain_key k"
  shows "query_loop (form_encode ps) q = q ++ map_of (rev ps)"
  using assms
proof (induction ps arbitrary: q)
  case Nil
  then show ?case by (simp add: form_encode_def query_loop.simps)
next
  case (Cons p ps)
  obtain k v where p: "p = (k, v)" by (cases p)
  have "form_encode ps = [] \<longleftrightarrow> ps = []"
    by (cases ps) (auto simp: form_encode_Cons simp: form_encode_def [of "[]"])
  with query_loop_pair [of k v "form_encode ps" q] Cons p show ?case
    by (simp add: form_encode_Cons map_add_def fun_eq_iff split: option.splits)
qed

section \<open>Properties\<close>

text \<open>
  Percent-encoding is lossless and safe: the decoder of \<^verbatim>\<open>parse_query\<close> gives back
  the original string, the encoding is injective, and its characters are unreserved characters
  and percent signs only, so that no separator of a form or of a query survives in a value.
\<close>

theorem url_encode_roundtrip:
  "decode_value (url_encode s) = s \<and> (url_encode s = url_encode t \<longleftrightarrow> s = t) \<and>
   set (url_encode s) \<subseteq> insert (CHR ''%'') {c. unreserved c}"
proof -
  have "decode_value (url_encode s) = s" for s
    using decode_value_url_encode [of s "[]"] by simp
  then show ?thesis using url_encode_set by (metis Collect_mem_eq insertCI mem_Collect_eq subsetI)
qed

text \<open>
  C19: \<^verbatim>\<open>parse_query\<close> inverts \<^verbatim>\<open>form_encode\<close>: for a target whose path
  has no question mark and pairs whose keys have neither separator, whatever the values, the
  map holds each key with the value of its last pair.
\<close>

theorem parse_query_form_encode:
  assumes "CHR ''?'' \<notin> set path" "\<forall>(k, v) \<in> set pairs. plain_key k"
  shows "parse_query (path @ ''?'' @ form_encode pairs) = map_of (rev pairs)"
  using assms query_loop_form [OF assms(2)] by (simp add: parse_query_def substr_from_def)

theorem parse_query_form_encode_witness:
  "parse_query (''/cb'' @ ''?'' @ form_encode [(''code'', ''a&b=c%''), (''state'', ''7 +'')]) ''code''
     = Some ''a&b=c%''"
  using parse_query_form_encode [of "''/cb''" "[(''code'', ''a&b=c%''), (''state'', ''7 +'')]"]
  by (simp add: plain_key_def)

text \<open>
  \<^verbatim>\<open>hex_encode\<close>, which prints the random anti-forgery state of a login, writes
  two digits per byte and never maps different values to the same text.
\<close>

theorem hex_encode_injective:
  "(hex_encode xs = hex_encode ys \<longleftrightarrow> xs = ys) \<and> length (hex_encode xs) = 2 * length xs"
proof -
  have "hex_encode xs = hex_encode ys \<Longrightarrow> xs = ys"
  proof (induction xs arbitrary: ys)
    case Nil
    then show ?case by (cases ys) (simp_all add: hex_encode_def)
  next
    case (Cons x xs)
    then obtain y ys' where ys: "ys = y # ys'" by (cases ys) (auto simp: hex_encode_def)
    with Cons.prems have "hex_lower ! high_nibble x = hex_lower ! high_nibble y"
      "hex_lower ! low_nibble x = hex_lower ! low_nibble y" "hex_encode xs = hex_encode ys'"
      by (simp_all add: hex_encode_def)
    then have "x = y"
      using hex_byte(2) [of x] hex_byte(2) [of y] by (simp add: word_unat_eq_iff)
    with \<open>hex_encode xs = hex_encode ys'\<close> Cons.IH ys show ?case by simp
  qed
  moreover have "length (hex_encode xs) = 2 * length xs"
    by (induction xs) (simp_all add: hex_encode_def)
  ultimately show ?thesis by blast
qed

end
