(* ===== verification/Signer.thy ===== *)
theory Signer
  imports Prelude Cxx_Strings
begin

text \<open>
  The signing target of \<^verbatim>\<open>src/src/signer.cpp\<close>: the tuple
  \<^verbatim>\<open>REGION:ACCOUNT:PROFILE\<close> and its expansion to an endpoint host.
\<close>

record SignerTuple =
  endpoint :: string
  account :: string
  profile :: string

definition TRUSTED_SIGNING_DOMAIN :: string where
  "TRUSTED_SIGNING_DOMAIN = ''.codesigning.azure.net''"

definition signer_fail :: "string \<Rightarrow> string \<Rightarrow> SignerTuple result" where
  "signer_fail s why =
     throw (''invalid signer tuple '' @ [CHR 0x22] @ s @ [CHR 0x22] @ '': '' @ why @
       '' (expected REGION:ACCOUNT:PROFILE)'')"

definition expand_region :: "string \<Rightarrow> string" where
  "expand_region region =
     (if find_char region (CHR ''.'') 0 = None then region @ TRUSTED_SIGNING_DOMAIN else region)"

definition parse_signer_tuple :: "string \<Rightarrow> SignerTuple result" where
  "parse_signer_tuple s =
     (case find_char s (CHR '':'') 0 of
        None \<Rightarrow> signer_fail s ''missing ':' separator''
      | Some a \<Rightarrow>
     (case find_char s (CHR '':'') (a + 1) of
        None \<Rightarrow> signer_fail s ''missing second ':' separator''
      | Some b \<Rightarrow>
        if find_char s (CHR '':'') (b + 1) \<noteq> None then signer_fail s ''too many ':' separators''
        else
          let region = substr s 0 a;
              acc = substr s (a + 1) (b - a - 1);
              prof = substr_from s (b + 1)
          in if region = [] then signer_fail s ''empty region''
             else if acc = [] then signer_fail s ''empty account''
             else if prof = [] then signer_fail s ''empty profile''
             else Inr \<lparr>endpoint = expand_region region, account = acc, profile = prof\<rparr>))"

section \<open>Lemmas\<close>

definition tuple_field :: "string \<Rightarrow> bool" where
  "tuple_field f \<longleftrightarrow> f \<noteq> [] \<and> CHR '':'' \<notin> set f"

definition tuple_text :: "string \<Rightarrow> string \<Rightarrow> string \<Rightarrow> string" where
  "tuple_text r a p = r @ '':'' @ a @ '':'' @ p"

lemma parse_tuple_text:
  assumes "CHR '':'' \<notin> set r" "CHR '':'' \<notin> set a"
  shows "parse_signer_tuple (tuple_text r a p) =
    (if CHR '':'' \<in> set p then signer_fail (tuple_text r a p) ''too many ':' separators''
     else if r = [] then signer_fail (tuple_text r a p) ''empty region''
     else if a = [] then signer_fail (tuple_text r a p) ''empty account''
     else if p = [] then signer_fail (tuple_text r a p) ''empty profile''
     else Inr \<lparr>endpoint = expand_region r, account = a, profile = p\<rparr>)"
proof -
  let ?s = "tuple_text r a p"
  have f1: "find_char ?s (CHR '':'') 0 = Some (length r)"
    using assms by (simp add: tuple_text_def)
  have f2: "find_char ?s (CHR '':'') (length r + 1) = Some (length r + 1 + length a)"
    using assms find_char_after [of r "CHR '':''" "a @ '':'' @ p" "CHR '':''"]
    by (simp add: tuple_text_def)
  have f3: "find_char ?s (CHR '':'') (length r + 1 + length a + 1) = None \<longleftrightarrow> CHR '':'' \<notin> set p"
    using find_char_after [of "r @ '':'' @ a" "CHR '':''" p "CHR '':''"]
    by (simp add: tuple_text_def)
  have s: "substr ?s 0 (length r) = r" "substr ?s (length r + 1) (length r + 1 + length a - length r - 1) = a"
    "substr_from ?s (length r + 1 + length a + 1) = p"
    by (simp_all add: substr_def substr_from_def tuple_text_def)
  show ?thesis
    unfolding parse_signer_tuple_def f1 option.case f2 s Let_def using f3 by simp
qed

lemma split_at_char:
  assumes "c \<in> set s"
  obtains xs ys where "s = xs @ c # ys" "c \<notin> set xs"
  using split_list_first [OF assms] by blast

section \<open>Properties\<close>

text \<open>
  \<^verbatim>\<open>parse_signer_tuple\<close> accepts exactly the texts with three non-empty fields
  separated by two colons, and then returns the account and the profile verbatim and the
  region, expanded to a host name when it has no dot. Everything else is an error.
\<close>

theorem parse_signer_tuple_iff:
  "parse_signer_tuple s = Inr t \<longleftrightarrow>
   (\<exists>r a p. s = tuple_text r a p \<and> tuple_field r \<and> tuple_field a \<and> tuple_field p \<and>
      t = \<lparr>endpoint = (if CHR ''.'' \<in> set r then r else r @ ''.codesigning.azure.net''),
           account = a, profile = p\<rparr>)" (is "?parse \<longleftrightarrow> ?form")
proof
  assume ok: ?parse
  then have "CHR '':'' \<in> set s"
    by (cases "CHR '':'' \<in> set s") (simp_all add: parse_signer_tuple_def signer_fail_def iffD2 [OF index_of_None_iff])
  then obtain r rest where s: "s = r @ CHR '':'' # rest" and r: "CHR '':'' \<notin> set r"
    by (rule split_at_char)
  have "CHR '':'' \<in> set rest"
  proof (rule ccontr)
    assume "CHR '':'' \<notin> set rest"
    then have "find_char s (CHR '':'') (length r + 1) = None"
      using find_char_after [of r "CHR '':''" rest "CHR '':''"] s by simp
    with ok r show False by (simp add: parse_signer_tuple_def s signer_fail_def)
  qed
  then obtain a p where rest: "rest = a @ CHR '':'' # p" and a: "CHR '':'' \<notin> set a"
    by (rule split_at_char)
  have st: "s = tuple_text r a p" by (simp add: s rest tuple_text_def)
  with ok parse_tuple_text [OF r a, of p] r a show ?form
    by (auto simp: tuple_field_def signer_fail_def expand_region_def TRUSTED_SIGNING_DOMAIN_def
        split: if_splits)
next
  assume ?form
  then show ?parse
    by (auto simp: tuple_field_def parse_tuple_text expand_region_def TRUSTED_SIGNING_DOMAIN_def)
qed

end
