(* ===== verification/Effects.thy ===== *)
theory Effects
  imports Prelude Cxx_Strings
begin

text \<open>
  Programs with effects. A program reads and changes a world \<open>'w\<close>, returns a value or throws,
  and may fail to return: its outcome is \<open>None\<close> when it runs forever. What lies outside the
  sources (sockets, TLS, clocks, files, processes) acts on the world through functions that are
  parameters of the definitions.
\<close>

type_synonym ('w, 'a) prog = "'w \<Rightarrow> ('a result \<times> 'w) option"

definition retP :: "'a \<Rightarrow> ('w, 'a) prog" where
  "retP x w = Some (Inr x, w)"

definition liftP :: "'a result \<Rightarrow> ('w, 'a) prog" where
  "liftP r w = Some (r, w)"

definition throwP :: "string \<Rightarrow> ('w, 'a) prog" where
  "throwP msg w = Some (throw msg, w)"

definition bindP :: "('w, 'a) prog \<Rightarrow> ('a \<Rightarrow> ('w, 'b) prog) \<Rightarrow> ('w, 'b) prog" where
  "bindP m f w =
     (case m w of
        None \<Rightarrow> None
      | Some (Inl e, w') \<Rightarrow> Some (Inl e, w')
      | Some (Inr x, w') \<Rightarrow> f x w')"

text \<open>\<^verbatim>\<open>try { m } catch (const std::exception &e) { h(e) }\<close>\<close>

definition catchP :: "('w, 'a) prog \<Rightarrow> (exn \<Rightarrow> ('w, 'a) prog) \<Rightarrow> ('w, 'a) prog" where
  "catchP m h w =
     (case m w of
        None \<Rightarrow> None
      | Some (Inl e, w') \<Rightarrow> h e w'
      | Some (Inr x, w') \<Rightarrow> Some (Inr x, w'))"

text \<open>A state change that cannot fail, and a check that throws\<close>

definition doP :: "('w \<Rightarrow> 'w) \<Rightarrow> ('w, unit) prog" where
  "doP f w = Some (Inr (), f w)"

definition checkP :: "bool \<Rightarrow> string \<Rightarrow> ('w, unit) prog" where
  "checkP ok msg w = Some (checkE ok msg, w)"

lemma prog_simps [simp]:
  "retP x w = Some (Inr x, w)"
  "liftP r w = Some (r, w)"
  "throwP msg w = Some (throw msg, w)"
  "doP f w = Some (Inr (), f w)"
  "checkP ok msg w = Some (checkE ok msg, w)"
  by (simp_all add: retP_def liftP_def throwP_def doP_def checkP_def)

lemma bindP_cong [fundef_cong]:
  "m = m' \<Longrightarrow> (\<And>x w w'. m' w = Some (Inr x, w') \<Longrightarrow> f x = g x) \<Longrightarrow> bindP m f = bindP m' g"
  by (rule ext) (auto simp: bindP_def split: option.splits sum.splits)

lemma bindP_apply:
  "m w = None \<Longrightarrow> bindP m f w = None"
  "m w = Some (Inl e, w') \<Longrightarrow> bindP m f w = Some (Inl e, w')"
  "m w = Some (Inr x, w') \<Longrightarrow> bindP m f w = f x w'"
  by (simp_all add: bindP_def)

lemma bindP_simps [simp]:
  "bindP (retP x) f w = f x w"
  "bindP (liftP (Inr x)) f w = f x w"
  "bindP (liftP (Inl e)) f w = Some (Inl e, w)"
  "bindP (throwP msg) f w = Some (throw msg, w)"
  "bindP (doP g) h w = h () (g w)"
  "bindP (checkP True msg) h w = h () w"
  "bindP (checkP False msg) h w = Some (throw msg, w)"
  by (simp_all add: bindP_def)

lemma bindP_Inr_iff [result_iff]:
  "bindP m f w = Some (Inr y, w'') \<longleftrightarrow> (\<exists>x w'. m w = Some (Inr x, w') \<and> f x w' = Some (Inr y, w''))"
  by (auto simp: bindP_def split: option.splits sum.splits)

lemma bindP_Some_iff:
  "bindP m f w = Some (r, w'') \<longleftrightarrow>
    (\<exists>e. m w = Some (Inl e, w'') \<and> r = Inl e) \<or> (\<exists>x w'. m w = Some (Inr x, w') \<and> f x w' = Some (r, w''))"
  by (auto simp: bindP_def split: option.splits sum.splits)

lemma catchP_Inr_iff [result_iff]:
  "catchP m h w = Some (Inr y, w'') \<longleftrightarrow>
    m w = Some (Inr y, w'') \<or> (\<exists>e w'. m w = Some (Inl e, w') \<and> h e w' = Some (Inr y, w''))"
  by (auto simp: catchP_def split: option.splits sum.splits)

lemma prog_Inr_iff [result_iff]:
  "retP x w = Some (Inr y, w') \<longleftrightarrow> x = y \<and> w = w'"
  "liftP r w = Some (Inr y, w') \<longleftrightarrow> r = Inr y \<and> w = w'"
  "checkP ok msg w = Some (Inr u, w') \<longleftrightarrow> ok \<and> w = w'"
  by (auto simp: checkE_def)

section \<open>Total correctness\<close>

text \<open>
  \<open>returnsP m Q w\<close> says that \<open>m\<close> returns from \<open>w\<close>, normally or with an exception, and that the
  outcome and the new world satisfy \<open>Q\<close>. The rules in \<open>wp\<close> compute it along a program.
\<close>

named_theorems wp \<open>total correctness of programs\<close>

definition returnsP :: "('w, 'a) prog \<Rightarrow> ('a result \<Rightarrow> 'w \<Rightarrow> bool) \<Rightarrow> 'w \<Rightarrow> bool" where
  "returnsP m Q w \<longleftrightarrow> (\<exists>r w'. m w = Some (r, w') \<and> Q r w')"

lemma returnsP_bindP [wp]:
  "returnsP (bindP m f) Q w \<longleftrightarrow>
    returnsP m (\<lambda>r w'. case r of Inl e \<Rightarrow> Q (Inl e) w' | Inr x \<Rightarrow> returnsP (f x) Q w') w"
  by (auto simp: returnsP_def bindP_def split: option.splits sum.splits)

lemma returnsP_catchP [wp]:
  "returnsP (catchP m h) Q w \<longleftrightarrow>
    returnsP m (\<lambda>r w'. case r of Inl e \<Rightarrow> returnsP (h e) Q w' | Inr x \<Rightarrow> Q (Inr x) w') w"
  by (auto simp: returnsP_def catchP_def split: option.splits sum.splits)

lemma returnsP_basic [wp]:
  "returnsP (retP x) Q w \<longleftrightarrow> Q (Inr x) w"
  "returnsP (liftP r) Q w \<longleftrightarrow> Q r w"
  "returnsP (throwP msg) Q w \<longleftrightarrow> Q (throw msg) w"
  "returnsP (doP f) R w \<longleftrightarrow> R (Inr ()) (f w)"
  "returnsP (checkP ok msg) R w \<longleftrightarrow> (if ok then R (Inr ()) w else R (throw msg) w)"
  by (auto simp: returnsP_def checkE_def)

lemma returnsP_if [wp]:
  "returnsP (if b then m else n) Q w \<longleftrightarrow> (if b then returnsP m Q w else returnsP n Q w)"
  by simp

lemma returnsP_weaken:
  "returnsP m Q w \<Longrightarrow> (\<And>r w'. Q r w' \<Longrightarrow> R r w') \<Longrightarrow> returnsP m R w"
  by (auto simp: returnsP_def)

lemma returnsP_bindI:
  assumes "returnsP m P w"
    and "\<And>e w'. P (Inl e) w' \<Longrightarrow> Q (Inl e) w'"
    and "\<And>x w'. P (Inr x) w' \<Longrightarrow> returnsP (f x) Q w'"
  shows "returnsP (bindP m f) Q w"
  unfolding returnsP_bindP
  by (rule returnsP_weaken [OF assms(1)]) (use assms(2,3) in \<open>auto split: sum.splits\<close>)

lemma returnsP_bind_eq:
  "m w = Some (Inr x, w') \<Longrightarrow> returnsP (bindP m f) Q w \<longleftrightarrow> returnsP (f x) Q w'"
  by (simp add: returnsP_def bindP_def)

lemma returnsP_ifI:
  "(b \<Longrightarrow> returnsP m Q w) \<Longrightarrow> (\<not> b \<Longrightarrow> returnsP n Q w) \<Longrightarrow> returnsP (if b then m else n) Q w"
  by simp

section \<open>Invariants\<close>

text \<open>\<open>keeps I m\<close> says that \<open>I\<close> holds after \<open>m\<close> if it held before, whether \<open>m\<close> returns or throws\<close>

definition keeps :: "('w \<Rightarrow> bool) \<Rightarrow> ('w, 'a) prog \<Rightarrow> bool" where
  "keeps I m \<longleftrightarrow> (\<forall>w r w'. I w \<longrightarrow> m w = Some (r, w') \<longrightarrow> I w')"

lemma keepsD: "keeps I m \<Longrightarrow> I w \<Longrightarrow> m w = Some (r, w') \<Longrightarrow> I w'"
  by (simp add: keeps_def)

lemma keeps_bind:
  assumes "keeps I m" "\<And>x. keeps I (f x)"
  shows "keeps I (bindP m f)"
  unfolding keeps_def bindP_Some_iff using assms by (blast dest: keepsD)

lemma keeps_bind_result:
  assumes "keeps I m" "\<And>x w w'. m w = Some (Inr x, w') \<Longrightarrow> keeps I (f x)"
  shows "keeps I (bindP m f)"
  unfolding keeps_def bindP_Some_iff using assms by (blast dest: keepsD)

lemma keeps_catch:
  assumes "keeps I m" "\<And>e. keeps I (h e)"
  shows "keeps I (catchP m h)"
  unfolding keeps_def catchP_def using assms by (auto split: option.splits sum.splits dest: keepsD)

lemma keeps_basic:
  "keeps I (retP x)" "keeps I (liftP r)" "keeps I (throwP msg)" "keeps I (checkP ok msg')"
  by (auto simp: keeps_def)

lemma keeps_doP: "(\<And>w. I w \<Longrightarrow> I (f w)) \<Longrightarrow> keeps I (doP f)"
  by (auto simp: keeps_def)

lemma keeps_if: "(b \<Longrightarrow> keeps I m) \<Longrightarrow> (\<not> b \<Longrightarrow> keeps I n) \<Longrightarrow> keeps I (if b then m else n)"
  by simp

lemma keeps_returns: "(\<And>w. I w \<Longrightarrow> returnsP m (\<lambda>r. I) w) \<Longrightarrow> keeps I m"
  by (force simp: keeps_def returnsP_def)

text \<open>The same for a throw only\<close>

definition fails_keeping :: "('w \<Rightarrow> bool) \<Rightarrow> ('w, 'a) prog \<Rightarrow> bool" where
  "fails_keeping I m \<longleftrightarrow> (\<forall>w e w'. I w \<longrightarrow> m w = Some (Inl e, w') \<longrightarrow> I w')"

lemma fails_keepingD: "fails_keeping I m \<Longrightarrow> I w \<Longrightarrow> m w = Some (Inl e, w') \<Longrightarrow> I w'"
  by (simp add: fails_keeping_def)

lemma fails_bind:
  assumes "keeps I m" "\<And>x. fails_keeping I (f x)"
  shows "fails_keeping I (bindP m f)"
  unfolding fails_keeping_def bindP_Some_iff using assms by (blast dest: keepsD fails_keepingD)

lemma fails_bind_check:
  "(ok \<Longrightarrow> fails_keeping I (f ())) \<Longrightarrow> fails_keeping I (bindP (checkP ok msg) f)"
  by (cases ok) (auto simp: fails_keeping_def)

lemma fails_last: "fails_keeping I m \<Longrightarrow> fails_keeping I (bindP m (\<lambda>_. doP f))"
  by (auto simp: fails_keeping_def bindP_Some_iff)

lemmas keeps_rules = keeps_bind keeps_catch keeps_if keeps_basic

end
