(* ===== verification/Http.thy ===== *)
theory Http
  imports Effects
begin

text \<open>
  The HTTP client of \<^verbatim>\<open>src/src/posix.cpp\<close> and the retry loop of
  \<^verbatim>\<open>src/src/platform.hpp\<close>. The TLS library and the sockets are a record of
  functions on the world; the loops over them, the request texts and the response parser are
  translated. Positions in a response are \<^verbatim>\<open>size_t\<close> and wrap at 64 bits in the
  chunk decoder.
\<close>

section \<open>The platform below\<close>

text \<open>
  \<open>ssl_write\<close> and \<open>ssl_read\<close> stand for \<^verbatim>\<open>mbedtls_ssl_write\<close> and
  \<^verbatim>\<open>mbedtls_ssl_read\<close> with a buffer of 4096 bytes, \<open>tls_connect\<close> for the
  constructor of \<^verbatim>\<open>TlsConnection\<close>; the socket functions for the system calls of
  the same names. An \<^verbatim>\<open>addrinfo\<close> is a number.
\<close>

record 'w net =
  sleep_ms :: "nat \<Rightarrow> 'w \<Rightarrow> 'w"
  steady_now :: "'w \<Rightarrow> nat"
  write_stderr :: "string \<Rightarrow> 'w \<Rightarrow> 'w"
  tls_connect :: "string \<Rightarrow> ('w, unit) prog"
  tls_close :: "'w \<Rightarrow> 'w"
  ssl_write :: "string \<Rightarrow> 'w \<Rightarrow> int \<times> 'w"
  ssl_read :: "'w \<Rightarrow> (int \<times> string) \<times> 'w"
  tls_wants_io :: "int \<Rightarrow> bool"
  tls_received_session_ticket :: "int \<Rightarrow> bool"
  PEER_CLOSE_NOTIFY :: int
  mbed_error :: "int \<Rightarrow> string"
  getaddrinfo :: "string \<Rightarrow> string \<Rightarrow> 'w \<Rightarrow> (string + nat list) \<times> 'w"
  socket_connect :: "nat \<Rightarrow> 'w \<Rightarrow> bool \<times> 'w"
  sock_write :: "string \<Rightarrow> 'w \<Rightarrow> int \<times> 'w"
  sock_read :: "'w \<Rightarrow> (int \<times> string) \<times> 'w"
  sock_close :: "'w \<Rightarrow> 'w"

record HttpResponse =
  status :: int
  body :: string

definition crlf :: string where
  "crlf = [CHR 0x0D, CHR 0x0A]"

section \<open>Retrying\<close>

definition retry_message :: "string \<Rightarrow> int \<Rightarrow> int \<Rightarrow> string" where
  "retry_message e attempt max_attempts =
     ''transient network error: '' @ e @ ''; retrying (attempt '' @ to_string_int (attempt + 1) @
     '' of '' @ to_string_int max_attempts @ '')'' @ [CHR 0x0A]"

function retry_loop :: "'w net \<Rightarrow> ('w, 'a) prog \<Rightarrow> int \<Rightarrow> int \<Rightarrow> ('w, 'a) prog" where
  "retry_loop net op max_attempts attempt w =
     (case op w of
        Some (Inl (Transient_error e), w') \<Rightarrow>
          if max_attempts \<le> attempt then Some (Inl (Transient_error e), w')
          else retry_loop net op max_attempts (attempt + 1)
                 (sleep_ms net (nat (attempt * 2) * 1000)
                   (write_stderr net (retry_message e attempt max_attempts) w'))
      | outcome \<Rightarrow> outcome)"
  by pat_completeness auto
termination by (relation "measure (\<lambda>(net, op, m, a, w). nat (m - a))") auto

declare retry_loop.simps [simp del]

definition retry_transient :: "'w net \<Rightarrow> ('w, 'a) prog \<Rightarrow> ('w, 'a) prog" where
  "retry_transient net op = retry_loop net op 3 1"

section \<open>The TLS connection\<close>

partial_function (option) write_all :: "'w net \<Rightarrow> string \<Rightarrow> 'w \<Rightarrow> (unit result \<times> 'w) option" where
  "write_all net data w =
     (if data = [] then Some (Inr (), w)
      else case ssl_write net data w of (ret, w') \<Rightarrow>
        if ret = 0
        then Some (Inl (Transient_error ''ssl_write: connection closed without progress''), w')
        else if ret < 0 then
          (if tls_wants_io net ret then write_all net data w'
           else if tls_received_session_ticket net ret
           then Some (Inl (Transient_error ''ssl_write interrupted by TLS session ticket''), w')
           else Some (Inl (Transient_error (''ssl_write: '' @ mbed_error net ret)), w'))
        else write_all net (drop (nat ret) data) w')"

partial_function (option) read_all_loop :: "'w net \<Rightarrow> string \<Rightarrow> 'w \<Rightarrow> (string result \<times> 'w) option" where
  "read_all_loop net acc w =
     (case ssl_read net w of ((ret, buf), w') \<Rightarrow>
        if tls_wants_io net ret \<or> tls_received_session_ticket net ret then read_all_loop net acc w'
        else if ret = PEER_CLOSE_NOTIFY net \<or> ret = 0 then Some (Inr acc, w')
        else if ret < 0 then Some (Inl (Transient_error (''ssl_read: '' @ mbed_error net ret)), w')
        else read_all_loop net (acc @ take (nat ret) buf) w')"

definition read_all :: "'w net \<Rightarrow> ('w, string) prog" where
  "read_all net = read_all_loop net []"

section \<open>Parsing a response\<close>

partial_function (option) chunk_loop :: "string \<Rightarrow> nat \<Rightarrow> string \<Rightarrow> string result option" where
  "chunk_loop src pos decoded =
     (if \<not> pos < length src then Some (Inr decoded)
      else case find_str src crlf pos of
        None \<Rightarrow> Some (Inr decoded)
      | Some nl \<Rightarrow>
          (case stoul 16 (substr src pos (nl - pos)) of
             Inl e \<Rightarrow> Some (Inl e)
           | Inr chunk_len \<Rightarrow>
               if chunk_len = 0 then Some (Inr decoded)
               else chunk_loop src ((nl + 2 + (unat chunk_len + 2)) mod 2 ^ 64)
                      (decoded @ substr src (nl + 2) (unat chunk_len))))"

definition parse_http_response :: "string \<Rightarrow> HttpResponse result option" where
  "parse_http_response raw =
     (if find_str raw crlf 0 = None then Some (throw ''malformed HTTP response'')
      else case find_char raw (CHR '' '') 0 of
        None \<Rightarrow> Some (throw ''malformed HTTP status line'')
      | Some sp1 \<Rightarrow>
          (case stoi (substr raw (sp1 + 1) 3) of
             Inl e \<Rightarrow> Some (Inl e)
           | Inr st \<Rightarrow>
               let bd = (case find_str raw (crlf @ crlf) 0 of
                           None \<Rightarrow> [] | Some body_start \<Rightarrow> substr_from raw (body_start + 4))
               in if find_str raw ''Transfer-Encoding: chunked'' 0 \<noteq> None \<or>
                     find_str raw ''transfer-encoding: chunked'' 0 \<noteq> None
                  then (case chunk_loop bd 0 [] of
                          None \<Rightarrow> None
                        | Some (Inl e) \<Rightarrow> Some (Inl e)
                        | Some (Inr decoded) \<Rightarrow> Some (Inr \<lparr>status = st, body = decoded\<rparr>))
                  else Some (Inr \<lparr>status = st, body = bd\<rparr>)))"

definition parse_response :: "string \<Rightarrow> ('w, HttpResponse) prog" where
  "parse_response raw w = map_option (\<lambda>r. (r, w)) (parse_http_response raw)"

section \<open>Requests\<close>

text \<open>The lifetime of a connection, which its destructor closes however the request ends\<close>

definition with_tls :: "'w net \<Rightarrow> string \<Rightarrow> ('w, 'a) prog \<Rightarrow> ('w, 'a) prog" where
  "with_tls net host m =
     bindP (tls_connect net host) (\<lambda>_ w.
       case m w of None \<Rightarrow> None | Some (r, w') \<Rightarrow> Some (r, tls_close net w'))"

definition request_text :: "string \<Rightarrow> string \<Rightarrow> string \<Rightarrow> string \<Rightarrow> string option \<Rightarrow> string" where
  "request_text host method path bearer_token bd =
     method @ '' '' @ path @ '' HTTP/1.1'' @ crlf @
     ''Host: '' @ host @ crlf @
     ''Authorization: Bearer '' @ bearer_token @ crlf @
     ''Connection: close'' @ crlf @
     (case bd of None \<Rightarrow> []
      | Some b \<Rightarrow> ''Content-Type: application/json; charset=utf-8'' @ crlf @
                  ''Content-Length: '' @ to_string_nat (length b) @ crlf) @
     crlf @ (case bd of None \<Rightarrow> [] | Some b \<Rightarrow> b)"

definition do_request ::
  "'w net \<Rightarrow> string \<Rightarrow> string \<Rightarrow> string \<Rightarrow> string \<Rightarrow> string option \<Rightarrow> ('w, HttpResponse) prog" where
  "do_request net host method path bearer_token bd =
     with_tls net host (
       bindP (write_all net (request_text host method path bearer_token bd)) (\<lambda>_.
       bindP (read_all net) parse_response))"

definition https_post :: "'w net \<Rightarrow> string \<Rightarrow> string \<Rightarrow> string \<Rightarrow> string \<Rightarrow> ('w, HttpResponse) prog" where
  "https_post net host path bearer_token json_body =
     retry_transient net (do_request net host ''POST'' path bearer_token (Some json_body))"

definition https_get :: "'w net \<Rightarrow> string \<Rightarrow> string \<Rightarrow> string \<Rightarrow> ('w, HttpResponse) prog" where
  "https_get net host path bearer_token =
     retry_transient net (do_request net host ''GET'' path bearer_token None)"

definition parse_https_url :: "string \<Rightarrow> (string \<times> string) result" where
  "parse_https_url url =
     (let scheme = ''https://'' in
      if \<not> starts_with url scheme then throw (''expected https:// URL, got: '' @ url)
      else
        let host_start = length scheme;
            path_start = find_char url (CHR ''/'') host_start;
            host = (case path_start of None \<Rightarrow> substr_from url host_start
                    | Some p \<Rightarrow> substr url host_start (p - host_start));
            path_and_query = (case path_start of None \<Rightarrow> ''/'' | Some p \<Rightarrow> substr_from url p);
            host = (case find_char host (CHR '':'') 0 of None \<Rightarrow> host | Some colon \<Rightarrow> take colon host)
        in Inr (host, path_and_query))"

definition get_url_request :: "string \<Rightarrow> string \<Rightarrow> string \<Rightarrow> string" where
  "get_url_request host path bearer_token =
     ''GET '' @ path @ '' HTTP/1.1'' @ crlf @
     ''Host: '' @ host @ crlf @
     ''User-Agent: aas-sign/1.0'' @ crlf @
     ''Accept: application/json'' @ crlf @
     ''Authorization: Bearer '' @ bearer_token @ crlf @
     ''Connection: close'' @ crlf @ crlf"

definition https_get_url :: "'w net \<Rightarrow> string \<Rightarrow> string \<Rightarrow> ('w, HttpResponse) prog" where
  "https_get_url net url bearer_token =
     retry_transient net
       (bindP (liftP (parse_https_url url)) (\<lambda>(host, path).
        with_tls net host (
          bindP (write_all net (get_url_request host path bearer_token)) (\<lambda>_.
          bindP (read_all net) parse_response))))"

definition post_url_request :: "string \<Rightarrow> string \<Rightarrow> string \<Rightarrow> string \<Rightarrow> string" where
  "post_url_request host path content_type bd =
     ''POST '' @ path @ '' HTTP/1.1'' @ crlf @
     ''Host: '' @ host @ crlf @
     ''User-Agent: aas-sign/1.0'' @ crlf @
     ''Accept: application/json'' @ crlf @
     ''Content-Type: '' @ content_type @ crlf @
     ''Content-Length: '' @ to_string_nat (length bd) @ crlf @
     ''Connection: close'' @ crlf @ crlf @ bd"

definition https_post_url :: "'w net \<Rightarrow> string \<Rightarrow> string \<Rightarrow> string \<Rightarrow> ('w, HttpResponse) prog" where
  "https_post_url net url content_type bd =
     retry_transient net
       (bindP (liftP (parse_https_url url)) (\<lambda>(host, path).
        with_tls net host (
          bindP (write_all net (post_url_request host path content_type bd)) (\<lambda>_.
          bindP (read_all net) parse_response))))"

section \<open>Plain HTTP\<close>

text \<open>The loop over the addresses: the first that connects\<close>

primrec connect_loop :: "'w net \<Rightarrow> nat list \<Rightarrow> 'w \<Rightarrow> bool \<times> 'w" where
  "connect_loop net [] w = (False, w)"
| "connect_loop net (a # rest) w =
     (case socket_connect net a w of (ok, w') \<Rightarrow> if ok then (True, w') else connect_loop net rest w')"

function write_n :: "'w net \<Rightarrow> string \<Rightarrow> 'w \<Rightarrow> unit result \<times> 'w" where
  "write_n net p w =
     (if p = [] then (Inr (), w)
      else case sock_write net p w of (n, w') \<Rightarrow>
        if n \<le> 0 then (Inl (Transient_error ''write to TSA failed''), sock_close net w')
        else write_n net (drop (nat n) p) w')"
  by pat_completeness auto
termination by (relation "measure (\<lambda>(net, p, w). length p)") auto

declare write_n.simps [simp del]

partial_function (option) sock_read_loop :: "'w net \<Rightarrow> string \<Rightarrow> 'w \<Rightarrow> (string result \<times> 'w) option" where
  "sock_read_loop net raw w =
     (case sock_read net w of ((r, buf), w') \<Rightarrow>
        if r < 0 then Some (Inl (Transient_error ''read from TSA failed''), sock_close net w')
        else if r = 0 then Some (Inr raw, sock_close net w')
        else sock_read_loop net (raw @ take (nat r) buf) w')"

definition binary_header :: "string \<Rightarrow> int \<Rightarrow> string \<Rightarrow> string \<Rightarrow> string \<Rightarrow> bytes \<Rightarrow> string" where
  "binary_header host port path content_type accept bd =
     ''POST '' @ path @ '' HTTP/1.1'' @ crlf @
     ''Host: '' @ host @ (if port \<noteq> 80 then '':'' @ to_string_int port else []) @ crlf @
     ''User-Agent: aas-sign/1.0'' @ crlf @
     ''Content-Type: '' @ content_type @ crlf @
     (if accept \<noteq> [] then ''Accept: '' @ accept @ crlf else []) @
     ''Content-Length: '' @ to_string_nat (length bd) @ crlf @
     ''Connection: close'' @ crlf @ crlf"

definition http_post_binary ::
  "'w net \<Rightarrow> string \<Rightarrow> int \<Rightarrow> string \<Rightarrow> string \<Rightarrow> string \<Rightarrow> bytes \<Rightarrow> ('w, HttpResponse) prog" where
  "http_post_binary net host port path content_type accept bd =
     retry_transient net (\<lambda>w.
       let port_str = to_string_int port in
       case getaddrinfo net host port_str w of
         (Inl e, w1) \<Rightarrow> Some (Inl (Transient_error (''getaddrinfo '' @ host @ '': '' @ e)), w1)
       | (Inr addrs, w1) \<Rightarrow>
           case connect_loop net addrs w1 of
             (False, w2) \<Rightarrow>
               Some (Inl (Transient_error (''cannot connect to '' @ host @ '':'' @ port_str)), w2)
           | (True, w2) \<Rightarrow>
               bindP (\<lambda>w. Some (write_n net (binary_header host port path content_type accept bd) w)) (\<lambda>_.
               bindP (\<lambda>w. if bd = [] then Some (Inr (), w) else Some (write_n net (string_of_bytes bd) w)) (\<lambda>_.
               bindP (sock_read_loop net []) parse_response)) w2)"

section \<open>Chunked bodies\<close>

definition chunk_text :: "string \<times> string \<Rightarrow> string" where
  "chunk_text c = fst c @ crlf @ snd c @ crlf"

text \<open>A chunk: a size line that \<^verbatim>\<open>stoul\<close> reads as the length of the data\<close>

definition valid_chunk :: "string \<times> string \<Rightarrow> bool" where
  "valid_chunk c \<longleftrightarrow> CHR 0x0D \<notin> set (fst c) \<and> snd c \<noteq> [] \<and>
     stoul 16 (fst c) = Inr (of_nat (length (snd c)))"

definition last_chunk :: "string \<Rightarrow> bool" where
  "last_chunk l \<longleftrightarrow> CHR 0x0D \<notin> set l \<and> stoul 16 l = Inr 0"

lemma crlf_simps [simp]: "crlf \<noteq> []" "hd crlf = CHR 0x0D" "length crlf = 2"
  by (simp_all add: crlf_def)

lemma chunk_line:
  assumes "CHR 0x0D \<notin> set l"
  shows "find_str (pre @ l @ crlf @ rest) crlf (length pre) = Some (length pre + length l)"
    and "substr (pre @ l @ crlf @ rest) (length pre) (length pre + length l - length pre) = l"
  using index_of_str_hd [of crlf l rest] assms
  by (simp_all add: find_str_after substr_def)

lemma chunk_loop_last:
  assumes "last_chunk l"
  shows "chunk_loop (pre @ l @ crlf @ rest) (length pre) decoded = Some (Inr decoded)"
  using assms chunk_line [of l pre rest]
  by (subst chunk_loop.simps) (simp add: last_chunk_def)

lemma chunk_loop_chunks:
  assumes "\<forall>c \<in> set cs. valid_chunk c" "last_chunk l"
    and "length (pre @ concat (map chunk_text cs) @ l @ crlf @ rest) < 2 ^ 64"
  shows "chunk_loop (pre @ concat (map chunk_text cs) @ l @ crlf @ rest) (length pre) decoded
    = Some (Inr (decoded @ concat (map snd cs)))"
  using assms(1,3)
proof (induction cs arbitrary: pre decoded)
  case Nil
  then show ?case using chunk_loop_last [OF assms(2)] by simp
next
  case (Cons c cs)
  obtain ds data where c: "c = (ds, data)" by (cases c)
  let ?tail = "data @ crlf @ concat (map chunk_text cs) @ l @ crlf @ rest"
  let ?src = "pre @ ds @ crlf @ ?tail"
  from Cons.prems c have v: "CHR 0x0D \<notin> set ds" "data \<noteq> []"
    "stoul 16 ds = Inr (of_nat (length data))" by (simp_all add: valid_chunk_def)
  have len: "length ?src < 2 ^ 64" using Cons.prems(2) by (simp add: c chunk_text_def [of "(ds, data)"])
  then have small: "length data < 2 ^ 64" by simp
  then have u: "unat (of_nat (length data) :: 64 word) = length data" by (simp add: unat_of_nat)
  with v(2) have nz: "(of_nat (length data) :: 64 word) \<noteq> 0" by (metis length_0_conv unsigned_0)
  have pos: "(length pre + length ds + 2 + (length data + 2)) mod 2 ^ 64
      = length (pre @ ds @ crlf @ data @ crlf)"
    using len by simp
  have app: "substr ?src (length pre + length ds + 2) (length data) = data"
    by (simp add: substr_def)
  have "chunk_loop ?src (length pre) decoded
      = chunk_loop ?src (length (pre @ ds @ crlf @ data @ crlf)) (decoded @ data)"
    by (subst chunk_loop.simps)
      (simp only: chunk_line(1) [OF v(1)] chunk_line(2) [OF v(1)] v(3) u nz pos app
        option.case sum.case if_False, simp)
  also have "?src = (pre @ ds @ crlf @ data @ crlf) @ concat (map chunk_text cs) @ l @ crlf @ rest"
    by simp
  also have "chunk_loop \<dots> (length (pre @ ds @ crlf @ data @ crlf)) (decoded @ data)
      = Some (Inr ((decoded @ data) @ concat (map snd cs)))"
    by (rule Cons.IH) (use Cons.prems len in simp_all)
  finally show ?case by (simp add: c chunk_text_def [of "(ds, data)"])
qed

lemma status_code:
  assumes "100 \<le> n" "n < 1000"
  shows "length (to_string_nat n) = 3"
proof -
  have "n div 10 div 10 < 10" "\<not> n div 10 < 10" "\<not> n < 10" using assms by auto
  then show ?thesis
    by (simp add: to_string_nat.simps [of n] to_string_nat.simps [of "n div 10"]
        to_string_nat.simps [of "n div 10 div 10"])
qed

text \<open>The head of a response with a three-digit status code, up to the blank line\<close>

definition response_head :: "string \<Rightarrow> nat \<Rightarrow> bool" where
  "response_head head code \<longleftrightarrow> 100 \<le> code \<and> code < 1000 \<and>
     starts_with head (''HTTP/1.1 '' @ to_string_nat code) \<and>
     find_str (head @ crlf @ crlf) (crlf @ crlf) 0 = Some (length head)"

definition chunked :: "string \<Rightarrow> bool" where
  "chunked s \<longleftrightarrow> find_str s ''Transfer-Encoding: chunked'' 0 \<noteq> None \<or>
     find_str s ''transfer-encoding: chunked'' 0 \<noteq> None"

lemma chunked_append: "chunked s \<Longrightarrow> chunked (s @ t)"
  unfolding chunked_def by (auto dest: index_of_str_append)

lemma parse_http_response_head:
  assumes "response_head head code"
  shows "parse_http_response (head @ crlf @ crlf @ bd) =
    (if chunked (head @ crlf @ crlf @ bd)
     then (case chunk_loop bd 0 [] of
             None \<Rightarrow> None
           | Some (Inl e) \<Rightarrow> Some (Inl e)
           | Some (Inr decoded) \<Rightarrow> Some (Inr \<lparr>status = int code, body = decoded\<rparr>))
     else Some (Inr \<lparr>status = int code, body = bd\<rparr>))"
proof -
  let ?raw = "head @ crlf @ crlf @ bd"
  from assms obtain tail where head: "head = ''HTTP/1.1 '' @ to_string_nat code @ tail"
    and code: "100 \<le> code" "code < 1000"
    and blank: "index_of_str (crlf @ crlf) (head @ crlf @ crlf) = Some (length head)"
    unfolding response_head_def starts_with_def by (metis append.assoc append_take_drop_id find_str_0)
  obtain y where "index_of_str crlf ?raw = Some y" using index_of_str_found [of crlf head] by blast
  moreover have "index_of (CHR '' '') ?raw = Some 8" by (simp add: head)
  moreover have "substr ?raw 9 3 = to_string_nat code"
    using status_code [OF code] by (simp add: head substr_def)
  moreover have "index_of_str (crlf @ crlf) ?raw = Some (length head)"
    using index_of_str_append [OF blank, of bd] by simp
  ultimately show ?thesis
    using code by (simp add: parse_http_response_def stoi_to_string substr_from_def chunked_def)
qed

section \<open>Termination of the chunk decoder\<close>

lemma chunk_loop_returns:
  assumes "length src < 2 ^ 62"
    and "\<And>p n v. stoul 16 (substr src p n) = Inr v \<Longrightarrow> unat v < 2 ^ 62"
  shows "\<exists>r. chunk_loop src pos decoded = Some r"
proof (induction "length src - pos" arbitrary: pos decoded rule: less_induct)
  case less
  show ?case
  proof (cases "\<exists>nl v. pos < length src \<and> find_str src crlf pos = Some nl \<and>
      stoul 16 (substr src pos (nl - pos)) = Inr v \<and> v \<noteq> 0")
    case True
    then obtain nl v where *: "pos < length src" "find_str src crlf pos = Some nl"
      "stoul 16 (substr src pos (nl - pos)) = Inr v" "v \<noteq> 0" by blast
    from *(1,2) have nl: "pos \<le> nl" "nl + 2 \<le> length src"
      by (auto simp: find_str_def dest!: index_of_str_bound)
    have "unat v < 2 ^ 62" using assms(2) [OF *(3)] .
    with nl assms(1) have "(nl + 2 + (unat v + 2)) mod 2 ^ 64 = nl + 2 + (unat v + 2)" by simp
    with nl *(1) less [of "nl + 2 + (unat v + 2)"] * show ?thesis
      by (subst chunk_loop.simps) (simp del: mod_less)
  next
    case False
    then show ?thesis
      by (subst chunk_loop.simps) (auto split: option.splits sum.splits)
  qed
qed

lemma digits_value_bound:
  assumes "\<forall>c \<in> set ds. is_base_digit base c"
  shows "digits_value base ds < base ^ length ds"
  using assms
proof (induction ds rule: rev_induct)
  case (snoc c ds)
  then have "digits_value base ds + 1 \<le> base ^ length ds" "digit_value c < base"
    by (simp_all add: is_base_digit_def)
  then have "digits_value base ds * base + digit_value c < (digits_value base ds + 1) * base" by simp
  also have "\<dots> \<le> base ^ length ds * base"
    using \<open>digits_value base ds + 1 \<le> base ^ length ds\<close> by (rule mult_le_mono1)
  finally show ?case by (simp add: digits_value_append mult.commute)
qed (simp add: digits_value_def)

lemma length_dropWhile_le: "length (dropWhile P xs) \<le> length xs"
  by (induction xs) auto

lemma scan_number_parts:
  assumes "scan_number base s = (neg, ds, rest)"
  obtains z where "z = dropWhile isspace s \<or> z = tl (dropWhile isspace s)"
    and "ds = takeWhile (is_base_digit base) (skip_hex_prefix base z)"
    and "neg = (dropWhile isspace s \<noteq> [] \<and> hd (dropWhile isspace s) = CHR ''-'')"
proof -
  let ?s = "dropWhile isspace s"
  let ?z = "if ?s \<noteq> [] \<and> (hd ?s = CHR ''-'' \<or> hd ?s = CHR ''+'') then tl ?s else ?s"
  have "scan_number base s = (?s \<noteq> [] \<and> hd ?s = CHR ''-'',
      takeWhile (is_base_digit base) (skip_hex_prefix base ?z),
      dropWhile (is_base_digit base) (skip_hex_prefix base ?z))"
    unfolding scan_number_def Let_def by (rule refl)
  with assms have eqs: "ds = takeWhile (is_base_digit base) (skip_hex_prefix base ?z)"
    "neg = (?s \<noteq> [] \<and> hd ?s = CHR ''-'')"
    by (simp_all only: prod.inject)
  have "?z = ?s \<or> ?z = tl ?s" by simp
  from that [OF this eqs] show ?thesis .
qed

lemma stoul_short:
  assumes "stoul 16 s = Inr v" "CHR ''-'' \<notin> set s" "length s \<le> 15"
  shows "unat v < 2 ^ 60"
proof -
  obtain neg ds rest where s: "scan_number 16 s = (neg, ds, rest)" by (metis prod_cases3)
  have "length (takeWhile (is_base_digit 16) (skip_hex_prefix 16 x)) \<le> length x" for x
    by (rule order_trans [OF length_takeWhile_le]) (auto simp: skip_hex_prefix_def split: list.splits)
  moreover obtain z where z: "z = dropWhile isspace s \<or> z = tl (dropWhile isspace s)"
    "ds = takeWhile (is_base_digit 16) (skip_hex_prefix 16 z)"
    and neg: "neg = (dropWhile isspace s \<noteq> [] \<and> hd (dropWhile isspace s) = CHR ''-'')"
    using scan_number_parts [OF s] by blast
  moreover have "length z \<le> length s"
    using length_dropWhile_le [of isspace s] z(1) by auto
  ultimately have "length ds \<le> length s" by (metis order_trans)
  moreover have "\<forall>c \<in> set ds. is_base_digit 16 c"
    unfolding z(2) by (auto dest: set_takeWhileD)
  moreover have "\<not> neg"
  proof
    assume neg
    then have "dropWhile isspace s \<noteq> []" "hd (dropWhile isspace s) = CHR ''-''"
      using neg by auto
    then show False using assms(2) by (metis hd_in_set set_dropWhileD)
  qed
  ultimately have d: "digits_value 16 ds < 16 ^ length ds" "(16 :: nat) ^ length ds \<le> 16 ^ 15" "\<not> neg"
    using digits_value_bound [of ds 16] assms(3) power_increasing [of "length ds" 15 "16 :: nat"] by simp_all
  then have "digits_value 16 ds < 2 ^ 60" by simp
  with assms(1) s d(3) show ?thesis
    by (auto simp: stoul_def strtoul_def Let_def unat_of_nat split: if_splits)
qed

section \<open>Properties\<close>

text \<open>
  C16: a chunked response is reassembled: for a response whose head announces chunked transfer
  coding and whose body is a sequence of chunks, each with its size line (hexadecimal, with or
  without an extension), then the last chunk, the parser returns the status code and the
  concatenation of the data, whatever bytes the data hold.
\<close>

theorem chunked_response_roundtrip:
  assumes "response_head head code" "chunked head"
    and "\<forall>c \<in> set cs. valid_chunk c" "last_chunk l"
    and "length (concat (map chunk_text cs) @ l @ crlf @ rest) < 2 ^ 64"
  shows "parse_http_response (head @ crlf @ crlf @ concat (map chunk_text cs) @ l @ crlf @ rest)
    = Some (Inr \<lparr>status = int code, body = concat (map snd cs)\<rparr>)"
  using chunk_loop_chunks [OF assms(3,4), of "[]" rest "[]"] assms(5)
    chunked_append [OF assms(2)]
  by (simp add: parse_http_response_head [OF assms(1)])

definition sample_head :: string where
  "sample_head = ''HTTP/1.1 200 OK'' @ crlf @ ''Transfer-Encoding: chunked''"

lemma sample_chunks:
  "valid_chunk (''b'', ''hello world'')" "valid_chunk (''02;x=1'', crlf)" "last_chunk ''0''"
  by (simp_all add: valid_chunk_def last_chunk_def crlf_def stoul_def strtoul_def scan_number_def
      isspace_def skip_hex_prefix_def is_base_digit_def digit_value_def isdigit_def in_range_def
      digits_value_def)

lemma sample_head_ok: "response_head sample_head 200" "chunked sample_head"
  by (simp_all add: response_head_def sample_head_def starts_with_def crlf_def chunked_def
      to_string_nat.simps)

theorem chunked_response_roundtrip_witness:
  "parse_http_response (sample_head @ crlf @ crlf @
     concat (map chunk_text [(''b'', ''hello world''), (''02;x=1'', crlf)]) @ ''0'' @ crlf @ crlf)
   = Some (Inr \<lparr>status = 200, body = ''hello world'' @ crlf\<rparr>)"
  using chunked_response_roundtrip [OF sample_head_ok,
      of "[(''b'', ''hello world''), (''02;x=1'', crlf)]" "''0''" crlf] sample_chunks
  by (simp add: chunk_text_def)

text \<open>
  A response without a chunked coding is passed through: the status code and every byte
  after the first blank line.
\<close>

theorem plain_response_roundtrip:
  assumes "response_head head code" "\<not> chunked (head @ crlf @ crlf @ bd)"
  shows "parse_http_response (head @ crlf @ crlf @ bd) = Some (Inr \<lparr>status = int code, body = bd\<rparr>)"
  using assms by (simp add: parse_http_response_head)

theorem plain_response_roundtrip_witness:
  "parse_http_response (''HTTP/1.1 404 Not Found'' @ crlf @ crlf @ ''gone'')
   = Some (Inr \<lparr>status = 404, body = ''gone''\<rparr>)"
  using plain_response_roundtrip [of "''HTTP/1.1 404 Not Found''" 404 "''gone''"]
  by (simp add: response_head_def starts_with_def crlf_def chunked_def to_string_nat.simps)



text \<open>
  Without that bound the parser may never return. The position after a chunk is computed
  modulo \<open>2 ^ 64\<close>, and a server can choose the size so that it is again the position of the
  size line.
\<close>

theorem parse_http_response_diverges:
  "parse_http_response (sample_head @ crlf @ crlf @ ''FFFFFFFFFFFFFFEC'' @ crlf) = None"
proof -
  let ?src = "''FFFFFFFFFFFFFFEC'' @ crlf"
  have f: "find_str ?src crlf 0 = Some 16" by (simp add: crlf_def)
  have s: "stoul 16 (substr ?src 0 (16 - 0)) = Inr (- 20)"
    by (simp add: substr_def stoul_def strtoul_def scan_number_def
      isspace_def skip_hex_prefix_def is_base_digit_def digit_value_def isdigit_def in_range_def
      digits_value_def)
  have p: "(16 + 2 + (unat (- 20 :: 64 word) + 2)) mod 2 ^ 64 = 0" by simp
  have "chunk_loop ?src 0 d \<noteq> Some r" for d r
  proof
    assume r: "chunk_loop ?src 0 d = Some r"
    have "\<not> (?src = ?src \<and> (0 :: nat) = 0)"
    proof (rule chunk_loop.raw_induct [where P = "\<lambda>src pos d r. \<not> (src = ?src \<and> pos = 0)", OF _ r])
      fix f :: "string \<Rightarrow> nat \<Rightarrow> string \<Rightarrow> string result option" and src pos d r
      assume IH: "\<And>src pos d r. f src pos d = Some r \<Longrightarrow> \<not> (src = ?src \<and> pos = 0)"
        and eq: "(if \<not> pos < length src then Some (Inr d)
          else case find_str src crlf pos of None \<Rightarrow> Some (Inr d)
          | Some nl \<Rightarrow> (case stoul 16 (substr src pos (nl - pos)) of Inl e \<Rightarrow> Some (Inl e)
            | Inr chunk_len \<Rightarrow> if chunk_len = 0 then Some (Inr d)
               else f src ((nl + 2 + (unat chunk_len + 2)) mod 2 ^ 64)
                      (d @ substr src (nl + 2) (unat chunk_len)))) = Some r"
      show "\<not> (src = ?src \<and> pos = 0)"
      proof
        assume sp: "src = ?src \<and> pos = 0"
        have "f ?src 0 (d @ substr ?src (16 + 2) (unat (- 20 :: 64 word))) = Some r"
          using eq sp by (simp only: f s p option.case sum.case) simp
        then show False using IH by blast
      qed
    qed
    then show False by simp
  qed
  then have "chunk_loop ?src 0 [] = None" by (metis not_Some_eq)
  then show ?thesis
    using chunked_append [OF sample_head_ok(2), of "crlf @ crlf @ ?src"]
    by (simp add: parse_http_response_head [OF sample_head_ok(1)])
qed

section \<open>Retrying and writing\<close>

definition transient :: "('a result \<times> 'w) option \<Rightarrow> bool" where
  "transient outcome \<longleftrightarrow> (\<exists>e w. outcome = Some (Inl (Transient_error e), w))"

text \<open>
  The abstract view of the retry loop: the world in which attempt \<open>k\<close> (from 0) starts, defined
  while every earlier attempt fails with a transient error; between two attempts the program
  reports the error and sleeps two seconds longer each time.
\<close>

primrec attempt_world :: "'w net \<Rightarrow> ('w, 'a) prog \<Rightarrow> 'w \<Rightarrow> nat \<Rightarrow> 'w option" where
  "attempt_world net op w 0 = Some w"
| "attempt_world net op w (Suc k) =
     (case attempt_world net op w k of
        None \<Rightarrow> None
      | Some u \<Rightarrow>
          (case op u of
             Some (Inl (Transient_error e), u') \<Rightarrow>
               Some (sleep_ms net (2000 * Suc k) (write_stderr net (retry_message e (int k + 1) 3) u'))
           | _ \<Rightarrow> None))"

lemma retry_stop:
  "\<not> transient (op w) \<or> max_attempts \<le> attempt \<Longrightarrow> retry_loop net op max_attempts attempt w = op w"
  by (subst retry_loop.simps) (auto simp: transient_def split: option.splits sum.splits exn.splits)

lemma retry_again:
  assumes "op w = Some (Inl (Transient_error e), w')" "attempt < max_attempts"
  shows "retry_loop net op max_attempts attempt w = retry_loop net op max_attempts (attempt + 1)
    (sleep_ms net (nat (attempt * 2) * 1000) (write_stderr net (retry_message e attempt max_attempts) w'))"
  using assms by (subst retry_loop.simps) simp

lemma retry_from:
  assumes "attempt_world net op w k = Some u" "k < 3"
  shows "\<exists>j u'. k \<le> j \<and> j < 3 \<and> attempt_world net op w j = Some u' \<and>
    retry_loop net op 3 (int k + 1) u = op u' \<and> (j = 2 \<or> \<not> transient (op u'))"
  using assms
proof (induction "3 - k" arbitrary: k u rule: less_induct)
  case less
  show ?case
  proof (cases "\<not> transient (op u) \<or> k = 2")
    case True
    then show ?thesis using less.prems retry_stop [of op u 3 "int k + 1" net] by auto
  next
    case False
    then obtain e u1 where e: "op u = Some (Inl (Transient_error e), u1)" by (auto simp: transient_def)
    let ?v = "sleep_ms net (2000 * Suc k) (write_stderr net (retry_message e (int k + 1) 3) u1)"
    have v: "attempt_world net op w (Suc k) = Some ?v" using less.prems e by simp
    have "retry_loop net op 3 (int k + 1) u = retry_loop net op 3 (int (Suc k) + 1) ?v"
      using retry_again [of op u e u1, OF e, of "int k + 1" 3 net] False less.prems(2)
      by (simp add: nat_mult_distrib nat_add_distrib algebra_simps)
    moreover have "Suc k < 3" "3 - Suc k < 3 - k" using False less.prems(2) by simp_all
    ultimately show ?thesis
      using less.hyps [of "Suc k", OF _ v] Suc_leD by metis
  qed
qed

text \<open>
  \<^verbatim>\<open>retry_transient\<close> runs the operation at most three times. Its outcome is that
  of the first attempt that does not fail with a transient error, or of the third; any other
  exception, and a success, is passed on at once.
\<close>

theorem retry_transient_outcome:
  "\<exists>k u. k < 3 \<and> attempt_world net op w k = Some u \<and> retry_transient net op w = op u \<and>
     (k = 2 \<or> \<not> transient (op u))"
  using retry_from [of net op w 0 w] by (auto simp: retry_transient_def)

text \<open>
  What \<^verbatim>\<open>mbedtls_ssl_write\<close> documents: a positive result is the number of bytes taken
  from the front of the buffer, any other result takes none, and a request to wait for the
  socket is not repeated forever.
\<close>

definition ssl_write_contract :: "'w net \<Rightarrow> ('w \<Rightarrow> string) \<Rightarrow> ('w \<Rightarrow> nat) \<Rightarrow> bool" where
  "ssl_write_contract net sent waits \<longleftrightarrow>
     (\<forall>data w ret w'. ssl_write net data w = (ret, w') \<longrightarrow>
        ret \<le> int (length data) \<and> sent w' = sent w @ take (nat ret) data \<and>
        (ret < 0 \<and> tls_wants_io net ret \<longrightarrow> waits w' < waits w))"

text \<open>
  \<^verbatim>\<open>write_all\<close> returns, and either it has sent all of the data, exactly once and in
  order, across whatever partial writes the TLS library made, or it throws a transient error
  with a proper prefix sent, so that the caller retries the whole request.
\<close>

theorem write_all_sends:
  assumes "ssl_write_contract net sent waits"
  shows "\<exists>r w'. write_all net data w = Some (r, w') \<and>
    (case r of Inr _ \<Rightarrow> sent w' = sent w @ data
     | Inl e \<Rightarrow> (\<exists>m. e = Transient_error m) \<and> (\<exists>n < length data. sent w' = sent w @ take n data))"
proof (induction "(length data, waits w)" arbitrary: data w rule: wf_induct_rule [OF wf_lex_prod [OF wf_less wf_less]])
  case less: 1
  obtain ret w1 where sw: "ssl_write net data w = (ret, w1)" by fastforce
  with assms have c: "ret \<le> int (length data)" "sent w1 = sent w @ take (nat ret) data"
    "ret < 0 \<Longrightarrow> tls_wants_io net ret \<Longrightarrow> waits w1 < waits w"
    by (auto simp: ssl_write_contract_def)
  consider "data = []" | "data \<noteq> []" "ret = 0 \<or> ret < 0 \<and> \<not> tls_wants_io net ret"
    | "data \<noteq> []" "ret < 0" "tls_wants_io net ret" | "data \<noteq> []" "0 < ret" by linarith
  then show ?case
  proof cases
    case 1
    then show ?thesis by (subst write_all.simps) simp
  next
    case 2
    then show ?thesis using sw c(2) by (subst write_all.simps) (auto split: prod.splits)
  next
    case 3
    with less(1) [of data w1] c(2,3) sw show ?thesis
      by (subst write_all.simps) (auto split: sum.splits)
  next
    case 4
    let ?d = "drop (nat ret) data"
    have "length ?d < length data" using 4 by (cases data) auto
    with less(1) [of ?d w1] obtain r w' where r: "write_all net ?d w1 = Some (r, w')"
      and post: "case r of Inr _ \<Rightarrow> sent w' = sent w1 @ ?d
        | Inl e \<Rightarrow> (\<exists>m. e = Transient_error m) \<and> (\<exists>n < length ?d. sent w' = sent w1 @ take n ?d)"
      by auto
    have "write_all net data w = Some (r, w')"
      using 4 sw r by (subst write_all.simps) simp
    moreover have "take (nat ret) data @ take n ?d = take (nat ret + n) data" for n
      by (simp add: take_add)
    ultimately show ?thesis
      using post c(2) by (auto split: sum.splits simp: less_diff_conv add.commute)
  qed
qed

text \<open>
  A concrete platform: the world is the text sent so far, with the replies a server will give;
  every write takes at most ten bytes, and sleeping and reporting leave no trace.
\<close>

definition sample_net :: "(string \<times> string list) net" where
  "sample_net =
     \<lparr>sleep_ms = (\<lambda>_ w. w), steady_now = (\<lambda>_. 0), write_stderr = (\<lambda>_ w. w),
      tls_connect = (\<lambda>_. retP ()), tls_close = (\<lambda>w. w),
      ssl_write = (\<lambda>d (s, rs). (int (length (take 10 d)), (s @ take 10 d, rs))),
      ssl_read = (\<lambda>(s, rs). case rs of
          [] \<Rightarrow> ((0, []), (s, []))
        | r # rs' \<Rightarrow> if r = [] then ((0, []), (s, rs')) else ((int (length r), r), (s, [] # rs'))),
      tls_wants_io = (\<lambda>ret. ret = - 26880 \<or> ret = - 26752), tls_received_session_ticket = (\<lambda>_. False),
      PEER_CLOSE_NOTIFY = - 30848, mbed_error = (\<lambda>_. ''error''),
      getaddrinfo = (\<lambda>_ _ w. (Inr [0], w)), socket_connect = (\<lambda>_ w. (True, w)),
      sock_write = (\<lambda>d (s, rs). (int (length d), (s @ d, rs))),
      sock_read = (\<lambda>w. ((0, []), w)), sock_close = (\<lambda>w. w)\<rparr>"

theorem retry_transient_outcome_witness:
  "\<exists>k u. k < 3 \<and> attempt_world sample_net (https_get sample_net ''h'' ''/'' ''t'') ([], []) k = Some u \<and>
     retry_transient sample_net (https_get sample_net ''h'' ''/'' ''t'') ([], [])
       = https_get sample_net ''h'' ''/'' ''t'' u"
  using retry_transient_outcome [of sample_net "https_get sample_net ''h'' ''/'' ''t''" "([], [])"] by blast

theorem write_all_sends_witness:
  "\<exists>r w'. write_all sample_net ''GET / HTTP/1.1'' ([], []) = Some (r, w') \<and>
    (case r of Inr _ \<Rightarrow> fst w' = [] @ ''GET / HTTP/1.1''
     | Inl e \<Rightarrow> (\<exists>m. e = Transient_error m) \<and>
         (\<exists>n < length ''GET / HTTP/1.1''. fst w' = [] @ take n ''GET / HTTP/1.1''))"
proof -
  have "ssl_write_contract sample_net fst (\<lambda>_. 0)"
    by (auto simp: ssl_write_contract_def sample_net_def min_def)
  from write_all_sends [OF this, of "''GET / HTTP/1.1''" "([], [])"] show ?thesis by (simp only: fst_conv)
qed

section \<open>URLs\<close>

text \<open>
  \<^verbatim>\<open>parse_https_url\<close> splits \<^verbatim>\<open>https://host[:port][/path]\<close> in the
  host, without the port, and the path with its query, which is \<^verbatim>\<open>/\<close> when there is
  none; a URL with another scheme is an error.
\<close>

theorem parse_https_url_parts:
  assumes "CHR '':'' \<notin> set host" "CHR ''/'' \<notin> set host"
    and "port = [] \<or> (hd port = CHR '':'' \<and> CHR ''/'' \<notin> set port)"
    and "path = [] \<or> hd path = CHR ''/''"
  shows "parse_https_url (''https://'' @ host @ port @ path) = Inr (host, if path = [] then ''/'' else path)"
proof -
  let ?hp = "host @ port"
  have slash: "CHR ''/'' \<notin> set ?hp" using assms by auto
  have colon: "(case find_char ?hp (CHR '':'') 0 of None \<Rightarrow> ?hp | Some c \<Rightarrow> take c ?hp) = host"
    using assms(1,3) by (cases port) (simp_all add: index_of_append_notin iffD2 [OF index_of_None_iff])
  have pos: "find_char (''https://'' @ ?hp @ path) (CHR ''/'') 8 =
      (if path = [] then None else Some (8 + length ?hp))"
    using slash assms(4) by (cases path) (auto simp: find_char_def index_of_append_notin)
  have d: "drop (8 + n) s = drop n (drop 8 s)" for n and s :: string by (simp add: add.commute)
  have parts: "substr_from (''https://'' @ ?hp) 8 = ?hp" "substr (''https://'' @ ?hp @ path) 8 (length ?hp) = ?hp"
    "substr_from (''https://'' @ ?hp @ path) (8 + length ?hp) = path"
    by (simp_all add: substr_from_def substr_def d)
  have len: "length ''https://'' = 8" by simp
  let ?u = "''https://'' @ host @ port @ path"
  have h: "(case find_char ?u (CHR ''/'') 8 of None \<Rightarrow> substr_from ?u 8
      | Some p \<Rightarrow> substr ?u 8 (p - 8)) = ?hp"
    and p: "(case find_char ?u (CHR ''/'') 8 of None \<Rightarrow> ''/'' | Some p \<Rightarrow> substr_from ?u p)
      = (if path = [] then ''/'' else path)"
    using pos parts by (cases "path = []"; simp)+
  have "starts_with ?u ''https://''" by (simp add: starts_with_def)
  then show ?thesis
    unfolding parse_https_url_def Let_def len h p colon by simp
qed

theorem parse_https_url_parts_witness:
  "parse_https_url (''https://'' @ ''login.example.net'' @ '':8443'' @ ''/a/b?c=https://x'')
     = Inr (''login.example.net'', ''/a/b?c=https://x'')"
  using parse_https_url_parts [of "''login.example.net''" "'':8443''" "''/a/b?c=https://x''"] by simp

section \<open>A concrete service\<close>

text \<open>
  A service with one fixed reply. The world has a part that the
  network does not touch, a clock, and whether the reply of the current
  connection has been read; a write takes everything, and sleeping advances the clock.
\<close>

definition demo_net :: "string \<Rightarrow> ('x \<times> nat \<times> bool) net" where
  "demo_net reply =
     \<lparr>sleep_ms = (\<lambda>d (x, c, f). (x, c + 1000000 * d, f)), steady_now = (\<lambda>(x, c, f). c), write_stderr = (\<lambda>_ w. w),
      tls_connect = (\<lambda>_ (x, c, f). Some (Inr (), (x, c, False))), tls_close = (\<lambda>w. w),
      ssl_write = (\<lambda>d w. (int (length d), w)),
      ssl_read = (\<lambda>(x, c, f). if f then ((0, []), (x, c, f)) else ((int (length reply), reply), (x, c, True))),
      tls_wants_io = (\<lambda>_. False), tls_received_session_ticket = (\<lambda>_. False),
      PEER_CLOSE_NOTIFY = - 30848, mbed_error = (\<lambda>_. ''error''),
      getaddrinfo = (\<lambda>_ _ w. (Inr [0], w)), socket_connect = (\<lambda>_ w. (True, w)),
      sock_write = (\<lambda>d w. (int (length d), w)), sock_read = (\<lambda>w. ((0, []), w)), sock_close = (\<lambda>w. w)\<rparr>"

lemma demo_write_all: "write_all (demo_net reply) d w = Some (Inr (), w)"
proof (cases "d = []")
  case True
  then show ?thesis by (subst write_all.simps) simp
next
  case False
  then show ?thesis
    by (subst write_all.simps) (simp add: demo_net_def, subst write_all.simps, simp)
qed

lemma demo_read_all:
  assumes "reply \<noteq> []"
  shows "read_all (demo_net reply) (x, c, False) = Some (Inr reply, (x, c, True))"
  using assms
  by (simp add: read_all_def read_all_loop.simps [of _ "[]"] demo_net_def)
    (simp add: read_all_loop.simps)

lemma tls_close_demo: "tls_close (demo_net reply) w = w"
  by (simp add: demo_net_def)

lemma demo_request:
  assumes "reply \<noteq> []" "parse_http_response reply = Some (Inr resp)"
  shows "do_request (demo_net reply) host method path token bd (x, c, f) = Some (Inr resp, (x, c, True))"
proof -
  have "tls_connect (demo_net reply) host (x, c, f) = Some (Inr (), (x, c, False))"
    by (simp add: demo_net_def)
  with assms(2) show ?thesis
    by (simp add: do_request_def with_tls_def tls_close_demo bindP_def demo_write_all parse_response_def demo_read_all [OF assms(1)])
qed

lemma demo_https:
  assumes "reply \<noteq> []" "parse_http_response reply = Some (Inr resp)"
  shows "https_get (demo_net reply) host path token (x, c, f) = Some (Inr resp, (x, c, True))"
    and "https_post (demo_net reply) host path token bd (x, c, f) = Some (Inr resp, (x, c, True))"
  by (simp_all add: https_get_def https_post_def retry_transient_def retry_stop transient_def demo_request [OF assms])

definition demo_reply :: "string \<Rightarrow> string" where
  "demo_reply b = ''HTTP/1.1 200 OK'' @ crlf @ crlf @ b"

lemma demo_reply_parse:
  assumes "\<not> chunked (demo_reply b)"
  shows "parse_http_response (demo_reply b) = Some (Inr \<lparr>status = 200, body = b\<rparr>)"
  using assms parse_http_response_head [of "''HTTP/1.1 200 OK''" 200 b]
  by (simp add: demo_reply_def response_head_def starts_with_def crlf_def to_string_nat.simps)

lemma demo_https_post_url:
  assumes "reply \<noteq> []" "parse_http_response reply = Some (Inr resp)" "parse_https_url url = Inr (host, path)"
  shows "https_post_url (demo_net reply) url ct bd (x, c, f) = Some (Inr resp, (x, c, True))"
proof -
  have "tls_connect (demo_net reply) host (x, c, f) = Some (Inr (), (x, c, False))" by (simp add: demo_net_def)
  then have "bindP (liftP (parse_https_url url)) (\<lambda>(host, path). with_tls (demo_net reply) host (
        bindP (write_all (demo_net reply) (post_url_request host path ct bd)) (\<lambda>_.
        bindP (read_all (demo_net reply)) parse_response))) (x, c, f) = Some (Inr resp, (x, c, True))"
    using assms(2,3) by (simp add: with_tls_def tls_close_demo bindP_def demo_write_all parse_response_def demo_read_all [OF assms(1)])
  then show ?thesis
    by (simp add: https_post_url_def retry_transient_def retry_stop transient_def)
qed

end
