(* ===== verification/Posix_Files.thy ===== *)
theory Posix_Files
  imports Effects
begin

text \<open>
  The file operations of \<^verbatim>\<open>src/src/posix.cpp\<close>. The system calls are a record of
  functions on the world; a call returns an error number or its result. The loops around
  partial reads and writes, the clean-up on every exit and the order of the calls are those of
  the source. A loop whose system call is interrupted forever does not return.
\<close>

section \<open>System calls\<close>

datatype errno = EINTR | ENOENT | EINVAL | EEXIST | ENOTDIR | Eother nat

datatype open_mode =
    Open_RDWR
  | Open_RDWR_NOFOLLOW
  | Open_RDONLY
  | Open_CREAT_TRUNC nat
  | Open_CREAT_EXCL nat
  | Open_DIRECTORY

record stat_buf =
  st_dev :: nat
  st_ino :: nat
  st_uid :: nat
  st_gid :: nat
  st_mode :: "32 word"
  st_size :: nat

record 'w sys =
  strerror :: "errno \<Rightarrow> string"
  sys_open :: "open_mode \<Rightarrow> string \<Rightarrow> 'w \<Rightarrow> (errno + nat) \<times> 'w"
  sys_close :: "nat \<Rightarrow> 'w \<Rightarrow> (errno + unit) \<times> 'w"
  sys_write :: "nat \<Rightarrow> bytes \<Rightarrow> 'w \<Rightarrow> (errno + nat) \<times> 'w"
  sys_read :: "nat \<Rightarrow> nat \<Rightarrow> 'w \<Rightarrow> (errno + bytes) \<times> 'w"
  sys_pread :: "nat \<Rightarrow> nat \<Rightarrow> nat \<Rightarrow> 'w \<Rightarrow> (errno + bytes) \<times> 'w"
  sys_pwrite :: "nat \<Rightarrow> bytes \<Rightarrow> nat \<Rightarrow> 'w \<Rightarrow> (errno + nat) \<times> 'w"
  sys_ftruncate :: "nat \<Rightarrow> nat \<Rightarrow> 'w \<Rightarrow> (errno + unit) \<times> 'w"
  sys_fsync :: "nat \<Rightarrow> 'w \<Rightarrow> (errno + unit) \<times> 'w"
  sys_fstat :: "nat \<Rightarrow> 'w \<Rightarrow> (errno + stat_buf) \<times> 'w"
  sys_fchmod :: "nat \<Rightarrow> 32 word \<Rightarrow> 'w \<Rightarrow> (errno + unit) \<times> 'w"
  sys_fchown :: "nat \<Rightarrow> nat \<Rightarrow> nat \<Rightarrow> 'w \<Rightarrow> (errno + unit) \<times> 'w"
  sys_stat :: "string \<Rightarrow> 'w \<Rightarrow> (errno + stat_buf) \<times> 'w"
  sys_lstat :: "string \<Rightarrow> 'w \<Rightarrow> (errno + stat_buf) \<times> 'w"
  sys_rename :: "string \<Rightarrow> string \<Rightarrow> 'w \<Rightarrow> (errno + unit) \<times> 'w"
  sys_unlink :: "string \<Rightarrow> 'w \<Rightarrow> (errno + unit) \<times> 'w"
  sys_mkdir :: "string \<Rightarrow> nat \<Rightarrow> 'w \<Rightarrow> (errno + unit) \<times> 'w"
  sys_getenv :: "string \<Rightarrow> string option"

definition S_ISREG :: "32 word \<Rightarrow> bool" where
  "S_ISREG m \<longleftrightarrow> m AND 0xF000 = 0x8000"

definition perm_bits :: "32 word \<Rightarrow> 32 word" where
  "perm_bits m = m AND 0xFFF"

definition errno_msg :: "'w sys \<Rightarrow> string \<Rightarrow> string \<Rightarrow> errno \<Rightarrow> string" where
  "errno_msg sys op path e = op @ '' '' @ path @ '': '' @ strerror sys e"

text \<open>A call whose failure is thrown, one whose failure is ignored, and a scoped descriptor\<close>

definition callP :: "('w \<Rightarrow> (errno + 'a) \<times> 'w) \<Rightarrow> (errno \<Rightarrow> string) \<Rightarrow> ('w, 'a) prog" where
  "callP call msg w =
     (case call w of (Inl e, w') \<Rightarrow> Some (throw (msg e), w') | (Inr x, w') \<Rightarrow> Some (Inr x, w'))"

definition ignoreP :: "('w \<Rightarrow> (errno + 'a) \<times> 'w) \<Rightarrow> ('w, unit) prog" where
  "ignoreP call w = Some (Inr (), snd (call w))"

definition scopedP :: "'w sys \<Rightarrow> nat \<Rightarrow> ('w, 'a) prog \<Rightarrow> ('w, 'a) prog" where
  "scopedP sys fd m w =
     (case m w of None \<Rightarrow> None | Some (r, w') \<Rightarrow> Some (r, snd (sys_close sys fd w')))"

section \<open>Whole files\<close>

text \<open>
  The write loop of \<^verbatim>\<open>write_whole_file\<close> and
  \<^verbatim>\<open>atomic_write_private_file\<close>, which closes the descriptor before it throws
\<close>

partial_function (option) write_loop ::
    "'w sys \<Rightarrow> nat \<Rightarrow> string \<Rightarrow> bytes \<Rightarrow> 'w \<Rightarrow> (unit result \<times> 'w) option" where
  "write_loop sys fd path data w =
     (if data = [] then Some (Inr (), w)
      else case sys_write sys fd data w of
        (Inl e, w') \<Rightarrow>
          if e = EINTR then write_loop sys fd path data w'
          else Some (throw (errno_msg sys ''write'' path e), snd (sys_close sys fd w'))
      | (Inr n, w') \<Rightarrow> write_loop sys fd path (drop n data) w')"

definition write_whole_file :: "'w sys \<Rightarrow> string \<Rightarrow> bytes \<Rightarrow> ('w, unit) prog" where
  "write_whole_file sys path data =
     bindP (callP (sys_open sys (Open_CREAT_TRUNC 0x1A4) path) (errno_msg sys ''open(write)'' path)) (\<lambda>fd.
     bindP (write_loop sys fd path data) (\<lambda>_.
     callP (sys_close sys fd) (errno_msg sys ''close'' path)))"

definition atomic_write_private_file :: "'w sys \<Rightarrow> string \<Rightarrow> bytes \<Rightarrow> ('w, unit) prog" where
  "atomic_write_private_file sys path data =
     (let tmp = path @ ''.tmp'' in
      bindP (callP (sys_open sys (Open_CREAT_TRUNC 0x180) tmp) (errno_msg sys ''open(write)'' tmp)) (\<lambda>fd.
      bindP (write_loop sys fd tmp data) (\<lambda>_.
      bindP (ignoreP (sys_fsync sys fd)) (\<lambda>_.
      bindP (callP (sys_close sys fd) (errno_msg sys ''close'' tmp)) (\<lambda>_.
      callP (sys_rename sys tmp path) (errno_msg sys ''rename'' path))))))"

definition remove_file :: "'w sys \<Rightarrow> string \<Rightarrow> ('w, unit) prog" where
  "remove_file sys path w =
     (case sys_unlink sys path w of
        (Inl e, w') \<Rightarrow>
          if e \<noteq> ENOENT then Some (throw (errno_msg sys ''unlink'' path e), w') else Some (Inr (), w')
      | (Inr _, w') \<Rightarrow> Some (Inr (), w'))"

section \<open>Random access\<close>

definition file_size :: "'w sys \<Rightarrow> nat \<Rightarrow> string \<Rightarrow> ('w, nat) prog" where
  "file_size sys fd path =
     bindP (callP (sys_fstat sys fd) (errno_msg sys ''fstat'' path)) (\<lambda>st. retP (st_size st))"

partial_function (option) read_at_loop ::
    "'w sys \<Rightarrow> nat \<Rightarrow> string \<Rightarrow> nat \<Rightarrow> nat \<Rightarrow> bytes \<Rightarrow> 'w \<Rightarrow> (bytes result \<times> 'w) option" where
  "read_at_loop sys fd path offset len buf w =
     (if len = 0 then Some (Inr buf, w)
      else case sys_pread sys fd offset len w of
        (Inl e, w') \<Rightarrow>
          if e = EINTR then read_at_loop sys fd path offset len buf w'
          else Some (throw (errno_msg sys ''pread'' path e), w')
      | (Inr d, w') \<Rightarrow>
          if d = [] then Some (throw (''pread '' @ path @ '': unexpected EOF''), w')
          else read_at_loop sys fd path (offset + length d) (len - length d) (buf @ d) w')"

definition read_at :: "'w sys \<Rightarrow> nat \<Rightarrow> string \<Rightarrow> nat \<Rightarrow> nat \<Rightarrow> ('w, bytes) prog" where
  "read_at sys fd path offset len = read_at_loop sys fd path offset len []"

partial_function (option) write_at ::
    "'w sys \<Rightarrow> nat \<Rightarrow> string \<Rightarrow> nat \<Rightarrow> bytes \<Rightarrow> 'w \<Rightarrow> (unit result \<times> 'w) option" where
  "write_at sys fd path offset buf w =
     (if buf = [] then Some (Inr (), w)
      else case sys_pwrite sys fd buf offset w of
        (Inl e, w') \<Rightarrow>
          if e = EINTR then write_at sys fd path offset buf w'
          else Some (throw (errno_msg sys ''pwrite'' path e), w')
      | (Inr n, w') \<Rightarrow>
          if n = 0 then Some (throw (''pwrite '' @ path @ '': zero bytes written''), w')
          else write_at sys fd path (offset + n) (drop n buf) w')"

definition truncate_file :: "'w sys \<Rightarrow> nat \<Rightarrow> string \<Rightarrow> nat \<Rightarrow> ('w, unit) prog" where
  "truncate_file sys fd path new_size =
     callP (sys_ftruncate sys fd new_size) (errno_msg sys ''ftruncate'' path)"

definition flush_file :: "'w sys \<Rightarrow> nat \<Rightarrow> string \<Rightarrow> ('w, unit) prog" where
  "flush_file sys fd path w =
     (case sys_fsync sys fd w of
        (Inl e, w') \<Rightarrow>
          if e \<noteq> EINVAL then Some (throw (errno_msg sys ''fsync'' path e), w') else Some (Inr (), w')
      | (Inr _, w') \<Rightarrow> Some (Inr (), w'))"

section \<open>Copying and replacing\<close>

partial_function (option) copy_write_loop ::
    "'w sys \<Rightarrow> nat \<Rightarrow> string \<Rightarrow> bytes \<Rightarrow> 'w \<Rightarrow> (unit result \<times> 'w) option" where
  "copy_write_loop sys target to data w =
     (if data = [] then Some (Inr (), w)
      else case sys_write sys target data w of
        (Inl e, w') \<Rightarrow>
          if e = EINTR then copy_write_loop sys target to data w'
          else Some (throw (errno_msg sys ''write(copy)'' to e), w')
      | (Inr n, w') \<Rightarrow>
          if n = 0 then Some (throw (errno_msg sys ''write(copy)'' to (Eother 0)), w')
          else copy_write_loop sys target to (drop n data) w')"

partial_function (option) copy_loop ::
    "'w sys \<Rightarrow> nat \<Rightarrow> nat \<Rightarrow> string \<Rightarrow> string \<Rightarrow> 'w \<Rightarrow> (unit result \<times> 'w) option" where
  "copy_loop sys source target from to w =
     (case sys_read sys source 65536 w of
        (Inl e, w') \<Rightarrow>
          if e = EINTR then copy_loop sys source target from to w'
          else Some (throw (errno_msg sys ''read(copy)'' from e), w')
      | (Inr buf, w') \<Rightarrow>
          if buf = [] then Some (Inr (), w')
          else case copy_write_loop sys target to buf w' of
            None \<Rightarrow> None
          | Some (Inl e, w'') \<Rightarrow> Some (Inl e, w'')
          | Some (Inr _, w'') \<Rightarrow> copy_loop sys source target from to w'')"

text \<open>
  The target descriptor is closed explicitly at the end of the body, whose failure is then
  reported, and by its scope on every earlier exit, after the clean-up of the handler.
\<close>

definition copy_body :: "'w sys \<Rightarrow> nat \<Rightarrow> nat \<Rightarrow> stat_buf \<Rightarrow> string \<Rightarrow> string \<Rightarrow> ('w, unit) prog" where
  "copy_body sys source target st from to w =
     (case bindP (copy_loop sys source target from to) (\<lambda>_.
           callP (sys_fchmod sys target (perm_bits (st_mode st))) (errno_msg sys ''fchmod(copy)'' to)) w of
        None \<Rightarrow> None
      | Some (Inl e, w') \<Rightarrow>
          Some (Inl e, snd (sys_close sys target (snd (sys_unlink sys to w'))))
      | Some (Inr _, w') \<Rightarrow>
          (case sys_close sys target w' of
             (Inl e, w'') \<Rightarrow>
               Some (throw (errno_msg sys ''close(copy)'' to e), snd (sys_unlink sys to w''))
           | (Inr _, w'') \<Rightarrow> Some (Inr (), w'')))"

definition copy_file :: "'w sys \<Rightarrow> string \<Rightarrow> string \<Rightarrow> ('w, unit) prog" where
  "copy_file sys from to =
     bindP (callP (sys_open sys Open_RDONLY from) (errno_msg sys ''open(copy)'' from)) (\<lambda>source.
     scopedP sys source (
       bindP (callP (sys_fstat sys source) (errno_msg sys ''fstat'' from)) (\<lambda>st.
       bindP (checkP (S_ISREG (st_mode st)) (''copy '' @ from @ '': not a regular file'')) (\<lambda>_.
       bindP (callP (sys_open sys (Open_CREAT_EXCL 0x180) to) (errno_msg sys ''create(copy)'' to)) (\<lambda>target.
       copy_body sys source target st from to)))))"

text \<open>
  The directory of the destination is an argument: it is computed by
  \<^verbatim>\<open>std::filesystem\<close> and only used for a flush whose result is ignored.
\<close>

definition sync_directory :: "'w sys \<Rightarrow> string \<Rightarrow> ('w, unit) prog" where
  "sync_directory sys parent w =
     (case sys_open sys Open_DIRECTORY (if parent = [] then ''.'' else parent) w of
        (Inl _, w') \<Rightarrow> Some (Inr (), w')
      | (Inr fd, w') \<Rightarrow> Some (Inr (), snd (sys_close sys fd (snd (sys_fsync sys fd w')))))"

definition replace_body :: "'w sys \<Rightarrow> nat \<Rightarrow> stat_buf \<Rightarrow> string \<Rightarrow> string \<Rightarrow> string \<Rightarrow> ('w, unit) prog" where
  "replace_body sys stage original parent staged destination =
     bindP (callP (sys_fstat sys stage) (errno_msg sys ''fstat(replace)'' staged)) (\<lambda>st.
     bindP (checkP (S_ISREG (st_mode st)) (''replace '' @ staged @ '': not a regular file'')) (\<lambda>_.
     bindP (checkP (\<not> (st_dev original = st_dev st \<and> st_ino original = st_ino st))
              (''replace '' @ destination @ '': stage is the original file'')) (\<lambda>_.
     bindP (if st_uid st \<noteq> st_uid original \<or> st_gid st \<noteq> st_gid original
            then callP (sys_fchown sys stage (st_uid original) (st_gid original))
                   (errno_msg sys ''fchown(replace)'' staged)
            else retP ()) (\<lambda>_.
     bindP (callP (sys_fchmod sys stage (perm_bits (st_mode original)))
              (errno_msg sys ''fchmod(replace)'' staged)) (\<lambda>_.
     bindP (callP (sys_fsync sys stage) (errno_msg sys ''fsync(replace)'' staged)) (\<lambda>_.
     bindP (callP (sys_rename sys staged destination) (errno_msg sys ''rename(replace)'' destination)) (\<lambda>_.
     sync_directory sys parent)))))))"

definition atomic_replace_file :: "'w sys \<Rightarrow> string \<Rightarrow> string \<Rightarrow> string \<Rightarrow> ('w, unit) prog" where
  "atomic_replace_file sys parent staged destination =
     bindP (callP (sys_lstat sys destination) (errno_msg sys ''lstat(replace)'' destination)) (\<lambda>original.
     bindP (checkP (S_ISREG (st_mode original)) (''replace '' @ destination @ '': not a regular file'')) (\<lambda>_.
     bindP (callP (sys_open sys Open_RDWR_NOFOLLOW staged) (errno_msg sys ''open(replace)'' staged)) (\<lambda>stage.
     scopedP sys stage (replace_body sys stage original parent staged destination))))"

text \<open>The loop over both names: a missing file ends it with the answer no\<close>

definition stat_identity :: "'w sys \<Rightarrow> string \<Rightarrow> ('w, stat_buf option) prog" where
  "stat_identity sys path w =
     (case sys_stat sys path w of
        (Inl e, w') \<Rightarrow>
          if e = ENOENT \<or> e = ENOTDIR then Some (Inr None, w')
          else Some (throw (errno_msg sys ''stat(identity)'' path e), w')
      | (Inr st, w') \<Rightarrow> Some (Inr (Some st), w'))"

definition same_file :: "'w sys \<Rightarrow> string \<Rightarrow> string \<Rightarrow> ('w, bool) prog" where
  "same_file sys first second =
     bindP (stat_identity sys first) (\<lambda>a.
     case a of None \<Rightarrow> retP False
     | Some a \<Rightarrow> bindP (stat_identity sys second) (\<lambda>b.
         case b of None \<Rightarrow> retP False
         | Some b \<Rightarrow> retP (st_dev a = st_dev b \<and> st_ino a = st_ino b)))"

section \<open>What the calls do to the files\<close>

text \<open>
  A view of the world as a file system: the contents of the files by path, the path each
  descriptor was opened on, and a bound on how often a call may still be interrupted. The
  contract states the documented effect of the calls on it.
\<close>

record 'w fs_view =
  files :: "'w \<Rightarrow> (string \<rightharpoonup> bytes)"
  handle :: "'w \<Rightarrow> (nat \<rightharpoonup> string)"
  patience :: "'w \<Rightarrow> nat"

definition open_contract :: "'w sys \<Rightarrow> 'w fs_view \<Rightarrow> bool" where
  "open_contract sys fs \<longleftrightarrow> (\<forall>m p w. case sys_open sys m p w of
       (Inl _, w') \<Rightarrow> files fs w' = files fs w
     | (Inr fd, w') \<Rightarrow> handle fs w' fd = Some p \<and>
         files fs w' = (case m of Open_CREAT_TRUNC _ \<Rightarrow> (files fs w)(p \<mapsto> [])
                        | Open_CREAT_EXCL _ \<Rightarrow> (files fs w)(p \<mapsto> [])
                        | _ \<Rightarrow> files fs w))"

definition write_contract :: "'w sys \<Rightarrow> 'w fs_view \<Rightarrow> bool" where
  "write_contract sys fs \<longleftrightarrow> (\<forall>fd p c d w. handle fs w fd = Some p \<and> files fs w p = Some c \<and> d \<noteq> [] \<longrightarrow>
     (case sys_write sys fd d w of
        (Inl e, w') \<Rightarrow> files fs w' = files fs w \<and> handle fs w' fd = Some p \<and>
          (e = EINTR \<longrightarrow> patience fs w' < patience fs w)
      | (Inr n, w') \<Rightarrow> 0 < n \<and> n \<le> length d \<and> files fs w' = (files fs w)(p \<mapsto> c @ take n d) \<and>
          handle fs w' fd = Some p))"

definition quiet_call :: "'w fs_view \<Rightarrow> ('w \<Rightarrow> (errno + 'a) \<times> 'w) \<Rightarrow> bool" where
  "quiet_call fs call \<longleftrightarrow> (\<forall>w. files fs (snd (call w)) = files fs w)"

definition quiet_contract :: "'w sys \<Rightarrow> 'w fs_view \<Rightarrow> bool" where
  "quiet_contract sys fs \<longleftrightarrow>
     (\<forall>fd. quiet_call fs (sys_close sys fd) \<and> quiet_call fs (sys_fsync sys fd) \<and>
           quiet_call fs (sys_fstat sys fd)) \<and>
     (\<forall>fd m. quiet_call fs (sys_fchmod sys fd m)) \<and>
     (\<forall>fd u g. quiet_call fs (sys_fchown sys fd u g)) \<and>
     (\<forall>p. quiet_call fs (sys_lstat sys p) \<and> quiet_call fs (sys_stat sys p)) \<and>
     (\<forall>fd off n. quiet_call fs (sys_pread sys fd off n)) \<and> (\<forall>fd n. quiet_call fs (sys_read sys fd n))"

definition rename_contract :: "'w sys \<Rightarrow> 'w fs_view \<Rightarrow> bool" where
  "rename_contract sys fs \<longleftrightarrow> (\<forall>p q w. case sys_rename sys p q w of
       (Inl _, w') \<Rightarrow> files fs w' = files fs w
     | (Inr _, w') \<Rightarrow> files fs w' = (files fs w)(p := None, q := files fs w p))"

text \<open>Random access: a read returns a prefix of what follows the offset, and the size is that of the file\<close>

definition read_contract :: "'w sys \<Rightarrow> 'w fs_view \<Rightarrow> bool" where
  "read_contract sys fs \<longleftrightarrow> (\<forall>fd p c w. handle fs w fd = Some p \<and> files fs w p = Some c \<longrightarrow>
     (\<forall>off n. case sys_pread sys fd off n w of
        (Inl e, w') \<Rightarrow> files fs w' = files fs w \<and> handle fs w' fd = Some p \<and>
          (e = EINTR \<longrightarrow> patience fs w' < patience fs w)
      | (Inr d, w') \<Rightarrow> d = take (length d) (drop off c) \<and> length d \<le> n \<and>
          files fs w' = files fs w \<and> handle fs w' fd = Some p) \<and>
     (case sys_fstat sys fd w of
        (Inl _, w') \<Rightarrow> True
      | (Inr st, w') \<Rightarrow> st_size st = length c \<and> files fs w' = files fs w \<and> handle fs w' fd = Some p))"

definition fs_contract :: "'w sys \<Rightarrow> 'w fs_view \<Rightarrow> bool" where
  "fs_contract sys fs \<longleftrightarrow>
     open_contract sys fs \<and> write_contract sys fs \<and> quiet_contract sys fs \<and> rename_contract sys fs"

lemma returnsP_callP [wp]:
  "returnsP (callP call msg) Q w \<longleftrightarrow>
    (case call w of (Inl e, w') \<Rightarrow> Q (throw (msg e)) w' | (Inr x, w') \<Rightarrow> Q (Inr x) w')"
  by (auto simp: returnsP_def callP_def split: prod.splits sum.splits)

lemma returnsP_ignoreP [wp]: "returnsP (ignoreP call) Q w \<longleftrightarrow> Q (Inr ()) (snd (call w))"
  by (simp add: returnsP_def ignoreP_def)

lemma returnsP_scopedP [wp]:
  "returnsP (scopedP sys fd m) Q w \<longleftrightarrow> returnsP m (\<lambda>r w'. Q r (snd (sys_close sys fd w'))) w"
  by (auto simp: returnsP_def scopedP_def split: option.splits)

lemma quiet_callD:
  assumes "quiet_call fs call" "call w = (r, w')"
  shows "files fs w' = files fs w"
  using assms unfolding quiet_call_def by (metis snd_conv)

lemma returnsP_callP_quiet:
  "quiet_call fs call \<Longrightarrow> files fs u = F \<Longrightarrow> returnsP (callP call msg) (\<lambda>r w'. files fs w' = F) u"
  by (auto simp: wp quiet_call_def split: prod.splits sum.splits) (metis snd_conv)+

lemma write_loop_appends:
  assumes "write_contract sys fs" "quiet_contract sys fs" "handle fs w fd = Some p" "files fs w p = Some c"
  shows "returnsP (write_loop sys fd path data) (\<lambda>r w'. case r of
      Inr _ \<Rightarrow> files fs w' = (files fs w)(p \<mapsto> c @ data)
    | Inl _ \<Rightarrow> (\<exists>c'. files fs w' = (files fs w)(p \<mapsto> c'))) w"
  using assms(3,4)
proof (induction "(length data, patience fs w)" arbitrary: data w c
    rule: wf_induct_rule [OF wf_lex_prod [OF wf_less wf_less]])
  case less: 1
  show ?case
  proof (cases "data = []")
    case True
    with less.prems show ?thesis
      by (auto simp: returnsP_def write_loop.simps [of _ _ _ "[]"] map_upd_triv)
  next
    case False
    obtain r w1 where sw: "sys_write sys fd data w = (r, w1)" by fastforce
    note wc = assms(1) [unfolded write_contract_def, rule_format, of w fd p c data]
    show ?thesis
    proof (cases r)
      case (Inl e)
      with wc sw less.prems False have s: "files fs w1 = files fs w" "handle fs w1 fd = Some p"
        "e = EINTR \<Longrightarrow> patience fs w1 < patience fs w" by auto
      show ?thesis
      proof (cases "e = EINTR")
        case True
        with less.hyps [of data w1 c, unfolded s(1)] s less.prems sw Inl False show ?thesis
          by (simp add: returnsP_def write_loop.simps [of sys fd path data w])
      next
        case e: False
        obtain r2 w2 where cl: "sys_close sys fd w1 = (r2, w2)" by fastforce
        have "files fs w2 = files fs w1"
          using assms(2) cl by (auto simp: quiet_contract_def intro: quiet_callD)
        with e s less.prems sw Inl False cl show ?thesis
          by (auto simp: returnsP_def write_loop.simps [of sys fd path data w] map_upd_triv intro!: exI [of _ c])
      qed
    next
      case (Inr n)
      with wc sw less.prems False have n: "0 < n" "n \<le> length data"
        "files fs w1 = (files fs w)(p \<mapsto> c @ take n data)" "handle fs w1 fd = Some p" by auto
      have "length (drop n data) < length data" using n False by simp
      with less.hyps [of "drop n data" w1 "c @ take n data"] n
      have "returnsP (write_loop sys fd path (drop n data)) (\<lambda>r w'. case r of
          Inr _ \<Rightarrow> files fs w' = (files fs w)(p \<mapsto> c @ data)
        | Inl _ \<Rightarrow> (\<exists>c'. files fs w' = (files fs w)(p \<mapsto> c'))) w1"
        by (auto elim!: returnsP_weaken split: sum.splits)
      with sw Inr False show ?thesis
        by (simp add: returnsP_def write_loop.simps [of sys fd path data w])
    qed
  qed
qed

lemma atomic_replace_outcome:
  assumes "fs_contract sys fs"
  shows "returnsP (atomic_replace_file sys parent staged destination) (\<lambda>r w'. case r of
      Inr _ \<Rightarrow> files fs w' = (files fs w)(staged := None, destination := files fs w staged)
    | Inl _ \<Rightarrow> files fs w' = files fs w) w"
proof -
  from assms have c: "open_contract sys fs" "quiet_contract sys fs" "rename_contract sys fs"
    by (simp_all add: fs_contract_def)
  let ?F = "files fs w"
  let ?Q = "\<lambda>r w'. case r of
      Inr _ \<Rightarrow> files fs w' = ?F(staged := None, destination := ?F staged)
    | Inl _ \<Rightarrow> files fs w' = ?F"
  have quiet: "quiet_call fs (sys_close sys fd)" "quiet_call fs (sys_fsync sys fd)"
    "quiet_call fs (sys_fstat sys fd)" "quiet_call fs (sys_fchmod sys fd m)"
    "quiet_call fs (sys_fchown sys fd i j)" "quiet_call fs (sys_lstat sys p)"
    for fd m i j p using c(2) by (simp_all add: quiet_contract_def)
  have sync: "returnsP (sync_directory sys parent) ?Q u"
    if "files fs u = ?F(staged := None, destination := ?F staged)" for u
    using c(1) [unfolded open_contract_def, rule_format, where m = Open_DIRECTORY
        and p = "if parent = [] then ''.'' else parent" and w = u] that quiet(1,2)
    by (auto simp: returnsP_def sync_directory_def quiet_call_def split: prod.splits sum.splits)
  have commit: "returnsP (bindP (callP (sys_rename sys staged destination) msg) (\<lambda>_. sync_directory sys parent)) ?Q u"
    if "files fs u = ?F" for msg u
  proof (rule returnsP_bindI [where P = ?Q])
    show "returnsP (callP (sys_rename sys staged destination) msg) ?Q u"
      using c(3) [unfolded rename_contract_def, rule_format, where p = staged and q = destination and w = u] that
      by (auto simp: wp split: prod.splits sum.splits)
  qed (auto intro: sync)
  have body: "returnsP (replace_body sys fd original parent staged destination) ?Q u"
    if "files fs u = ?F" for fd original u
    unfolding replace_body_def
    by (rule commit
        | rule returnsP_bindI [where P = "\<lambda>r w'. files fs w' = ?F"]
        | rule returnsP_ifI returnsP_callP_quiet quiet that
        | (simp add: wp; fail) | assumption)+
  have scoped: "returnsP (scopedP sys fd (replace_body sys fd original parent staged destination)) ?Q u"
    if "files fs u = ?F" for fd original u
    unfolding returnsP_scopedP
    by (rule returnsP_weaken [OF body [OF that]])
      (use quiet(1) in \<open>auto simp: quiet_call_def split: sum.splits\<close>)
  have opened: "returnsP (callP (sys_open sys Open_RDWR_NOFOLLOW staged) msg) (\<lambda>r w'. files fs w' = ?F) u"
    if "files fs u = ?F" for msg u
    using c(1) [unfolded open_contract_def, rule_format, where m = Open_RDWR_NOFOLLOW and p = staged and w = u] that
    by (auto simp: wp split: prod.splits sum.splits)
  show ?thesis
    unfolding atomic_replace_file_def
    by (rule returnsP_bindI [where P = "\<lambda>r w'. files fs w' = ?F"]
        | rule scoped opened returnsP_callP_quiet quiet refl
        | (simp add: wp; fail) | assumption)+
qed

section \<open>Properties\<close>

text \<open>
  C13: \<^verbatim>\<open>atomic_write_private_file\<close> returns, and it is all or nothing: on success the
  file has exactly the new contents and the temporary file is gone; on any failure every file
  but the temporary one, the destination included, is as before. Partial and interrupted writes
  are covered.
\<close>

theorem atomic_write_all_or_nothing:
  assumes "fs_contract sys fs"
  shows "returnsP (atomic_write_private_file sys path data) (\<lambda>r w'. case r of
      Inr _ \<Rightarrow> files fs w' = (files fs w)(path \<mapsto> data, path @ ''.tmp'' := None)
    | Inl _ \<Rightarrow> files fs w' |` (- {path @ ''.tmp''}) = files fs w |` (- {path @ ''.tmp''})) w"
proof -
  let ?tmp = "path @ ''.tmp''"
  from assms have c: "open_contract sys fs" "write_contract sys fs" "quiet_contract sys fs"
    "rename_contract sys fs" by (simp_all add: fs_contract_def)
  obtain r1 w1 where o: "sys_open sys (Open_CREAT_TRUNC 0x180) ?tmp w = (r1, w1)" by fastforce
  note oc = c(1) [unfolded open_contract_def, rule_format, where m = "Open_CREAT_TRUNC 0x180" and p = ?tmp and w = w, unfolded o]
  show ?thesis
  proof (cases r1)
    case (Inl e)
    with oc show ?thesis
      by (simp add: atomic_write_private_file_def Let_def wp o)
  next
    case (Inr fd)
    with oc have h: "handle fs w1 fd = Some ?tmp" and f: "files fs w1 = (files fs w)(?tmp \<mapsto> [])"
      by simp_all
    have tail: "returnsP (bindP (ignoreP (sys_fsync sys fd)) (\<lambda>_.
        bindP (callP (sys_close sys fd) (errno_msg sys ''close'' ?tmp)) (\<lambda>_.
        callP (sys_rename sys ?tmp path) (errno_msg sys ''rename'' path)))) (\<lambda>r w'. case r of
          Inr _ \<Rightarrow> files fs w' = (files fs w)(path \<mapsto> data, ?tmp := None)
        | Inl _ \<Rightarrow> files fs w' |` (- {?tmp}) = files fs w |` (- {?tmp})) w2"
      if f2: "files fs w2 = (files fs w)(?tmp \<mapsto> data)" for w2
    proof -
      obtain r3 w3 where s3: "sys_fsync sys fd w2 = (r3, w3)" by fastforce
      obtain r4 w4 where s4: "sys_close sys fd w3 = (r4, w4)" by fastforce
      obtain r5 w5 where s5: "sys_rename sys ?tmp path w4 = (r5, w5)" by fastforce
      have f4: "files fs w4 = (files fs w)(?tmp \<mapsto> data)"
        using c(3) s3 s4 f2 by (simp add: quiet_contract_def) (metis quiet_callD)
      note rc = c(4) [unfolded rename_contract_def, rule_format, where p = ?tmp and q = path and w = w4, unfolded s5]
      have ne: "path \<noteq> ?tmp" by simp
      show ?thesis
        using rc f4 ne
        by (cases r4; cases r5) (auto simp: wp s3 s4 s5 fun_upd_twist [OF ne])
    qed
    have loop: "returnsP (write_loop sys fd ?tmp data) (\<lambda>r w'. case r of
        Inr _ \<Rightarrow> files fs w' = (files fs w1)(?tmp \<mapsto> [] @ data)
      | Inl _ \<Rightarrow> (\<exists>c'. files fs w' = (files fs w1)(?tmp \<mapsto> c'))) w1"
      by (rule write_loop_appends [OF c(2,3) h]) (simp add: f)
    have opened: "callP (sys_open sys (Open_CREAT_TRUNC 0x180) ?tmp) (errno_msg sys ''open(write)'' ?tmp) w
        = Some (Inr fd, w1)"
      by (simp add: callP_def o Inr)
    show ?thesis
      unfolding atomic_write_private_file_def Let_def 
        returnsP_bind_eq [where m = "callP (sys_open sys (Open_CREAT_TRUNC 0x180) ?tmp) (errno_msg sys ''open(write)'' ?tmp)"
          and w = w, OF opened]
      by (rule returnsP_bindI [OF loop]) (auto simp: f intro: tail)
  qed
qed

text \<open>
  A concrete file system: contents by path and open descriptors; a write takes at most four
  bytes, and every file has inode 0 unless it is the staged one.
\<close>

type_synonym sample_fs = "(string \<rightharpoonup> bytes) \<times> (nat \<rightharpoonup> string)"

definition sample_open :: "open_mode \<Rightarrow> string \<Rightarrow> sample_fs \<Rightarrow> (errno + nat) \<times> sample_fs" where
  "sample_open m p w =
     (case w of (fs, h) \<Rightarrow>
        case m of
          Open_CREAT_TRUNC _ \<Rightarrow> (Inr 3, (fs(p \<mapsto> []), h(3 \<mapsto> p)))
        | Open_CREAT_EXCL _ \<Rightarrow>
            if fs p = None then (Inr 4, (fs(p \<mapsto> []), h(4 \<mapsto> p))) else (Inl EEXIST, w)
        | _ \<Rightarrow> if fs p = None then (Inl ENOENT, w) else (Inr 5, (fs, h(5 \<mapsto> p))))"

definition sample_write :: "nat \<Rightarrow> bytes \<Rightarrow> sample_fs \<Rightarrow> (errno + nat) \<times> sample_fs" where
  "sample_write fd d w =
     (case w of (fs, h) \<Rightarrow>
        case h fd of
          None \<Rightarrow> (Inl (Eother 9), w)
        | Some p \<Rightarrow>
            (case fs p of
               None \<Rightarrow> (Inl (Eother 9), w)
             | Some c \<Rightarrow> (Inr (min 4 (length d)), (fs(p \<mapsto> c @ take 4 d), h))))"

definition sample_pread :: "nat \<Rightarrow> nat \<Rightarrow> nat \<Rightarrow> sample_fs \<Rightarrow> (errno + bytes) \<times> sample_fs" where
  "sample_pread fd off n w =
     (case snd w fd of
        None \<Rightarrow> (Inl (Eother 9), w)
      | Some p \<Rightarrow>
          (case fst w p of None \<Rightarrow> (Inl (Eother 9), w) | Some c \<Rightarrow> (Inr (take n (drop off c)), w)))"

definition sample_stat :: "string \<Rightarrow> sample_fs \<Rightarrow> (errno + stat_buf) \<times> sample_fs" where
  "sample_stat p w =
     (case fst w p of
        None \<Rightarrow> (Inl ENOENT, w)
      | Some c \<Rightarrow> (Inr \<lparr>st_dev = 1, st_ino = length p, st_uid = 0, st_gid = 0, st_mode = 0x81A4,
                        st_size = length c\<rparr>, w))"

definition sample_rename :: "string \<Rightarrow> string \<Rightarrow> sample_fs \<Rightarrow> (errno + unit) \<times> sample_fs" where
  "sample_rename p q w =
     (case w of (fs, h) \<Rightarrow>
        if fs p = None then (Inl ENOENT, w) else (Inr (), (fs(p := None, q := fs p), h)))"

definition sample_sys :: "sample_fs sys" where
  "sample_sys =
     \<lparr>strerror = (\<lambda>_. ''error''), sys_open = sample_open,
      sys_close = (\<lambda>fd w. (Inr (), w)), sys_write = sample_write,
      sys_read = (\<lambda>fd n w. (Inr [], w)), sys_pread = sample_pread,
      sys_pwrite = (\<lambda>fd d off w. (Inl (Eother 5), w)), sys_ftruncate = (\<lambda>fd n w. (Inr (), w)),
      sys_fsync = (\<lambda>fd w. (Inr (), w)),
      sys_fstat = (\<lambda>fd w. case snd w fd of None \<Rightarrow> (Inl (Eother 9), w) | Some p \<Rightarrow> sample_stat p w),
      sys_fchmod = (\<lambda>fd m w. (Inr (), w)), sys_fchown = (\<lambda>fd u g w. (Inr (), w)),
      sys_stat = sample_stat, sys_lstat = sample_stat, sys_rename = sample_rename,
      sys_unlink = (\<lambda>p w. (Inr (), ((fst w)(p := None), snd w))),
      sys_mkdir = (\<lambda>p m w. (Inr (), w)), sys_getenv = (\<lambda>n. if n = ''HOME'' then Some ''/h'' else None)\<rparr>"

definition sample_view :: "sample_fs fs_view" where
  "sample_view = \<lparr>files = fst, handle = snd, patience = (\<lambda>_. 0)\<rparr>"

lemma sample_fs_contract: "fs_contract sample_sys sample_view"
  unfolding fs_contract_def
proof (intro conjI)
  show "open_contract sample_sys sample_view"
    by (auto simp: open_contract_def sample_sys_def sample_view_def sample_open_def
        split: open_mode.splits)
  show "write_contract sample_sys sample_view"
    by (auto simp: write_contract_def sample_sys_def sample_view_def sample_write_def min_def)
  show "quiet_contract sample_sys sample_view"
    by (auto simp: quiet_contract_def quiet_call_def sample_sys_def sample_view_def sample_stat_def sample_pread_def
        split: option.splits)
  show "rename_contract sample_sys sample_view"
    by (auto simp: rename_contract_def sample_sys_def sample_view_def sample_rename_def)
qed

lemma sample_read_contract: "read_contract sample_sys sample_view"
  by (auto simp: read_contract_def sample_sys_def sample_view_def sample_pread_def sample_stat_def min_def)

theorem atomic_write_all_or_nothing_witness:
  "fs_contract sample_sys sample_view \<and>
   returnsP (atomic_write_private_file sample_sys ''cfg'' [1, 2, 3, 4, 5]) (\<lambda>r w'. case r of
      Inr _ \<Rightarrow> files sample_view w' = (files sample_view (Map.empty, Map.empty))(''cfg'' \<mapsto> [1, 2, 3, 4, 5], ''cfg'' @ ''.tmp'' := None)
    | Inl _ \<Rightarrow> files sample_view w' |` (- {''cfg'' @ ''.tmp''}) = files sample_view (Map.empty, Map.empty) |` (- {''cfg'' @ ''.tmp''}))
    (Map.empty, Map.empty)"
  using atomic_write_all_or_nothing [OF sample_fs_contract] sample_fs_contract by blast

text \<open>
  C12: \<^verbatim>\<open>atomic_replace_file\<close> returns, and it is all or nothing: on success the
  destination has the contents of the staged file, whose name is gone, and no other file has
  changed; whenever it throws, every file is as before, the destination included. Once the
  rename has happened nothing can turn the success into a failure.
\<close>

theorem atomic_replace_all_or_nothing:
  assumes "fs_contract sys fs"
  shows "returnsP (atomic_replace_file sys parent staged destination) (\<lambda>r w'. case r of
      Inr _ \<Rightarrow> files fs w' = (files fs w)(staged := None, destination := files fs w staged)
    | Inl _ \<Rightarrow> files fs w' = files fs w) w"
  by (rule atomic_replace_outcome [OF assms])

theorem atomic_replace_all_or_nothing_witness:
  "fs_contract sample_sys sample_view \<and>
   returnsP (atomic_replace_file sample_sys [] ''d/s'' ''app.exe'') (\<lambda>r w'. case r of
      Inr _ \<Rightarrow> files sample_view w' = (files sample_view ([''d/s'' \<mapsto> [7], ''app.exe'' \<mapsto> [1]], Map.empty))
          (''d/s'' := None, ''app.exe'' := files sample_view ([''d/s'' \<mapsto> [7], ''app.exe'' \<mapsto> [1]], Map.empty) ''d/s'')
    | Inl _ \<Rightarrow> files sample_view w' = files sample_view ([''d/s'' \<mapsto> [7], ''app.exe'' \<mapsto> [1]], Map.empty))
    ([''d/s'' \<mapsto> [7], ''app.exe'' \<mapsto> [1]], Map.empty)"
  using atomic_replace_all_or_nothing [OF sample_fs_contract] sample_fs_contract by blast

end
