(* ===== verification/Json.thy ===== *)
theory Json
  imports Prelude
begin

text \<open>
  The operations of the JSON library (nlohmann::json, not part of the sources) that the program
  calls, as a record of functions on a type \<open>'j\<close> of JSON values. The components take such a
  record as an argument; what a property needs of it is a hypothesis of the property.
  \<open>json_parse\<close> reads a whole text and \<open>json_read\<close> the front of a stream;
  \<open>json_value\<close> is \<^verbatim>\<open>j.value(key, default)\<close> on strings, \<open>json_get_string\<close> is
  \<^verbatim>\<open>j[key].get<std::string>()\<close>, \<open>json_set\<close> and \<open>json_set_int\<close> are
  \<^verbatim>\<open>j[key] = value\<close>. All but the last two may throw.
\<close>

record 'j json_lib =
  json_parse :: "string \<Rightarrow> 'j result"
  json_read :: "string \<Rightarrow> 'j result"
  json_dump :: "'j \<Rightarrow> string"
  json_dump_indent :: "nat \<Rightarrow> 'j \<Rightarrow> string"
  json_null :: 'j
  json_object :: 'j
  json_is_null :: "'j \<Rightarrow> bool"
  json_is_object :: "'j \<Rightarrow> bool"
  json_value :: "'j \<Rightarrow> string \<Rightarrow> string \<Rightarrow> string result"
  json_get_string :: "'j \<Rightarrow> string \<Rightarrow> string result"
  json_set :: "'j \<Rightarrow> string \<Rightarrow> string \<Rightarrow> 'j"
  json_set_int :: "'j \<Rightarrow> string \<Rightarrow> int \<Rightarrow> 'j"

text \<open>
  A concrete library for flat objects of strings: a value is an association list (\<open>None\<close> is
  null), and a text is one object with the printed form \<^verbatim>\<open>key=value;\<close>, for which
  reading inverts printing when neither separator occurs in a key or a value.
\<close>

type_synonym flat_json = "(string \<times> string) list option"

primrec split_on :: "char \<Rightarrow> string \<Rightarrow> string list" where
  "split_on c [] = [[]]"
| "split_on c (x # xs) =
     (if x = c then [] # split_on c xs
      else case split_on c xs of [] \<Rightarrow> [[x]] | y # ys \<Rightarrow> (x # y) # ys)"

definition flat_parse :: "string \<Rightarrow> flat_json result" where
  "flat_parse s =
     (if s = [] then Inl (Json_error ''parse error'')
      else Inr (Some (map (\<lambda>f. case split_on (CHR ''='') f of [] \<Rightarrow> ([], []) | [k] \<Rightarrow> (k, []) | k # v # _ \<Rightarrow> (k, v))
                        (filter (\<lambda>f. f \<noteq> []) (split_on (CHR '';'') s)))))"

definition flat_dump :: "flat_json \<Rightarrow> string" where
  "flat_dump j =
     (case j of None \<Rightarrow> ''null'' | Some kvs \<Rightarrow> concat (map (\<lambda>(k, v). k @ ''='' @ v @ '';'') kvs))"

definition flat_lib :: "flat_json json_lib" where
  "flat_lib =
     \<lparr>json_parse = flat_parse, json_read = flat_parse, json_dump = flat_dump, json_dump_indent = (\<lambda>_. flat_dump),
      json_null = None, json_object = Some [],
      json_is_null = (\<lambda>j. j = None), json_is_object = (\<lambda>j. j \<noteq> None),
      json_value = (\<lambda>j k d. case j of None \<Rightarrow> Inl (Json_error ''type error'')
                     | Some kvs \<Rightarrow> (case map_of kvs k of None \<Rightarrow> Inr d | Some v \<Rightarrow> Inr v)),
      json_get_string = (\<lambda>j k. case j of None \<Rightarrow> Inl (Json_error ''type error'')
                     | Some kvs \<Rightarrow> (case map_of kvs k of None \<Rightarrow> Inl (Json_error ''type error'') | Some v \<Rightarrow> Inr v)),
      json_set = (\<lambda>j k v. Some ((k, v) # filter (\<lambda>(k', _). k' \<noteq> k) (case j of None \<Rightarrow> [] | Some kvs \<Rightarrow> kvs))),
      json_set_int = (\<lambda>j k i. Some ((k, ''1'') # filter (\<lambda>(k', _). k' \<noteq> k) (case j of None \<Rightarrow> [] | Some kvs \<Rightarrow> kvs)))\<rparr>"

end
