(* ===== verification/Azure.thy ===== *)
theory Azure
  imports Json Http Base64
begin

text \<open>
  The signing service client of \<^verbatim>\<open>src/src/azure.cpp\<close>: the endpoint host, the signing
  request, and the polling loop with its clock. The clock counts nanoseconds.
\<close>

record AzureSignResult =
  signature :: bytes
  cert_chain_der :: bytes

definition endpoint_host :: "string \<Rightarrow> string" where
  "endpoint_host s =
     (let s = (case find_str s ''://'' 0 of None \<Rightarrow> s | Some scheme \<Rightarrow> drop (scheme + 3) s)
      in case find_char s (CHR ''/'') 0 of None \<Rightarrow> s | Some slash \<Rightarrow> take slash s)"

definition sign_path :: "string \<Rightarrow> string \<Rightarrow> string" where
  "sign_path account profile =
     ''/codesigningaccounts/'' @ account @ ''/certificateprofiles/'' @ profile @
     ''/sign?api-version=2022-06-15-preview''"

definition poll_path :: "string \<Rightarrow> string \<Rightarrow> string \<Rightarrow> string" where
  "poll_path account profile operation_id =
     ''/codesigningaccounts/'' @ account @ ''/certificateprofiles/'' @ profile @
     ''/sign/'' @ operation_id @ ''?api-version=2022-06-15-preview''"

definition http_failure :: "string \<Rightarrow> HttpResponse \<Rightarrow> string" where
  "http_failure label resp = label @ '' failed (HTTP '' @ to_string_int (status resp) @ ''): '' @ body resp"

text \<open>
  One iteration of the polling loop after the sleep: the request, its check, and the new body
  and status. Then the loop itself; the counter \<open>i\<close> gives the delay in milliseconds.
\<close>

definition poll_once :: "'w net \<Rightarrow> 'j json_lib \<Rightarrow> string \<Rightarrow> string \<Rightarrow> string \<Rightarrow> ('w, 'j \<times> string) prog" where
  "poll_once net json host path token =
     bindP (https_get net host path token) (\<lambda>poll.
     bindP (checkP (status poll = 200) (http_failure ''Azure sign poll'' poll)) (\<lambda>_.
     bindP (liftP (json_parse json (body poll))) (\<lambda>b.
     bindP (liftP (json_value json b ''status'' [])) (\<lambda>st. retP (b, st)))))"

definition poll_delay :: "nat \<Rightarrow> nat" where
  "poll_delay i = min 1000 (50 + 10 * i)"

partial_function (option) poll_loop ::
    "'w net \<Rightarrow> 'j json_lib \<Rightarrow> string \<Rightarrow> string \<Rightarrow> string \<Rightarrow> string \<Rightarrow> nat \<Rightarrow> nat \<Rightarrow> 'j \<Rightarrow> string \<Rightarrow> 'w \<Rightarrow>
     (('j \<times> string) result \<times> 'w) option" where
  "poll_loop net json host path token operation_id start i b st w =
     (if st \<noteq> ''InProgress'' then Some (Inr (b, st), w)
      else if 60000000000 < steady_now net w - start
      then Some (throw (''Azure signing operation '' @ operation_id @ '' timed out''), w)
      else case poll_once net json host path token (sleep_ms net (poll_delay i) w) of
        None \<Rightarrow> None
      | Some (Inl e, w') \<Rightarrow> Some (Inl e, w')
      | Some (Inr (b', st'), w') \<Rightarrow>
          poll_loop net json host path token operation_id start (i + 1) b' st' w')"

text \<open>The certificate is base64 of a text that is itself base64 of the chain\<close>

definition read_result :: "'j json_lib \<Rightarrow> 'j \<Rightarrow> AzureSignResult result" where
  "read_result json b =
     bindE (json_get_string json b ''signature'') (\<lambda>sig.
     bindE (json_get_string json b ''signingCertificate'') (\<lambda>cert.
     let pem_bytes = base64_decode cert;
         pem_text = string_of_bytes pem_bytes
     in Inr \<lparr>signature = base64_decode sig, cert_chain_der = base64_mime_decode pem_text\<rparr>))"

definition azure_sign ::
  "'w net \<Rightarrow> 'j json_lib \<Rightarrow> string \<Rightarrow> string \<Rightarrow> string \<Rightarrow> string \<Rightarrow> bytes \<Rightarrow> ('w, AzureSignResult) prog" where
  "azure_sign net json endpoint account profile token digest =
     (let host = endpoint_host endpoint;
          req_body = json_set json (json_set json (json_null json) ''signatureAlgorithm'' ''RS256'')
                       ''digest'' (base64_encode digest)
      in
      bindP (https_post net host (sign_path account profile) token (json_dump json req_body)) (\<lambda>resp.
      bindP (checkP (status resp = 200 \<or> status resp = 202) (http_failure ''Azure sign POST'' resp)) (\<lambda>_.
      bindP (liftP (json_parse json (body resp))) (\<lambda>b.
      bindP (liftP (json_value json b ''operationId'' [])) (\<lambda>operation_id.
      bindP (liftP (json_value json b ''status'' [])) (\<lambda>st.
      bindP (\<lambda>w. poll_loop net json host (poll_path account profile operation_id) token operation_id
                   (steady_now net w) 0 b st w) (\<lambda>(b, st).
      bindP (checkP (st = ''Succeeded'') (''Azure signing failed: '' @ st)) (\<lambda>_.
      liftP (read_result json b)))))))))"

section \<open>Lemmas\<close>

lemma endpoint_host_plain: "CHR ''/'' \<notin> set h \<Longrightarrow> index_of_str ''://'' h = None"
proof (rule ccontr)
  assume h: "CHR ''/'' \<notin> set h" and "index_of_str ''://'' h \<noteq> None"
  then obtain i where "index_of_str ''://'' h = Some i" by blast
  from index_of_str_SomeD [OF this] have "CHR ''/'' \<in> set (take (length ''://'') (drop i h))"
    by (simp only: list.set) simp
  with h show False by (meson in_set_dropD in_set_takeD)
qed

text \<open>
  What the polling loop needs of its surroundings: the clock never runs backwards, sleeping
  takes at least the given time, and a status request returns.
\<close>

definition clock_contract :: "'w net \<Rightarrow> string \<Rightarrow> string \<Rightarrow> string \<Rightarrow> bool" where
  "clock_contract net host path token \<longleftrightarrow>
     (\<forall>d w. steady_now net w + 1000000 * d \<le> steady_now net (sleep_ms net d w)) \<and>
     (\<forall>w. \<exists>r w'. https_get net host path token w = Some (r, w') \<and> steady_now net w \<le> steady_now net w')"

lemma poll_delay_pos: "0 < poll_delay i"
  by (simp add: poll_delay_def)

lemma poll_once_returns:
  assumes "clock_contract net host path token"
  shows "\<exists>r w'. poll_once net json host path token w = Some (r, w') \<and> steady_now net w \<le> steady_now net w'"
proof -
  obtain r w' where g: "https_get net host path token w = Some (r, w')" "steady_now net w \<le> steady_now net w'"
    using assms unfolding clock_contract_def by blast
  have "\<exists>r'. poll_once net json host path token w = Some (r', w')"
  proof (cases r)
    case (Inl e)
    with g show ?thesis by (simp add: poll_once_def bindP_def)
  next
    case (Inr poll)
    with g show ?thesis
      by (cases "json_parse json (body poll)"; cases "json_value json (projr (json_parse json (body poll))) ''status'' []")
        (auto simp: poll_once_def bindP_def checkE_def split: sum.splits)
  qed
  with g(2) show ?thesis by blast
qed

lemma base64_decode_encode: "base64_decode (base64_encode x) = x"
  using std.dec_enc by (simp add: base64_decode_def)

lemma base64_text_chain:
  assumes "filter (\<lambda>c. c \<in> set base64_table) pem = filter (\<lambda>c. c \<in> set base64_table) (base64_encode chain)"
  shows "base64_mime_decode pem = chain"
proof -
  have "base64_decode s = base64_decode (filter (\<lambda>c. c \<in> set base64_table) s)" for s
    unfolding base64_decode_def using decode_char_nonneg_iff
    by (subst std.decode_filter) simp
  then have "base64_mime_decode pem = base64_decode (base64_encode chain)"
    unfolding base64_mime_decode_def by (metis assms)
  then show ?thesis by (simp add: base64_decode_encode)
qed

section \<open>Properties\<close>

text \<open>
  \<^verbatim>\<open>endpoint_host\<close> accepts a bare host name and a URL: with or without a scheme,
  with or without a path, the result is the host.
\<close>

theorem endpoint_host_forms:
  assumes "CHR ''/'' \<notin> set host" "CHR '':'' \<notin> set scheme" "CHR '':'' \<notin> set host"
    and "path = [] \<or> hd path = CHR ''/''"
  shows "endpoint_host (scheme @ ''://'' @ host @ path) = host \<and> endpoint_host host = host"
proof -
  have "index_of_str ''://'' (scheme @ ''://'' @ host @ path) = Some (length scheme)"
    using index_of_str_hd [of "''://''" scheme "host @ path"] assms(2) by simp
  moreover have "(case index_of (CHR ''/'') (host @ path) of None \<Rightarrow> host @ path | Some s \<Rightarrow> take s (host @ path)) = host"
    using assms(1,4) by (cases path) (simp_all add: iffD2 [OF index_of_None_iff])
  ultimately have "endpoint_host (scheme @ ''://'' @ host @ path) = host"
    by (simp add: endpoint_host_def)
  moreover have "endpoint_host host = host"
    using endpoint_host_plain [OF assms(1)] assms(1)
    by (simp add: endpoint_host_def iffD2 [OF index_of_None_iff])
  ultimately show ?thesis by blast
qed

theorem endpoint_host_forms_witness:
  "endpoint_host (''https'' @ ''://'' @ ''eus.codesigning.azure.net'' @ ''/'') = ''eus.codesigning.azure.net'' \<and>
   endpoint_host ''eus.codesigning.azure.net'' = ''eus.codesigning.azure.net''"
  using endpoint_host_forms [of "''eus.codesigning.azure.net''" "''https''" "''/''"] by simp

text \<open>
  C21: polling ends. Given a clock that advances with every sleep and status requests that
  return, the loop returns with a final status or an exception from every state: a service that
  reports \<^verbatim>\<open>InProgress\<close> forever runs into the time-out.
\<close>

theorem poll_loop_returns:
  assumes "clock_contract net host path token"
  shows "\<exists>r w'. poll_loop net json host path token operation_id start i b st w = Some (r, w')"
proof (induction "start + 60000000001 - steady_now net w" arbitrary: i b st w rule: less_induct)
  case less
  show ?case
  proof (cases "st = ''InProgress'' \<and> \<not> 60000000000 < steady_now net w - start")
    case False
    then show ?thesis by (subst poll_loop.simps) auto
  next
    case True
    let ?w1 = "sleep_ms net (poll_delay i) w"
    have "steady_now net w + 1000000 * poll_delay i \<le> steady_now net ?w1"
      using assms by (simp add: clock_contract_def)
    then have s: "steady_now net w < steady_now net ?w1" using poll_delay_pos [of i] by linarith
    obtain r w2 where p: "poll_once net json host path token ?w1 = Some (r, w2)"
      "steady_now net ?w1 \<le> steady_now net w2"
      using poll_once_returns [OF assms] by blast
    have dec: "start + 60000000001 - steady_now net w2 < start + 60000000001 - steady_now net w"
      using s p(2) True by linarith
    show ?thesis
    proof (cases r)
      case (Inl e)
      with p(1) True show ?thesis by (subst poll_loop.simps) simp
    next
      case (Inr x)
      obtain b' st' where "x = (b', st')" by (cases x)
      with p(1) True Inr less [OF dec, of "i + 1" b' st'] show ?thesis
        by (subst poll_loop.simps) simp
    qed
  qed
qed

lemma poll_once_status:
  "poll_once net json host path token w = Some (Inr (b, st), w') \<Longrightarrow> json_value json b ''status'' [] = Inr st"
  by (auto simp: poll_once_def result_iff)

lemma poll_loop_status:
  assumes "poll_loop net json host path token operation_id start i b st w = Some rw"
  shows "json_value json b ''status'' [] = Inr st \<longrightarrow> (\<forall>b' st'. fst rw = Inr (b', st') \<longrightarrow>
    json_value json b' ''status'' [] = Inr st' \<and> st' \<noteq> ''InProgress'')"
proof (rule poll_loop.raw_induct [where P = "\<lambda>net json host path token operation_id start i b st w rw.
    json_value json b ''status'' [] = Inr st \<longrightarrow> (\<forall>b' st'. fst rw = Inr (b', st') \<longrightarrow>
      json_value json b' ''status'' [] = Inr st' \<and> st' \<noteq> ''InProgress'')", OF _ assms], goal_cases)
  case (1 f net json host path token operation_id start i b st w rw)
  note IH = 1(1) and eq = 1(2)
  show ?case
  proof (cases "st \<noteq> ''InProgress'' \<or> 60000000000 < steady_now net w - start")
    case True
    with eq show ?thesis by (auto split: if_splits)
  next
    case False
    with eq obtain r w1 where p: "poll_once net json host path token (sleep_ms net (poll_delay i) w) = Some (r, w1)"
      by (auto split: option.splits)
    show ?thesis
    proof (cases r)
      case (Inl e)
      with eq False p show ?thesis by auto
    next
      case (Inr x)
      obtain b1 st1 where x: "x = (b1, st1)" by (cases x)
      with eq False p Inr have "f net json host path token operation_id start (i + 1) b1 st1 w1 = Some rw" by simp
      from IH [OF this] poll_once_status [OF p [unfolded Inr x]] show ?thesis by blast
    qed
  qed
qed


text \<open>
  The round trip with the service. When the service accepts the request and answers at once
  that it succeeded, with the signature in base64 and the certificate chain as base64 of a text
  whose base64 characters encode the chain, whatever line breaks and padding it has,
  \<^verbatim>\<open>azure_sign\<close> returns exactly that signature and that chain.
\<close>

theorem azure_sign_roundtrip:
  assumes post: "https_post net (endpoint_host endpt) (sign_path acct prof) token
      (json_dump json (json_set json (json_set json (json_null json) ''signatureAlgorithm'' ''RS256'')
        ''digest'' (base64_encode digest))) w = Some (Inr resp, w')"
    and "status resp \<in> {200, 202}" "json_parse json (body resp) = Inr b"
    and "json_value json b ''operationId'' [] = Inr opid"
    and "json_value json b ''status'' [] = Inr ''Succeeded''"
    and "json_get_string json b ''signature'' = Inr (base64_encode sig)"
    and "json_get_string json b ''signingCertificate'' = Inr (base64_encode (bytes_of_string pem))"
    and pem: "filter (\<lambda>c. c \<in> set base64_table) pem = filter (\<lambda>c. c \<in> set base64_table) (base64_encode chain)"
  shows "azure_sign net json endpt acct prof token digest w
    = Some (Inr \<lparr>signature = sig, cert_chain_der = chain\<rparr>, w')"
proof -
  have "read_result json b = Inr \<lparr>signature = sig, cert_chain_der = chain\<rparr>"
    using assms(6,7) base64_text_chain [OF pem] by (simp add: read_result_def base64_decode_encode)
  with assms(2-5) show ?thesis
    unfolding azure_sign_def Let_def
    by (auto simp: bindP_def post poll_loop.simps)
qed

section \<open>Witnesses\<close>

definition demo_success :: string where
  "demo_success = ''status=Succeeded;signature=AQID;signingCertificate=TUFFQQ0K;''"

lemma demo_plain: "\<not> chunked (demo_reply ''status=InProgress;'')" "\<not> chunked (demo_reply demo_success)"
  by code_simp+

lemma demo_encodings:
  "base64_encode [1, 2, 3] = ''AQID''"
  "base64_encode (bytes_of_string (''MAEA'' @ crlf)) = ''TUFFQQ0K''"
  "base64_encode [0x30, 1, 0] = ''MAEA''"
  by code_simp+

theorem poll_loop_returns_witness:
  "clock_contract (demo_net (demo_reply ''status=InProgress;'')) ''h'' ''/p'' ''t'' \<and>
   (\<exists>r w'. poll_loop (demo_net (demo_reply ''status=InProgress;'')) flat_lib ''h'' ''/p'' ''t'' ''7'' 0 0
      (Some []) ''InProgress'' ((), 0, False) = Some (r, w'))"
proof -
  let ?reply = "demo_reply ''status=InProgress;''"
  have "?reply \<noteq> []" by (simp add: demo_reply_def)
  note g = demo_https(1) [OF this demo_reply_parse [OF demo_plain(1)], of "''h''" "''/p''" "''t''"]
  have c: "clock_contract (demo_net ?reply) ''h'' ''/p'' ''t''"
    unfolding clock_contract_def
  proof (intro conjI allI)
    show "steady_now (demo_net ?reply) w + 1000000 * d \<le> steady_now (demo_net ?reply) (sleep_ms (demo_net ?reply) d w)" for d w
      by (cases w) (simp add: demo_net_def)
    show "\<exists>r w'. https_get (demo_net ?reply) ''h'' ''/p'' ''t'' w = Some (r, w') \<and>
        steady_now (demo_net ?reply) w \<le> steady_now (demo_net ?reply) w'" for w
      by (cases w) (simp add: g, simp add: demo_net_def)
  qed
  show ?thesis by (rule conjI [OF c poll_loop_returns [OF c]])
qed

abbreviation demo_body :: flat_json where
  "demo_body \<equiv> Some [(''status'', ''Succeeded''), (''signature'', ''AQID''), (''signingCertificate'', ''TUFFQQ0K'')]"

lemma demo_fields: "json_parse flat_lib demo_success = Inr demo_body"
  by code_simp

lemma demo_values:
  "json_value flat_lib demo_body ''operationId'' [] = Inr []"
  "json_value flat_lib demo_body ''status'' [] = Inr ''Succeeded''"
  "json_get_string flat_lib demo_body ''signature'' = Inr ''AQID''"
  "json_get_string flat_lib demo_body ''signingCertificate'' = Inr ''TUFFQQ0K''"
  by (simp_all add: flat_lib_def)

lemma demo_filter:
  "filter (\<lambda>c. c \<in> set base64_table) (''MAEA'' @ crlf) = filter (\<lambda>c. c \<in> set base64_table) (base64_encode [0x30, 1, 0])"
  by code_simp

lemma demo_post:
  "https_post (demo_net (demo_reply demo_success)) host path token bd (x, c, f)
    = Some (Inr \<lparr>status = 200, body = demo_success\<rparr>, (x, c, True))"
  by (rule demo_https(2) [OF _ demo_reply_parse [OF demo_plain(2)]]) (simp add: demo_reply_def)

lemma demo_azure_sign:
  "\<exists>res. azure_sign (demo_net (demo_reply demo_success)) flat_lib ''https://h/'' ''a'' ''p'' ''t'' [9] ((), 0, False)
    = Some (Inr res, ((), 0, True))"
  unfolding azure_sign_def Let_def
  by (simp add: bindP_def demo_post demo_fields demo_values poll_loop.simps read_result_def)


theorem azure_sign_roundtrip_witness:
  "azure_sign (demo_net (demo_reply demo_success)) flat_lib ''https://h/'' ''a'' ''p'' ''t'' [9] ((), 0, False)
    = Some (Inr \<lparr>signature = [1, 2, 3], cert_chain_der = [0x30, 1, 0]\<rparr>, ((), 0, True))"
  by (rule azure_sign_roundtrip [OF demo_post _ _ demo_values(1,2) _ _ demo_filter])
    (simp_all only: HttpResponse.simps demo_fields demo_values demo_encodings insert_iff simp_thms)

end
