(* ===== verification/Oidc.thy ===== *)
theory Oidc
  imports Json Http Urlenc
begin

text \<open>
  The GitHub Actions flow of \<^verbatim>\<open>src/src/oidc.cpp\<close>: a workflow identity token is minted
  and exchanged for an access token of the signing service.
\<close>

record OidcRuntime =
  request_url :: string
  request_token :: string

definition oidc_runtime :: "(string \<Rightarrow> string option) \<Rightarrow> OidcRuntime" where
  "oidc_runtime getenv =
     \<lparr>request_url = (case getenv ''ACTIONS_ID_TOKEN_REQUEST_URL'' of None \<Rightarrow> [] | Some u \<Rightarrow> u),
      request_token = (case getenv ''ACTIONS_ID_TOKEN_REQUEST_TOKEN'' of None \<Rightarrow> [] | Some t \<Rightarrow> t)\<rparr>"

definition oidc_missing :: string where
  "oidc_missing =
     ''OIDC requested but ACTIONS_ID_TOKEN_REQUEST_URL/'' @
     ''ACTIONS_ID_TOKEN_REQUEST_TOKEN are not set.  This flow only '' @
     ''works inside a GitHub Actions runner with id-token: write '' @
     ''permission.  On a laptop, use --token or $AZURE_ACCESS_TOKEN.''"

definition mint_url :: "string \<Rightarrow> string" where
  "mint_url url =
     url @ (if find_char url (CHR ''?'') 0 = None then ''?'' else ''&'') @
     ''audience=api%3A%2F%2FAzureADTokenExchange''"

definition oidc_add :: "string \<Rightarrow> string \<Rightarrow> string \<Rightarrow> string" where
  "oidc_add form k v = (if form \<noteq> [] then form @ ''&'' else form) @ k @ ''='' @ url_encode v"

definition oidc_form :: "string \<Rightarrow> string \<Rightarrow> string" where
  "oidc_form client_id jwt =
     (let form = oidc_add [] ''client_id'' client_id;
          form = oidc_add form ''scope'' ''https://codesigning.azure.net/.default'';
          form = oidc_add form ''client_assertion_type''
                   ''urn:ietf:params:oauth:client-assertion-type:jwt-bearer'';
          form = oidc_add form ''client_assertion'' jwt
      in oidc_add form ''grant_type'' ''client_credentials'')"

text \<open>\<^verbatim>\<open>json::parse(text).value(key, "")\<close>, whose exceptions are rethrown with a label\<close>

definition json_field :: "'j json_lib \<Rightarrow> string \<Rightarrow> string \<Rightarrow> string \<Rightarrow> ('w, string) prog" where
  "json_field json label text key =
     catchP (liftP (bindE (json_parse json text) (\<lambda>j. json_value json j key [])))
       (\<lambda>e. throwP (label @ what e))"

definition oidc_fetch_azure_token ::
  "'w net \<Rightarrow> 'j json_lib \<Rightarrow> OidcRuntime \<Rightarrow> string \<Rightarrow> string \<Rightarrow> ('w, string) prog" where
  "oidc_fetch_azure_token net json r client_id tenant_id =
     bindP (checkP (\<not> (request_url r = [] \<or> request_token r = [])) oidc_missing) (\<lambda>_.
     bindP (https_get_url net (mint_url (request_url r)) (request_token r)) (\<lambda>github.
     bindP (checkP (status github = 200)
              (''GitHub OIDC mint failed (HTTP '' @ to_string_int (status github) @ ''): '' @ body github)) (\<lambda>_.
     bindP (json_field json ''GitHub OIDC response not JSON: '' (body github) ''value'') (\<lambda>jwt.
     bindP (checkP (jwt \<noteq> []) ''GitHub OIDC response missing `value' field'') (\<lambda>_.
     bindP (https_post_url net
              (''https://login.microsoftonline.com/'' @ tenant_id @ ''/oauth2/v2.0/token'')
              ''application/x-www-form-urlencoded'' (oidc_form client_id jwt)) (\<lambda>az.
     bindP (checkP (status az = 200)
              (''Azure token exchange failed (HTTP '' @ to_string_int (status az) @ ''): '' @ body az)) (\<lambda>_.
     bindP (json_field json ''Azure token response not JSON: '' (body az) ''access_token'') (\<lambda>token.
     bindP (checkP (token \<noteq> []) ''Azure token response missing `access_token' field'') (\<lambda>_.
     retP token)))))))))"

lemma oidc_form_form_encode:
  "oidc_form client_id jwt = form_encode
     [(''client_id'', client_id), (''scope'', ''https://codesigning.azure.net/.default''),
      (''client_assertion_type'', ''urn:ietf:params:oauth:client-assertion-type:jwt-bearer''),
      (''client_assertion'', jwt), (''grant_type'', ''client_credentials'')]"
  by (simp add: oidc_form_def oidc_add_def form_encode_Cons Let_def)

text \<open>
  The token request of the workflow flow is the form encoding of its five fields, built by
  a routine of its own: whoever decodes the body gets the client, the fixed scope and grant
  type, and the identity token, whatever characters these have.
\<close>

theorem oidc_form_decodes:
  "parse_query (''/?'' @ oidc_form client_id jwt) =
     [''client_id'' \<mapsto> client_id, ''scope'' \<mapsto> ''https://codesigning.azure.net/.default'',
      ''client_assertion_type'' \<mapsto> ''urn:ietf:params:oauth:client-assertion-type:jwt-bearer'',
      ''client_assertion'' \<mapsto> jwt, ''grant_type'' \<mapsto> ''client_credentials'']"
proof -
  let ?ps = "[(''client_id'', client_id), (''scope'', ''https://codesigning.azure.net/.default''),
      (''client_assertion_type'', ''urn:ietf:params:oauth:client-assertion-type:jwt-bearer''),
      (''client_assertion'', jwt), (''grant_type'', ''client_credentials'')]"
  have "query_loop (form_encode ?ps) Map.empty = map_of (rev ?ps)"
    by (subst query_loop_form) (simp_all add: plain_key_def)
  then show ?thesis
    by (simp add: oidc_form_form_encode parse_query_def substr_from_def)
qed

text \<open>
  C22: \<^verbatim>\<open>oidc_fetch_azure_token\<close> never returns an empty token, and never talks to the
  network outside a runner: without the two variables it throws at once, with the world as it
  was.
\<close>

theorem oidc_fetch_guarded:
  "oidc_fetch_azure_token net json r client_id tenant_id w \<noteq> Some (Inr [], w') \<and>
   oidc_fetch_azure_token net json (r\<lparr>request_url := []\<rparr>) client_id tenant_id w = Some (throw oidc_missing, w) \<and>
   oidc_fetch_azure_token net json (r\<lparr>request_token := []\<rparr>) client_id tenant_id w = Some (throw oidc_missing, w)"
proof (intro conjI)
  show "oidc_fetch_azure_token net json r client_id tenant_id w \<noteq> Some (Inr [], w')"
    by (auto simp: oidc_fetch_azure_token_def result_iff simp del: prog_simps)
qed (simp_all add: oidc_fetch_azure_token_def)

end
