(* ===== verification/Posix_Shell.thy ===== *)
theory Posix_Shell
  imports Posix_Files Http
begin

text \<open>
  The rest of the platform layer of \<^verbatim>\<open>src/src/posix.cpp\<close> that has logic of its own: the
  configuration directory, the search for an executable, the environment and the captured output
  of a companion process, temporary directories, and the start of a browser. The loopback server
  of a login is in \<open>Loopback\<close>, the TLS connection in \<open>Tls\<close>.
\<close>

section \<open>What lies below\<close>

text \<open>
  \<open>access_x\<close> is \<^verbatim>\<open>access(path, X_OK) == 0\<close>, \<open>absolute_path\<close> the function of that name
  over \<^verbatim>\<open>std::filesystem\<close>, \<open>temp_directory_path\<close> and \<open>remove_all\<close> are the
  library functions of these names, \<open>environ\<close> is the environment as a list of entries. For a
  companion process, \<open>sh_pipe\<close> makes the pipe, \<open>dupfd3\<close> is \<^verbatim>\<open>fcntl(fd, F_DUPFD_CLOEXEC, 3)\<close>,
  \<open>actions_init\<close>, \<open>actions_add\<close>, \<open>attr_init\<close> and \<open>posix_spawn\<close> are the spawn interface,
  \<open>child_read\<close> is a read from the pipe, \<open>child_wait\<close> the wait for the status, \<open>child_kill\<close> the
  kill; the \<open>lb\<close> functions are the system calls of the loopback server, with the loopback address
  and port 0 for \<open>lb_bind\<close>, and \<open>lb_client\<close> is the member of the server object that holds the
  client socket. \<open>sh_fork\<close> starts a child that tries the given programs with their arguments in
  turn and exits with 127 when none of them can be executed.
\<close>

datatype file_action =
    Add_open nat string
  | Add_dup2 nat nat
  | Add_close nat
  | Add_closefrom nat

datatype wait_status = Exited int | Signaled int

record 'w shell =
  sh_net :: "'w net"
  sh_sys :: "'w sys"
  write_stdout :: "string \<Rightarrow> 'w \<Rightarrow> 'w"
  read_text :: "string \<Rightarrow> 'w \<Rightarrow> string option"
  access_x :: "string \<Rightarrow> 'w \<Rightarrow> bool"
  absolute_path :: "string \<Rightarrow> 'w \<Rightarrow> string result"
  environ :: "string list"
  sh_pipe :: "'w \<Rightarrow> (errno + nat \<times> nat) \<times> 'w"
  dupfd3 :: "nat \<Rightarrow> 'w \<Rightarrow> (errno + nat) \<times> 'w"
  actions_init :: "'w \<Rightarrow> (errno + unit) \<times> 'w"
  actions_add :: "file_action \<Rightarrow> 'w \<Rightarrow> (errno + unit) \<times> 'w"
  attr_init :: "'w \<Rightarrow> (errno + unit) \<times> 'w"
  posix_spawn :: "string \<Rightarrow> file_action list \<Rightarrow> string list \<Rightarrow> string list \<Rightarrow> 'w \<Rightarrow> (errno + unit) \<times> 'w"
  child_read :: "nat \<Rightarrow> nat \<Rightarrow> 'w \<Rightarrow> (errno + string) \<times> 'w"
  child_kill :: "'w \<Rightarrow> 'w"
  child_wait :: "'w \<Rightarrow> (errno + wait_status) \<times> 'w"
  sh_readlink :: "string \<Rightarrow> nat \<Rightarrow> 'w \<Rightarrow> (errno + string) \<times> 'w"
  temp_directory_path :: "'w \<Rightarrow> (string + string) \<times> 'w"
  mkdtemp :: "string \<Rightarrow> 'w \<Rightarrow> (errno + string) \<times> 'w"
  remove_all :: "string \<Rightarrow> 'w \<Rightarrow> 'w"
  rand32 :: "'w \<Rightarrow> 32 word \<times> 'w"
  sh_sha256 :: "bytes \<Rightarrow> bytes"
  sh_fork :: "(string \<times> string list) list \<Rightarrow> 'w \<Rightarrow> (errno + unit) \<times> 'w"
  lb_socket :: "'w \<Rightarrow> (errno + nat) \<times> 'w"
  lb_reuse_address :: "nat \<Rightarrow> 'w \<Rightarrow> 'w"
  lb_bind :: "nat \<Rightarrow> 'w \<Rightarrow> (errno + unit) \<times> 'w"
  lb_getsockname :: "nat \<Rightarrow> 'w \<Rightarrow> (errno + nat) \<times> 'w"
  lb_listen :: "nat \<Rightarrow> 'w \<Rightarrow> (errno + unit) \<times> 'w"
  lb_accept :: "nat \<Rightarrow> 'w \<Rightarrow> (errno + nat) \<times> 'w"
  lb_read :: "nat \<Rightarrow> nat \<Rightarrow> 'w \<Rightarrow> (errno + string) \<times> 'w"
  lb_write :: "nat \<Rightarrow> string \<Rightarrow> 'w \<Rightarrow> (errno + nat) \<times> 'w"
  lb_close :: "nat \<Rightarrow> 'w \<Rightarrow> 'w"
  lb_client :: "'w \<Rightarrow> nat option"
  set_lb_client :: "nat option \<Rightarrow> 'w \<Rightarrow> 'w"

section \<open>Directories and files\<close>

definition config_base :: "'w sys \<Rightarrow> string result" where
  "config_base sys =
     (case sys_getenv sys ''XDG_CONFIG_HOME'' of
        Some xdg \<Rightarrow> if xdg \<noteq> [] then Inr xdg else
          (case sys_getenv sys ''HOME'' of
             Some home \<Rightarrow> if home \<noteq> [] then Inr (home @ ''/.config'')
               else throw ''cannot determine config dir: neither XDG_CONFIG_HOME nor HOME set''
           | None \<Rightarrow> throw ''cannot determine config dir: neither XDG_CONFIG_HOME nor HOME set'')
      | None \<Rightarrow>
          (case sys_getenv sys ''HOME'' of
             Some home \<Rightarrow> if home \<noteq> [] then Inr (home @ ''/.config'')
               else throw ''cannot determine config dir: neither XDG_CONFIG_HOME nor HOME set''
           | None \<Rightarrow> throw ''cannot determine config dir: neither XDG_CONFIG_HOME nor HOME set''))"

definition config_dir :: "'w sys \<Rightarrow> ('w, string) prog" where
  "config_dir sys =
     bindP (liftP (config_base sys)) (\<lambda>base.
     bindP (ignoreP (sys_mkdir sys base 0x1C0)) (\<lambda>_.
     let dir = base @ ''/aas-sign'' in
     (\<lambda>w. case sys_mkdir sys dir 0x1C0 w of
        (Inl e, w') \<Rightarrow>
          if e \<noteq> EEXIST then Some (throw (''mkdir '' @ dir @ '': '' @ strerror sys e), w')
          else Some (Inr dir, w')
      | (Inr _, w') \<Rightarrow> Some (Inr dir, w'))))"

section \<open>Companion processes\<close>

definition is_executable :: "'w shell \<Rightarrow> string \<Rightarrow> 'w \<Rightarrow> bool \<times> 'w" where
  "is_executable sh path w =
     (case sys_stat (sh_sys sh) path w of
        (Inl _, w') \<Rightarrow> (False, w')
      | (Inr st, w') \<Rightarrow> (S_ISREG (st_mode st) \<and> access_x sh path w', w'))"

definition private_environment :: "string \<Rightarrow> bool" where
  "private_environment name \<longleftrightarrow>
     starts_with name ''AZURE_'' \<or> starts_with name ''ACTIONS_ID_TOKEN_'' \<or>
     name = ''GH_TOKEN'' \<or> name = ''GITHUB_TOKEN'' \<or> name = ''INPUT_TOKEN'' \<or>
     name = ''GH_ENTERPRISE_TOKEN'' \<or> name = ''GITHUB_ENTERPRISE_TOKEN''"

definition path_candidate :: "string \<Rightarrow> string \<Rightarrow> string" where
  "path_candidate dir name = (if dir = [] then ''.'' else dir) @ ''/'' @ name"

text \<open>The loop over the components of \<^verbatim>\<open>PATH\<close>, on the rest of the list\<close>

function path_loop :: "'w shell \<Rightarrow> string \<Rightarrow> string \<Rightarrow> 'w \<Rightarrow> string result \<times> 'w" where
  "path_loop sh name path w =
     (let last = index_of (CHR '':'') path;
          dir = (case last of None \<Rightarrow> path | Some i \<Rightarrow> take i path);
          candidate = path_candidate dir name
      in case is_executable sh candidate w of
           (True, w') \<Rightarrow> (absolute_path sh candidate w', w')
         | (False, w') \<Rightarrow>
             (case last of
                None \<Rightarrow> (throw (''find executable '' @ name @ '': not found on PATH''), w')
              | Some i \<Rightarrow> path_loop sh name (drop (i + 1) path) w'))"
  by pat_completeness auto
termination
  by (relation "measure (\<lambda>(sh, name, path, w). length path)") (auto dest!: index_of_SomeD [OF sym])

declare path_loop.simps [simp del]

definition find_executable :: "'w shell \<Rightarrow> string \<Rightarrow> 'w \<Rightarrow> string result \<times> 'w" where
  "find_executable sh name w =
     (if name = [] \<or> CHR 0x00 \<in> set name then (throw ''find executable: empty or invalid name'', w)
      else if find_char name (CHR ''/'') 0 \<noteq> None then
        (case is_executable sh name w of
           (True, w') \<Rightarrow> (absolute_path sh name w', w')
         | (False, w') \<Rightarrow> (throw (''find executable '' @ name @ '': not an executable file''), w'))
      else
        path_loop sh name (case sys_getenv (sh_sys sh) ''PATH'' of None \<Rightarrow> ''/usr/bin:/bin'' | Some env \<Rightarrow> env) w)"

definition env_name :: "string \<Rightarrow> string" where
  "env_name entry = (case index_of (CHR ''='') entry of None \<Rightarrow> entry | Some i \<Rightarrow> substr entry 0 i)"

definition child_environment :: "string list \<Rightarrow> string list" where
  "child_environment entries = filter (\<lambda>value. \<not> private_environment (env_name value)) entries"

definition output_limit :: nat where
  "output_limit = 1024 * 1024"

record ProcessResult =
  exit_code :: int
  captured :: string

text \<open>
  The set-up of the child: the pipe, whose ends are moved above the standard descriptors, the
  file actions, and the spawn. A descriptor held by a \<^verbatim>\<open>ScopedFd\<close> is closed when an
  exception leaves the function. (The mutex around the set-up orders concurrent callers and has
  no counterpart here; the actions are those of a GNU libc from 2.34 on.)
\<close>

definition closing :: "'w sys \<Rightarrow> nat list \<Rightarrow> ('w, 'a) prog \<Rightarrow> ('w, 'a) prog" where
  "closing sys fds m w =
     (case m w of
        None \<Rightarrow> None
      | Some (Inl e, w') \<Rightarrow> Some (Inl e, fold (\<lambda>fd u. snd (sys_close sys fd u)) fds w')
      | Some (Inr x, w') \<Rightarrow> Some (Inr x, w'))"

definition spawn_actions :: "nat \<Rightarrow> nat \<Rightarrow> file_action list" where
  "spawn_actions read_end write_end =
     [Add_open 0 ''/dev/null'', Add_dup2 write_end 1, Add_dup2 write_end 2,
      Add_close read_end, Add_close write_end, Add_closefrom 3]"

primrec add_actions :: "'w shell \<Rightarrow> string \<Rightarrow> file_action list \<Rightarrow> ('w, unit) prog" where
  "add_actions sh executable [] = retP ()"
| "add_actions sh executable (a # acts) =
     bindP (callP (actions_add sh a) (errno_msg (sh_sys sh) ''spawn actions'' executable)) (\<lambda>_.
     add_actions sh executable acts)"

definition start_child ::
  "'w shell \<Rightarrow> string \<Rightarrow> string \<Rightarrow> string list \<Rightarrow> string list \<Rightarrow> nat \<Rightarrow> nat \<Rightarrow> ('w, unit) prog" where
  "start_child sh executable resolved args env read_end write_end =
     (let msg = errno_msg (sh_sys sh) ''spawn actions'' executable;
          acts = spawn_actions read_end write_end in
      bindP (callP (actions_init sh) msg) (\<lambda>_.
      bindP (add_actions sh executable acts) (\<lambda>_.
      bindP (callP (attr_init sh) msg) (\<lambda>_.
      callP (posix_spawn sh resolved acts (resolved # args) env) (errno_msg (sh_sys sh) ''execute'' executable)))))"

definition spawn_child :: "'w shell \<Rightarrow> string \<Rightarrow> string \<Rightarrow> string list \<Rightarrow> string list \<Rightarrow> ('w, nat) prog" where
  "spawn_child sh executable resolved args env =
     (let dup = (\<lambda>fd. callP (dupfd3 sh fd) (errno_msg (sh_sys sh) ''duplicate pipe for'' executable));
          close = (\<lambda>fd. ignoreP (sys_close (sh_sys sh) fd)) in
      bindP (callP (sh_pipe sh) (errno_msg (sh_sys sh) ''pipe for'' executable)) (\<lambda>(r, wr).
      bindP (closing (sh_sys sh) [wr, r] (dup r)) (\<lambda>read_end.
      bindP (close r) (\<lambda>_.
      bindP (closing (sh_sys sh) [wr, read_end] (dup wr)) (\<lambda>write_end.
      bindP (close wr) (\<lambda>_.
      bindP (closing (sh_sys sh) [write_end, read_end]
               (start_child sh executable resolved args env read_end write_end)) (\<lambda>_.
      bindP (close write_end) (\<lambda>_.
      retP read_end))))))))"

text \<open>The capture loop: the output so far and the read error, if there was one\<close>

partial_function (option) capture_loop ::
    "'w shell \<Rightarrow> nat \<Rightarrow> string \<Rightarrow> 'w \<Rightarrow> ((string \<times> errno option) \<times> 'w) option" where
  "capture_loop sh fd out w =
     (case child_read sh fd 16384 w of
        (Inl e, w') \<Rightarrow>
          if e = EINTR then capture_loop sh fd out w'
          else Some ((out, Some e), child_kill sh w')
      | (Inr buffer, w') \<Rightarrow>
          if buffer = [] then Some ((out, None), w')
          else capture_loop sh fd (out @ take (min (length buffer) (output_limit - length out)) buffer) w')"

partial_function (option) wait_loop :: "'w shell \<Rightarrow> string \<Rightarrow> 'w \<Rightarrow> (wait_status result \<times> 'w) option" where
  "wait_loop sh executable w =
     (case child_wait sh w of
        (Inl e, w') \<Rightarrow>
          if e = EINTR then wait_loop sh executable w'
          else Some (throw (errno_msg (sh_sys sh) ''wait for'' executable e), w')
      | (Inr st, w') \<Rightarrow> Some (Inr st, w'))"

definition exit_of :: "wait_status \<Rightarrow> int" where
  "exit_of st = (case st of Exited code \<Rightarrow> code | Signaled sig \<Rightarrow> 128 + sig)"

definition collect_result :: "'w shell \<Rightarrow> string \<Rightarrow> nat \<Rightarrow> ('w, ProcessResult) prog" where
  "collect_result sh executable fd w =
     (case capture_loop sh fd [] w of
        None \<Rightarrow> None
      | Some ((out, read_error), w1) \<Rightarrow>
          bindP (wait_loop sh executable) (\<lambda>st.
            case read_error of
              Some e \<Rightarrow> throwP (''capture '' @ executable @ '': '' @ strerror (sh_sys sh) e)
            | None \<Rightarrow> retP \<lparr>exit_code = exit_of st, captured = out\<rparr>) w1)"

definition run_process :: "'w shell \<Rightarrow> string \<Rightarrow> string list \<Rightarrow> ('w, ProcessResult) prog" where
  "run_process sh executable args =
     bindP (\<lambda>w. Some (find_executable sh executable w)) (\<lambda>resolved.
     bindP (checkP (list_all (\<lambda>arg. CHR 0x00 \<notin> set arg) args)
              (''execute '' @ executable @ '': argument contains NUL'')) (\<lambda>_.
     bindP (spawn_child sh executable resolved args (child_environment (environ sh))) (\<lambda>read_end.
     scopedP (sh_sys sh) read_end (collect_result sh executable read_end))))"

section \<open>The program's own path and temporary directories\<close>

text \<open>The buffer starts with 1024 bytes and is doubled: \<open>k\<close> counts the doublings\<close>

function self_loop :: "'w shell \<Rightarrow> nat \<Rightarrow> 'w \<Rightarrow> string result \<times> 'w" where
  "self_loop sh k w =
     (let len = 1024 * 2 ^ k in
      case sh_readlink sh ''/proc/self/exe'' len w of
        (Inl e, w') \<Rightarrow> (throw (errno_msg (sh_sys sh) ''readlink'' ''/proc/self/exe'' e), w')
      | (Inr target, w') \<Rightarrow>
          if length target < len then (Inr target, w')
          else if 1024 * 1024 \<le> len then (throw ''readlink /proc/self/exe: path exceeds 1 MiB'', w')
          else self_loop sh (k + 1) w')"
  by pat_completeness auto
termination
proof (relation "measure (\<lambda>(sh, k, w). 1024 * 1024 - 1024 * 2 ^ k)", goal_cases)
  case (2 sh k w len r w' target)
  have "0 < (2::nat) ^ k" by simp
  with 2 have "1024 * 2 ^ k < (1048576::nat)" "1024 * 2 ^ k < (2048 * 2 ^ k :: nat)" by simp_all
  then show ?case by (simp add: diff_less_mono2)
qed auto

declare self_loop.simps [simp del]

definition executable_path :: "'w shell \<Rightarrow> ('w, string) prog" where
  "executable_path sh w = Some (self_loop sh 0 w)"

text \<open>
  \<^verbatim>\<open>TempDir\<close>: the directory is made by the constructor and removed, with everything
  in it, when the scope ends, normally or by an exception
\<close>

definition temp_dir :: "'w shell \<Rightarrow> string \<Rightarrow> ('w, string) prog" where
  "temp_dir sh parent =
     bindP (if parent = []
            then (\<lambda>w. case temp_directory_path sh w of
                    (Inl msg, w') \<Rightarrow> Some (throw (''temporary directory: '' @ msg), w')
                  | (Inr base, w') \<Rightarrow> Some (Inr base, w'))
            else retP parent) (\<lambda>base.
     bindP (\<lambda>w. Some (absolute_path sh base w, w)) (\<lambda>dir.
     let pattern = dir @ ''/.aas-sign-XXXXXX'' in
     callP (mkdtemp sh pattern) (errno_msg (sh_sys sh) ''mkdtemp'' pattern)))"

definition with_temp_dir :: "'w shell \<Rightarrow> string \<Rightarrow> (string \<Rightarrow> ('w, 'a) prog) \<Rightarrow> ('w, 'a) prog" where
  "with_temp_dir sh parent f =
     bindP (temp_dir sh parent) (\<lambda>dir w.
       case f dir w of None \<Rightarrow> None | Some (r, w') \<Rightarrow> Some (r, remove_all sh dir w'))"

section \<open>The browser\<close>

text \<open>The parent does not wait for the child\<close>

definition browser_openers :: "string \<Rightarrow> (string \<times> string list) list" where
  "browser_openers url = map (\<lambda>opener. (opener, [opener, url])) [''xdg-open'', ''open'']"

definition launch_browser :: "'w shell \<Rightarrow> string \<Rightarrow> ('w, unit) prog" where
  "launch_browser sh url =
     callP (sh_fork sh (browser_openers url)) (\<lambda>e. ''fork: '' @ strerror (sh_sys sh) e)"

section \<open>Lemmas\<close>

primrec split_at :: "char \<Rightarrow> string \<Rightarrow> string list" where
  "split_at c [] = [[]]"
| "split_at c (x # xs) =
     (if x = c then [] # split_at c xs else (x # hd (split_at c xs)) # tl (split_at c xs))"

lemma split_at_notin: "c \<notin> set s \<Longrightarrow> split_at c s = [s]"
  by (induction s) auto

lemma split_at_append: "c \<notin> set s \<Longrightarrow> split_at c (s @ c # t) = s # split_at c t"
  by (induction s) auto

text \<open>The reference search: the first candidate, in the order of the directories, that is executable\<close>

primrec search_dirs :: "'w shell \<Rightarrow> string \<Rightarrow> string list \<Rightarrow> 'w \<Rightarrow> string result \<times> 'w" where
  "search_dirs sh name [] w = (throw (''find executable '' @ name @ '': not found on PATH''), w)"
| "search_dirs sh name (d # ds) w =
     (let candidate = path_candidate d name in
      case is_executable sh candidate w of
        (True, w') \<Rightarrow> (absolute_path sh candidate w', w')
      | (False, w') \<Rightarrow> search_dirs sh name ds w')"

lemma path_loop_search: "path_loop sh name path w = search_dirs sh name (split_at (CHR '':'') path) w"
proof (induction sh name path w rule: path_loop.induct)
  case (1 sh name path w)
  show ?case
  proof (cases "index_of (CHR '':'') path")
    case None
    obtain ok w1 where e: "is_executable sh (path_candidate path name) w = (ok, w1)" by fastforce
    have "split_at (CHR '':'') path = [path]"
      using None by (intro split_at_notin) simp
    then show ?thesis
      unfolding path_loop.simps [of sh name path] None option.case Let_def e
      by (cases ok) (simp_all add: e)
  next
    case (Some i)
    have p: "path = take i path @ CHR '':'' # drop (Suc i) path"
      by (rule index_of_Some_split [OF Some])
    have "CHR '':'' \<notin> set (take i path)" using index_of_SomeD [OF Some] by simp
    then have s: "split_at (CHR '':'') path = take i path # split_at (CHR '':'') (drop (Suc i) path)"
      by (subst p) (rule split_at_append)
    obtain ok w1 where e: "is_executable sh (path_candidate (take i path) name) w = (ok, w1)" by fastforce
    show ?thesis
    proof (cases ok)
      case True
      then show ?thesis unfolding path_loop.simps [of sh name path] Some option.case Let_def e
        by (simp add: s e)
    next
      case False
      have "path_loop sh name (drop (i + 1) path) w1
          = search_dirs sh name (split_at (CHR '':'') (drop (i + 1) path)) w1"
        by (rule 1 [OF refl refl refl _ _ Some, where xaa = False]) (simp_all add: Some e False)
      with False show ?thesis unfolding path_loop.simps [of sh name path] Some option.case Let_def e
        by (simp add: s e)
    qed
  qed
qed

lemma capture_bounded:
  assumes "capture_loop sh fd out w = Some rw"
  shows "length out \<le> output_limit \<longrightarrow> length (fst (fst rw)) \<le> output_limit"
proof (rule capture_loop.raw_induct [where P = "\<lambda>sh fd out w rw. length out \<le> output_limit \<longrightarrow>
    length (fst (fst rw)) \<le> output_limit", OF _ assms], goal_cases)
  case (1 f sh fd out w rw)
  obtain r w1 where r: "child_read sh fd 16384 w = (r, w1)" by fastforce
  show ?case
  proof (cases r)
    case (Inl e)
    with 1 r show ?thesis by (auto split: if_splits)
  next
    case (Inr buffer)
    show ?thesis
    proof (cases "buffer = []")
      case True
      with 1 r Inr show ?thesis by auto
    next
      case False
      let ?out = "out @ take (min (length buffer) (output_limit - length out)) buffer"
      from False 1(2) r Inr have "f sh fd ?out w1 = Some rw" by simp
      from 1(1) [OF this] have "length ?out \<le> output_limit \<longrightarrow> length (fst (fst rw)) \<le> output_limit" .
      then show ?thesis by auto
    qed
  qed
qed

text \<open>The effect of the file actions on the descriptors of the child, as POSIX defines them\<close>

fun apply_action :: "file_action \<Rightarrow> (nat \<rightharpoonup> string) \<Rightarrow> (nat \<rightharpoonup> string)" where
  "apply_action (Add_open fd path) t = t(fd \<mapsto> path)"
| "apply_action (Add_dup2 from to) t = t(to := t from)"
| "apply_action (Add_close fd) t = t(fd := None)"
| "apply_action (Add_closefrom n) t = (\<lambda>fd. if fd < n then t fd else None)"

section \<open>A concrete platform\<close>

text \<open>
  The sample file system of \<open>Posix_Files\<close> beside the sample network of \<open>Http\<close>; the files under
  \<^verbatim>\<open>/usr/bin\<close> are executable, and a companion process prints one line and exits
  with status 0.
\<close>

definition on_fst :: "('a \<Rightarrow> 'r \<times> 'a) \<Rightarrow> 'a \<times> 'b \<Rightarrow> 'r \<times> 'a \<times> 'b" where
  "on_fst f w = (case f (fst w) of (r, a) \<Rightarrow> (r, (a, snd w)))"

definition demo_sys :: "(sample_fs \<times> 'b) sys" where
  "demo_sys =
     \<lparr>strerror = strerror sample_sys, sys_open = (\<lambda>m p. on_fst (sys_open sample_sys m p)),
      sys_close = (\<lambda>fd. on_fst (sys_close sample_sys fd)),
      sys_write = (\<lambda>fd d. on_fst (sys_write sample_sys fd d)),
      sys_read = (\<lambda>fd n. on_fst (sys_read sample_sys fd n)),
      sys_pread = (\<lambda>fd off n. on_fst (sys_pread sample_sys fd off n)),
      sys_pwrite = (\<lambda>fd d off. on_fst (sys_pwrite sample_sys fd d off)),
      sys_ftruncate = (\<lambda>fd n. on_fst (sys_ftruncate sample_sys fd n)),
      sys_fsync = (\<lambda>fd. on_fst (sys_fsync sample_sys fd)),
      sys_fstat = (\<lambda>fd. on_fst (sys_fstat sample_sys fd)),
      sys_fchmod = (\<lambda>fd m. on_fst (sys_fchmod sample_sys fd m)),
      sys_fchown = (\<lambda>fd u g. on_fst (sys_fchown sample_sys fd u g)),
      sys_stat = (\<lambda>p. on_fst (sys_stat sample_sys p)), sys_lstat = (\<lambda>p. on_fst (sys_lstat sample_sys p)),
      sys_rename = (\<lambda>p q. on_fst (sys_rename sample_sys p q)),
      sys_unlink = (\<lambda>p. on_fst (sys_unlink sample_sys p)),
      sys_mkdir = (\<lambda>p m. on_fst (sys_mkdir sample_sys p m)), sys_getenv = sys_getenv sample_sys\<rparr>"

type_synonym demo_world = "sample_fs \<times> nat \<times> bool"

definition demo_shell :: "string \<Rightarrow> string \<Rightarrow> demo_world shell" where
  "demo_shell reply request =
     \<lparr>sh_net = demo_net reply, sh_sys = demo_sys, write_stdout = (\<lambda>_ w. w),
      read_text = (\<lambda>p w. map_option string_of_bytes (fst (fst w) p)),
      access_x = (\<lambda>p w. starts_with p ''/usr/bin/''), absolute_path = (\<lambda>p w. Inr p),
      environ = [''HOME=/h'', ''AZURE_ACCESS_TOKEN=secret''],
      sh_pipe = (\<lambda>w. (Inr (3, 4), w)), dupfd3 = (\<lambda>fd w. (Inr (fd + 4), w)),
      actions_init = (\<lambda>w. (Inr (), w)), actions_add = (\<lambda>a w. (Inr (), w)), attr_init = (\<lambda>w. (Inr (), w)),
      posix_spawn = (\<lambda>exe acts args env (x, c, f). (Inr (), (x, c, False))),
      child_read = (\<lambda>fd n (x, c, f). if f then (Inr [], (x, c, f)) else (Inr ''ok'', (x, c, True))),
      child_kill = (\<lambda>w. w), child_wait = (\<lambda>w. (Inr (Exited 0), w)),
      sh_readlink = (\<lambda>p n w. (Inr ''/usr/bin/aas-sign'', w)), temp_directory_path = (\<lambda>w. (Inr ''/tmp'', w)),
      mkdtemp = (\<lambda>p w. (Inr p, w)),
      remove_all = (\<lambda>d ((fs, h), x). (((\<lambda>p. if starts_with p (d @ ''/'') then None else fs p), h), x)),
      rand32 = (\<lambda>w. (0x01020304, w)), sh_sha256 = (\<lambda>x. replicate 32 7),
      sh_fork = (\<lambda>_ w. (Inr (), w)), lb_socket = (\<lambda>w. (Inr 20, w)), lb_reuse_address = (\<lambda>_ w. w),
      lb_bind = (\<lambda>_ w. (Inr (), w)), lb_getsockname = (\<lambda>_ w. (Inr 4242, w)), lb_listen = (\<lambda>_ w. (Inr (), w)),
      lb_accept = (\<lambda>_ w. (Inr 21, w)), lb_read = (\<lambda>fd n w. (Inr request, w)),
      lb_write = (\<lambda>fd s w. (Inr (length s), w)), lb_close = (\<lambda>_ w. w),
      lb_client = (\<lambda>((fs, h), x). map_option (\<lambda>_. 21) (h 21)),
      set_lb_client = (\<lambda>fd ((fs, h), x). ((fs, h(21 := map_option (\<lambda>_. []) fd)), x))\<rparr>"

abbreviation demo_files :: "(string \<rightharpoonup> bytes) \<Rightarrow> demo_world" where
  "demo_files fs \<equiv> ((fs, Map.empty), 0, False)"

lemma demo_find_tool:
  "find_executable (demo_shell [] []) ''/usr/bin/tool'' (demo_files [''/usr/bin/tool'' \<mapsto> []])
    = (Inr ''/usr/bin/tool'', demo_files [''/usr/bin/tool'' \<mapsto> []])"
  by (simp add: find_executable_def is_executable_def demo_shell_def demo_sys_def on_fst_def
      sample_sys_def sample_stat_def S_ISREG_def starts_with_def)

lemma demo_spawn:
  "spawn_child (demo_shell reply request) executable resolved args env (x, c, f) = Some (Inr 7, (x, c, False))"
  by (simp add: spawn_child_def start_child_def spawn_actions_def closing_def callP_def ignoreP_def bindP_def
      demo_shell_def demo_sys_def sample_sys_def on_fst_def Let_def)

lemma demo_collect:
  "collect_result (demo_shell reply request) executable fd (x, c, False)
    = Some (Inr \<lparr>exit_code = 0, captured = ''ok''\<rparr>, (x, c, True))"
  by (simp add: collect_result_def demo_shell_def capture_loop.simps wait_loop.simps output_limit_def bindP_def exit_of_def)

lemma demo_run:
  "\<exists>r w'. run_process (demo_shell [] []) ''/usr/bin/tool'' [] (demo_files [''/usr/bin/tool'' \<mapsto> []]) = Some (Inr r, w')"
  unfolding run_process_def
  by (simp add: bindP_def demo_find_tool demo_spawn scopedP_def demo_collect) (metis surj_pair)

lemma demo_write_loop:
  assumes "h fd = Some p" "fs p = Some c"
  shows "write_loop demo_sys fd path d ((fs, h), x) = Some (Inr (), ((fs(p \<mapsto> c @ d), h), x))"
  using assms(2)
proof (induction d arbitrary: fs c rule: length_induct)
  case (1 d)
  show ?case
  proof (cases "d = []")
    case True
    then show ?thesis using 1 by (subst write_loop.simps) (simp add: map_upd_triv)
  next
    case False
    then have "length (drop (min 4 (length d)) d) < length d" by (cases d) auto
    then have IH: "write_loop demo_sys fd path (drop (min 4 (length d)) d) ((fs(p \<mapsto> c @ take 4 d), h), x)
        = Some (Inr (), (((fs(p \<mapsto> c @ take 4 d))(p \<mapsto> (c @ take 4 d) @ drop (min 4 (length d)) d), h), x))"
      by (intro 1(1) [rule_format]) simp_all
    have d: "(c @ take 4 d) @ drop (min 4 (length d)) d = c @ d" by (simp add: min_def)
    have w: "sys_write demo_sys fd d ((fs, h), x) = (Inr (min 4 (length d)), ((fs(p \<mapsto> c @ take 4 d), h), x))"
      using assms(1) 1 by (simp add: demo_sys_def sample_sys_def on_fst_def sample_write_def)
    show ?thesis
      using False IH [unfolded d fun_upd_upd] by (subst write_loop.simps) (simp add: w)
  qed
qed

lemma demo_atomic_write:
  "\<exists>h'. atomic_write_private_file demo_sys p d ((fs, h), x) = Some (Inr (), ((fs(p \<mapsto> d, p @ ''.tmp'' := None), h'), x))"
proof -
  let ?tmp = "p @ ''.tmp''"
  let ?h = "h(3 \<mapsto> ?tmp)"
  have o: "sys_open demo_sys (Open_CREAT_TRUNC m) q ((f, g), y) = (Inr 3, ((f(q \<mapsto> []), g(3 \<mapsto> q)), y))" for m q f g and y :: 'x
    by (simp add: demo_sys_def sample_sys_def on_fst_def sample_open_def)
  have l: "write_loop demo_sys 3 ?tmp d ((fs(?tmp \<mapsto> []), ?h), x) = Some (Inr (), ((fs(?tmp \<mapsto> d), ?h), x))"
    using demo_write_loop [of ?h 3 ?tmp "fs(?tmp \<mapsto> [])" "[]" ?tmp d x] by simp
  have q: "sys_fsync demo_sys fd w = (Inr (), w)" "sys_close demo_sys fd w = (Inr (), w)" for fd and w :: "sample_fs \<times> 'x"
    by (simp_all add: demo_sys_def sample_sys_def on_fst_def)
  have r: "sys_rename demo_sys ?tmp p ((fs(?tmp \<mapsto> d), ?h), x) = (Inr (), ((fs(p \<mapsto> d, ?tmp := None), ?h), x))"
    by (simp add: demo_sys_def sample_sys_def on_fst_def sample_rename_def fun_upd_twist)
  show ?thesis
    by (simp add: atomic_write_private_file_def bindP_def callP_def ignoreP_def Let_def o l q r)
qed

lemma demo_config_dir: "config_dir demo_sys w = Some (Inr ''/h/.config/aas-sign'', w)"
  by (cases w) (simp add: config_dir_def config_base_def demo_sys_def sample_sys_def on_fst_def ignoreP_def bindP_def)

section \<open>Properties\<close>

text \<open>
  \<^verbatim>\<open>find_executable\<close> on a bare name searches the components of
  \<^verbatim>\<open>PATH\<close> from left to right, empty ones meaning the current directory, and returns the
  absolute path of the first regular executable file; it always returns, and throws when there
  is none.
\<close>

theorem find_executable_search:
  assumes "name \<noteq> []" "CHR 0x00 \<notin> set name" "CHR ''/'' \<notin> set name"
  shows "find_executable sh name w =
    search_dirs sh name (split_at (CHR '':'')
      (case sys_getenv (sh_sys sh) ''PATH'' of None \<Rightarrow> ''/usr/bin:/bin'' | Some env \<Rightarrow> env)) w"
  using assms by (simp add: find_executable_def path_loop_search iffD2 [OF index_of_None_iff])

theorem find_executable_search_witness:
  "find_executable (demo_shell [] []) ''sh'' (demo_files [''/usr/bin/sh'' \<mapsto> []]) =
    search_dirs (demo_shell [] []) ''sh'' (split_at (CHR '':'')
      (case sys_getenv (sh_sys (demo_shell [] [])) ''PATH'' of None \<Rightarrow> ''/usr/bin:/bin'' | Some env \<Rightarrow> env))
      (demo_files [''/usr/bin/sh'' \<mapsto> []])"
  by (rule find_executable_search) simp_all

text \<open>
  No secret reaches a companion process: a variable is passed on exactly when the caller has
  it and its name is not one of the private ones, and among the private ones are all names with
  the prefixes of the Azure and the workflow credentials and the GitHub tokens.
\<close>

theorem child_environment_private:
  assumes "CHR ''='' \<notin> set name"
  shows "(name @ ''='' @ value \<in> set (child_environment entries)) =
      (name @ ''='' @ value \<in> set entries \<and> \<not> private_environment name) \<and>
    private_environment (''AZURE_'' @ x) \<and> private_environment (''ACTIONS_ID_TOKEN_'' @ x) \<and>
    private_environment ''GITHUB_TOKEN'' \<and> private_environment ''GH_TOKEN''"
proof -
  have "env_name (name @ ''='' @ value) = name"
    using assms by (simp add: env_name_def substr_def)
  then show ?thesis by (auto simp: child_environment_def private_environment_def starts_with_def)
qed

theorem child_environment_private_witness:
  "(''AZURE_ACCESS_TOKEN'' @ ''='' @ ''secret'' \<in> set (child_environment [''AZURE_ACCESS_TOKEN=secret'', ''HOME=/h''])) = False \<and>
   (''HOME'' @ ''='' @ ''/h'' \<in> set (child_environment [''AZURE_ACCESS_TOKEN=secret'', ''HOME=/h''])) = True"
  using child_environment_private [of "''AZURE_ACCESS_TOKEN''" "''secret''" "[''AZURE_ACCESS_TOKEN=secret'', ''HOME=/h'']" "[]"]
    child_environment_private [of "''HOME''" "''/h''" "[''AZURE_ACCESS_TOKEN=secret'', ''HOME=/h'']" "[]"]
  by (simp add: private_environment_def starts_with_def)

text \<open>
  C25: what a companion process inherits. Whatever descriptors are open when it is started, after
  the file actions it has the null device as its input, the write end of the pipe as its output
  and error, and nothing else: no socket, file or other pipe of the program.
\<close>

theorem child_descriptors:
  assumes "3 \<le> read_end" "3 \<le> write_end" "t write_end = Some p"
  shows "fold apply_action (spawn_actions read_end write_end) t = [0 \<mapsto> ''/dev/null'', 1 \<mapsto> p, 2 \<mapsto> p]"
  using assms by (auto simp: spawn_actions_def fun_eq_iff)

theorem child_descriptors_witness:
  "fold apply_action (spawn_actions 7 8) [0 \<mapsto> ''tty'', 5 \<mapsto> ''socket'', 7 \<mapsto> ''pipe-r'', 8 \<mapsto> ''pipe-w'']
    = [0 \<mapsto> ''/dev/null'', 1 \<mapsto> ''pipe-w'', 2 \<mapsto> ''pipe-w'']"
  by (rule child_descriptors) simp_all

text \<open>
  The captured output of a companion process is bounded by one mebibyte, however much it
  writes.
\<close>

theorem run_process_output_bounded:
  assumes "run_process sh executable args w = Some (Inr result, w')"
  shows "length (captured result) \<le> 1048576"
proof -
  from assms obtain resolved fd w1 w2 where
    "collect_result sh executable fd w1 = Some (Inr result, w2)"
    unfolding run_process_def
    by (auto simp: result_iff scopedP_def simp del: prog_simps split: option.splits)
  then obtain out err w3 where c: "capture_loop sh fd [] w1 = Some ((out, err), w3)"
    and "captured result = out"
    by (auto simp: collect_result_def result_iff split: option.splits)
  with capture_bounded [OF c] show ?thesis by (simp add: output_limit_def)
qed

theorem run_process_output_bounded_witness:
  "\<exists>r w'. run_process (demo_shell [] []) ''/usr/bin/tool'' [] (demo_files [''/usr/bin/tool'' \<mapsto> []]) = Some (Inr r, w') \<and>
     length (captured r) \<le> 1048576"
proof -
  obtain r w' where r: "run_process (demo_shell [] []) ''/usr/bin/tool'' [] (demo_files [''/usr/bin/tool'' \<mapsto> []]) = Some (Inr r, w')"
    using demo_run by blast
  from run_process_output_bounded [OF r] r show ?thesis by blast
qed

end
