(* ===== verification/Loopback.thy ===== *)
theory Loopback
  imports Posix_Shell
begin

text \<open>
  The loopback server of \<^verbatim>\<open>src/src/posix.cpp\<close> that receives the redirect of a login:
  the set-up of its socket, the request it reads, the page it answers with, and the closing of its
  sockets when its scope is left. The property says that no way through it leaves a socket open.
\<close>

section \<open>The server object\<close>

record LoopbackServer =
  lbs_fd :: nat
  lbs_port :: nat

text \<open>A call on the new socket, which is closed when the call fails\<close>

definition or_close :: "'w shell \<Rightarrow> nat \<Rightarrow> ('w \<Rightarrow> (errno + 'a) \<times> 'w) \<Rightarrow> string \<Rightarrow> ('w, 'a) prog" where
  "or_close sh fd call label w =
     (case call w of
        (Inl e, w') \<Rightarrow> Some (throw (label @ strerror (sh_sys sh) e), lb_close sh fd w')
      | (Inr x, w') \<Rightarrow> Some (Inr x, w'))"

definition loopback_server :: "'w shell \<Rightarrow> ('w, LoopbackServer) prog" where
  "loopback_server sh =
     bindP (doP (set_lb_client sh None)) (\<lambda>_.
     bindP (callP (lb_socket sh) (\<lambda>e. ''socket: '' @ strerror (sh_sys sh) e)) (\<lambda>fd.
     bindP (doP (lb_reuse_address sh fd)) (\<lambda>_.
     bindP (or_close sh fd (lb_bind sh fd) ''bind loopback: '') (\<lambda>_.
     bindP (or_close sh fd (lb_getsockname sh fd) ''getsockname: '') (\<lambda>port.
     bindP (or_close sh fd (lb_listen sh fd) ''listen: '') (\<lambda>_.
     retP \<lparr>lbs_fd = fd, lbs_port = port\<rparr>))))))"

definition close_loopback :: "'w shell \<Rightarrow> LoopbackServer \<Rightarrow> 'w \<Rightarrow> 'w" where
  "close_loopback sh server w =
     lb_close sh (lbs_fd server) (case lb_client sh w of None \<Rightarrow> w | Some cfd \<Rightarrow> lb_close sh cfd w)"

text \<open>The server as the scope of a local variable\<close>

definition with_loopback :: "'w shell \<Rightarrow> (LoopbackServer \<Rightarrow> ('w, 'a) prog) \<Rightarrow> ('w, 'a) prog" where
  "with_loopback sh f =
     bindP (loopback_server sh) (\<lambda>server w.
       case f server w of None \<Rightarrow> None | Some (r, w') \<Rightarrow> Some (r, close_loopback sh server w'))"

section \<open>The request\<close>

partial_function (option) accept_loop :: "'w shell \<Rightarrow> nat \<Rightarrow> string \<Rightarrow> 'w \<Rightarrow> (string result \<times> 'w) option" where
  "accept_loop sh cfd buf w =
     (if \<not> (find_str buf (crlf @ crlf) 0 = None \<and> length buf < 16384) then Some (Inr buf, w)
      else case lb_read sh cfd 4096 w of
        (Inl e, w') \<Rightarrow>
          if e = EINTR then accept_loop sh cfd buf w'
          else Some (throw (''read: '' @ strerror (sh_sys sh) e), w')
      | (Inr tmp, w') \<Rightarrow> if tmp = [] then Some (Inr buf, w') else accept_loop sh cfd (buf @ tmp) w')"

definition request_target :: "string \<Rightarrow> string result" where
  "request_target buf =
     (let line = (case find_str buf crlf 0 of None \<Rightarrow> buf | Some line_end \<Rightarrow> substr buf 0 line_end)
      in case find_char line (CHR '' '') 0 of
           None \<Rightarrow> throw ''malformed HTTP request line''
         | Some sp1 \<Rightarrow>
             (case find_char line (CHR '' '') (sp1 + 1) of
                None \<Rightarrow> throw ''malformed HTTP request line''
              | Some sp2 \<Rightarrow> Inr (substr line (sp1 + 1) (sp2 - sp1 - 1))))"

definition accept_request :: "'w shell \<Rightarrow> LoopbackServer \<Rightarrow> ('w, string) prog" where
  "accept_request sh server =
     bindP (callP (lb_accept sh (lbs_fd server)) (\<lambda>e. ''accept: '' @ strerror (sh_sys sh) e)) (\<lambda>cfd.
     bindP (doP (set_lb_client sh (Some cfd))) (\<lambda>_.
     bindP (accept_loop sh cfd []) (\<lambda>buf. liftP (request_target buf))))"

section \<open>The answer\<close>

partial_function (option) respond_loop :: "'w shell \<Rightarrow> nat \<Rightarrow> string \<Rightarrow> 'w \<Rightarrow> (unit result \<times> 'w) option" where
  "respond_loop sh cfd s w =
     (if s = [] then Some (Inr (), w)
      else case lb_write sh cfd s w of
        (Inl e, w') \<Rightarrow>
          if e = EINTR then respond_loop sh cfd s w'
          else Some (throw (''write: '' @ strerror (sh_sys sh) e), w')
      | (Inr n, w') \<Rightarrow> respond_loop sh cfd (drop n s) w')"

definition response_page :: "string \<Rightarrow> string" where
  "response_page html =
     ''HTTP/1.1 200 OK'' @ crlf @
     ''Content-Type: text/html; charset=utf-8'' @ crlf @
     ''Content-Length: '' @ to_string_nat (length html) @ crlf @
     ''Connection: close'' @ crlf @ crlf @ html"

definition respond :: "'w shell \<Rightarrow> string \<Rightarrow> ('w, unit) prog" where
  "respond sh html w =
     (case lb_client sh w of
        None \<Rightarrow> Some (throw ''respond() before accept_request()'', w)
      | Some cfd \<Rightarrow>
          bindP (respond_loop sh cfd (response_page html)) (\<lambda>_.
          bindP (doP (lb_close sh cfd)) (\<lambda>_. doP (set_lb_client sh None))) w)"

section \<open>Lemmas\<close>

lemma with_loopback_Inr_iff [result_iff]:
  "with_loopback sh f w = Some (Inr y, w'') \<longleftrightarrow>
    (\<exists>server u v. loopback_server sh w = Some (Inr server, u) \<and> f server u = Some (Inr y, v) \<and>
       w'' = close_loopback sh server v)"
proof -
  have *: "(case m of None \<Rightarrow> None | Some (r, v) \<Rightarrow> Some (r, c v)) = Some (Inr y, w'') \<longleftrightarrow>
      (\<exists>v. m = Some (Inr y, v) \<and> w'' = c v)" for m c
    by (cases m) auto
  show ?thesis by (simp only: with_loopback_def bindP_Inr_iff * ex_simps)
qed

text \<open>
  What is relied on of the sockets: \<open>socks\<close> is the set of descriptors that are open; a new
  socket is a new descriptor, closing one removes it, and the other calls change neither the
  set nor the member of the server object.
\<close>

definition keeps_socks :: "'w shell \<Rightarrow> ('w \<Rightarrow> nat set) \<Rightarrow> ('w \<Rightarrow> 'w) \<Rightarrow> bool" where
  "keeps_socks sh socks f \<longleftrightarrow> (\<forall>w. socks (f w) = socks w \<and> lb_client sh (f w) = lb_client sh w)"

definition opens_sock :: "'w shell \<Rightarrow> ('w \<Rightarrow> nat set) \<Rightarrow> ('w \<Rightarrow> (errno + nat) \<times> 'w) \<Rightarrow> bool" where
  "opens_sock sh socks call \<longleftrightarrow>
     (\<forall>w. lb_client sh (snd (call w)) = lb_client sh w \<and>
        (case fst (call w) of
           Inl _ \<Rightarrow> socks (snd (call w)) = socks w
         | Inr fd \<Rightarrow> fd \<notin> socks w \<and> socks (snd (call w)) = insert fd (socks w)))"

definition socket_contract :: "'w shell \<Rightarrow> ('w \<Rightarrow> nat set) \<Rightarrow> bool" where
  "socket_contract sh socks \<longleftrightarrow>
     opens_sock sh socks (lb_socket sh) \<and> (\<forall>fd. opens_sock sh socks (lb_accept sh fd)) \<and>
     (\<forall>fd. keeps_socks sh socks (lb_reuse_address sh fd)) \<and> (\<forall>fd. keeps_socks sh socks (snd \<circ> lb_bind sh fd)) \<and>
     (\<forall>fd. keeps_socks sh socks (snd \<circ> lb_getsockname sh fd)) \<and> (\<forall>fd. keeps_socks sh socks (snd \<circ> lb_listen sh fd)) \<and>
     (\<forall>fd n. keeps_socks sh socks (snd \<circ> lb_read sh fd n)) \<and> (\<forall>fd s. keeps_socks sh socks (snd \<circ> lb_write sh fd s)) \<and>
     (\<forall>fd w. socks (lb_close sh fd w) = socks w - {fd} \<and> lb_client sh (lb_close sh fd w) = lb_client sh w) \<and>
     (\<forall>c w. socks (set_lb_client sh c w) = socks w \<and> lb_client sh (set_lb_client sh c w) = c)"

lemma keeps_socksD: "keeps_socks sh socks f \<Longrightarrow> socks (f w) = socks w \<and> lb_client sh (f w) = lb_client sh w"
  by (simp add: keeps_socks_def)

lemma keeps_callD: "keeps_socks sh socks (snd \<circ> call) \<Longrightarrow> call w = (r, w') \<Longrightarrow> socks w' = socks w \<and> lb_client sh w' = lb_client sh w"
  using keeps_socksD [of sh socks "snd \<circ> call" w] by simp

abbreviation has :: "'w shell \<Rightarrow> ('w \<Rightarrow> nat set) \<Rightarrow> nat set \<Rightarrow> nat option \<Rightarrow> 'w \<Rightarrow> bool" where
  "has sh socks S c w \<equiv> socks w = S \<and> lb_client sh w = c"

text \<open>A part that opens and closes no socket of the server\<close>

definition idle :: "'w shell \<Rightarrow> ('w \<Rightarrow> nat set) \<Rightarrow> ('w, 'a) prog \<Rightarrow> bool" where
  "idle sh socks m \<longleftrightarrow> (\<forall>S c. keeps (has sh socks S c) m)"

lemma idleD: "idle sh socks m \<Longrightarrow> m w = Some (r, w') \<Longrightarrow> socks w' = socks w \<and> lb_client sh w' = lb_client sh w"
  by (auto simp: idle_def keeps_def)

lemma contract_calls:
  assumes "socket_contract sh socks"
  shows "keeps_socks sh socks (snd \<circ> lb_bind sh fd)" "keeps_socks sh socks (snd \<circ> lb_getsockname sh fd)"
    "keeps_socks sh socks (snd \<circ> lb_listen sh fd)" "keeps_socks sh socks (snd \<circ> lb_read sh fd n)"
    "keeps_socks sh socks (snd \<circ> lb_write sh fd s)" "keeps_socks sh socks (lb_reuse_address sh fd)"
    "socks (lb_close sh fd w) = socks w - {fd}" "lb_client sh (lb_close sh fd w) = lb_client sh w"
    "socks (set_lb_client sh c w) = socks w" "lb_client sh (set_lb_client sh c w) = c"
  using assms by (simp_all add: socket_contract_def)

lemma contract_opens:
  assumes "socket_contract sh socks"
  shows "opens_sock sh socks (lb_socket sh)" "opens_sock sh socks (lb_accept sh fd)"
  using assms by (simp_all add: socket_contract_def)

lemma opens_callP:
  assumes "opens_sock sh socks call" "callP call msg w = Some (r, w')"
  shows "lb_client sh w' = lb_client sh w \<and>
    (case r of Inl _ \<Rightarrow> socks w' = socks w | Inr fd \<Rightarrow> fd \<notin> socks w \<and> socks w' = insert fd (socks w))"
proof -
  obtain x v where c: "call w = (x, v)" by fastforce
  with assms(1) have "lb_client sh v = lb_client sh w"
    "case x of Inl _ \<Rightarrow> socks v = socks w | Inr fd \<Rightarrow> fd \<notin> socks w \<and> socks v = insert fd (socks w)"
    unfolding opens_sock_def by (metis fst_conv snd_conv)+
  with assms(2) c show ?thesis by (cases x) (auto simp: callP_def)
qed

lemma or_close_result:
  assumes "socket_contract sh socks" "keeps_socks sh socks (snd \<circ> call)" "or_close sh fd call label w = Some (r, w')"
  shows "lb_client sh w' = lb_client sh w \<and> (case r of Inl _ \<Rightarrow> socks w' = socks w - {fd} | Inr _ \<Rightarrow> socks w' = socks w)"
proof -
  obtain x v where c: "call w = (x, v)" by fastforce
  from keeps_callD [OF assms(2) c] assms(3) c show ?thesis
    by (cases x) (auto simp: or_close_def contract_calls [OF assms(1)])
qed

lemma loopback_server_result:
  assumes k: "socket_contract sh socks" and run: "loopback_server sh w = Some (r, w')"
  shows "case r of Inl _ \<Rightarrow> socks w' = socks w
    | Inr server \<Rightarrow> lbs_fd server \<notin> socks w \<and> has sh socks (insert (lbs_fd server) (socks w)) None w'"
proof -
  let ?w0 = "set_lb_client sh None w"
  have w0: "has sh socks (socks w) None ?w0" using contract_calls [OF k] by simp
  obtain r1 w1 where s: "callP (lb_socket sh) (\<lambda>e. ''socket: '' @ strerror (sh_sys sh) e) ?w0 = Some (r1, w1)"
    by (cases "lb_socket sh ?w0"; cases "fst (lb_socket sh ?w0)") (auto simp: callP_def)
  note s1 = opens_callP [OF contract_opens(1) [OF k] s]
  show ?thesis
  proof (cases r1)
    case (Inl e)
    with run s s1 w0 show ?thesis by (auto simp: loopback_server_def bindP_apply(2))
  next
    case (Inr fd)
    let ?w2 = "lb_reuse_address sh fd w1"
    have w2: "fd \<notin> socks w" "has sh socks (insert fd (socks w)) None ?w2"
      using s1 w0 Inr keeps_socksD [OF contract_calls(6) [OF k]] by simp_all
    from run s Inr have rest: "bindP (or_close sh fd (lb_bind sh fd) ''bind loopback: '') (\<lambda>_.
        bindP (or_close sh fd (lb_getsockname sh fd) ''getsockname: '') (\<lambda>port.
        bindP (or_close sh fd (lb_listen sh fd) ''listen: '') (\<lambda>_.
        retP \<lparr>lbs_fd = fd, lbs_port = port\<rparr>))) ?w2 = Some (r, w')"
      by (simp add: loopback_server_def bindP_apply(3))
    show ?thesis
      using rest [unfolded bindP_Some_iff] w2
      by (elim disjE exE conjE)
        (auto dest!: or_close_result [OF k contract_calls(1) [OF k]] or_close_result [OF k contract_calls(2) [OF k]]
          or_close_result [OF k contract_calls(3) [OF k]])
  qed
qed

lemma keeps_accept_loop:
  assumes "socket_contract sh socks"
  shows "keeps (has sh socks S c) (accept_loop sh cfd buf)"
proof -
  have "socket_contract sh socks \<longrightarrow> has sh socks S c w \<longrightarrow> has sh socks S c (snd rw)"
    if "accept_loop sh cfd buf w = Some rw" for buf w rw
  proof (rule accept_loop.raw_induct [where P = "\<lambda>sh cfd buf w rw. socket_contract sh socks \<longrightarrow>
      has sh socks S c w \<longrightarrow> has sh socks S c (snd rw)", OF _ that], goal_cases)
    case (1 f sh cfd buf w rw)
    obtain r w1 where r: "lb_read sh cfd 4096 w = (r, w1)" by fastforce
    show ?case
    proof (intro impI)
      assume k: "socket_contract sh socks" and h: "has sh socks S c w"
      have h1: "has sh socks S c w1" using keeps_callD [OF contract_calls(4) [OF k] r] h by simp
      from 1 r h h1 k show "has sh socks S c (snd rw)"
        by (cases r) (auto split: if_splits)
    qed
  qed
  with assms show ?thesis unfolding keeps_def by (metis snd_conv)
qed

lemma keeps_respond_loop:
  assumes "socket_contract sh socks"
  shows "keeps (has sh socks S c) (respond_loop sh cfd s)"
proof -
  have "socket_contract sh socks \<longrightarrow> has sh socks S c w \<longrightarrow> has sh socks S c (snd rw)"
    if "respond_loop sh cfd s w = Some rw" for s w rw
  proof (rule respond_loop.raw_induct [where P = "\<lambda>sh cfd s w rw. socket_contract sh socks \<longrightarrow>
      has sh socks S c w \<longrightarrow> has sh socks S c (snd rw)", OF _ that], goal_cases)
    case (1 f sh cfd s w rw)
    obtain r w1 where r: "lb_write sh cfd s w = (r, w1)" by fastforce
    show ?case
    proof (intro impI)
      assume k: "socket_contract sh socks" and h: "has sh socks S c w"
      have h1: "has sh socks S c w1" using keeps_callD [OF contract_calls(5) [OF k] r] h by simp
      from 1 r h h1 k show "has sh socks S c (snd rw)"
        by (cases r) (auto split: if_splits)
    qed
  qed
  with assms show ?thesis unfolding keeps_def by (metis snd_conv)
qed

text \<open>The sockets that are open while the server is in scope: those before it, its own, and its client\<close>

definition serving :: "'w shell \<Rightarrow> ('w \<Rightarrow> nat set) \<Rightarrow> nat set \<Rightarrow> nat \<Rightarrow> 'w \<Rightarrow> bool" where
  "serving sh socks base fd w \<longleftrightarrow>
     (case lb_client sh w of None \<Rightarrow> socks w = insert fd base | Some c \<Rightarrow> c \<noteq> fd \<and> c \<notin> base \<and> socks w = {fd, c} \<union> base)"

lemma idle_serving: "idle sh socks m \<Longrightarrow> keeps (serving sh socks base fd) m"
proof -
  assume i: "idle sh socks m"
  have "serving sh socks base fd w'" if "serving sh socks base fd w" "m w = Some (r, w')" for w r w'
    using that(1) idleD [OF i that(2)] by (cases "lb_client sh w") (simp_all add: serving_def)
  then show ?thesis by (auto simp: keeps_def)
qed

lemma accept_serving:
  assumes k: "socket_contract sh socks" and run: "accept_request sh server w = Some (r, w')"
    and h: "has sh socks (insert (lbs_fd server) base) None w"
  shows "serving sh socks base (lbs_fd server) w'"
proof -
  let ?call = "callP (lb_accept sh (lbs_fd server)) (\<lambda>e. ''accept: '' @ strerror (sh_sys sh) e)"
  obtain x w1 where a: "?call w = Some (x, w1)"
    by (cases "lb_accept sh (lbs_fd server) w"; cases "fst (lb_accept sh (lbs_fd server) w)") (auto simp: callP_def)
  note o = opens_callP [OF contract_opens(2) [OF k] a]
  show ?thesis
  proof (cases x)
    case (Inl e)
    have "w' = w1" using run unfolding accept_request_def bindP_apply(2) [where m = ?call, OF a [unfolded Inl]] by simp
    with o h Inl show ?thesis by (simp add: serving_def)
  next
    case (Inr cfd)
    let ?S = "insert cfd (insert (lbs_fd server) base)"
    have l: "bindP (accept_loop sh cfd []) (\<lambda>buf. liftP (request_target buf)) (set_lb_client sh (Some cfd) w1) = Some (r, w')"
      using run unfolding accept_request_def bindP_apply(3) [where m = ?call, OF a [unfolded Inr]] by simp
    have c: "cfd \<notin> insert (lbs_fd server) base" "has sh socks ?S (Some cfd) (set_lb_client sh (Some cfd) w1)"
      using o h Inr contract_calls(9,10) [OF k] by simp_all
    have "keeps (has sh socks ?S (Some cfd)) (bindP (accept_loop sh cfd []) (\<lambda>buf. liftP (request_target buf)))"
      by (intro keeps_bind keeps_accept_loop [OF k] keeps_basic)
    from keepsD [OF this c(2) l] c(1) show ?thesis by (auto simp: serving_def)
  qed
qed

lemma respond_serving:
  assumes "socket_contract sh socks"
  shows "keeps (serving sh socks base fd) (respond sh html)"
  unfolding keeps_def
proof (intro allI impI)
  fix w r w'
  assume h: "serving sh socks base fd w" and run: "respond sh html w = Some (r, w')"
  show "serving sh socks base fd w'"
  proof (cases "lb_client sh w")
    case None
    with run h show ?thesis by (simp add: respond_def)
  next
    case (Some c)
    let ?loop = "respond_loop sh c (response_page html)"
    from h Some have S: "has sh socks ({fd, c} \<union> base) (Some c) w" "c \<noteq> fd" "c \<notin> base" by (simp_all add: serving_def)
    from run Some obtain x u where l: "?loop w = Some (x, u)"
      and u: "x = Inr () \<Longrightarrow> w' = set_lb_client sh None (lb_close sh c u)" "x \<noteq> Inr () \<Longrightarrow> w' = u"
      by (cases "?loop w") (auto simp: respond_def bindP_def split: sum.splits)
    have "has sh socks ({fd, c} \<union> base) (Some c) u" by (rule keepsD [OF keeps_respond_loop [OF assms] S(1) l])
    then show ?thesis
      using u S(2,3) contract_calls(7-10) [OF assms] by (cases "x = Inr ()") (auto simp: serving_def)
  qed
qed

lemma close_serving:
  assumes "socket_contract sh socks" "serving sh socks base (lbs_fd server) w" "lbs_fd server \<notin> base"
  shows "socks (close_loopback sh server w) = base"
  using assms contract_calls(7,8) [OF assms(1)]
  by (auto simp: serving_def close_loopback_def split: option.splits)

section \<open>Properties\<close>


text \<open>
  A sample whose world is the set of open sockets and the client member; its requests are complete
  after one read.
\<close>

type_synonym sock_world = "nat list \<times> nat option"

definition fresh :: "sock_world \<Rightarrow> (errno + nat) \<times> sock_world" where
  "fresh w = (let fd = Suc (fold max (fst w) 2) in (Inr fd, (fd # fst w, snd w)))"

definition sock_open :: "sock_world \<Rightarrow> nat set" where
  "sock_open w = set (fst w)"

definition sock_shell :: "string \<Rightarrow> sock_world shell" where
  "sock_shell request =
     \<lparr>sh_net = undefined, sh_sys = undefined, write_stdout = (\<lambda>_ w. w), read_text = (\<lambda>_ _. None), access_x = (\<lambda>_ _. False),
      absolute_path = (\<lambda>p w. Inr p), environ = [], sh_pipe = (\<lambda>w. (Inl EINTR, w)), dupfd3 = (\<lambda>_ w. (Inl EINTR, w)),
      actions_init = (\<lambda>w. (Inr (), w)), actions_add = (\<lambda>_ w. (Inr (), w)), attr_init = (\<lambda>w. (Inr (), w)),
      posix_spawn = (\<lambda>_ _ _ _ w. (Inr (), w)), child_read = (\<lambda>_ _ w. (Inr [], w)), child_kill = (\<lambda>w. w),
      child_wait = (\<lambda>w. (Inr (Exited 0), w)), sh_readlink = (\<lambda>_ _ w. (Inr [], w)), temp_directory_path = (\<lambda>w. (Inr [], w)),
      mkdtemp = (\<lambda>p w. (Inr p, w)), remove_all = (\<lambda>_ w. w), rand32 = (\<lambda>w. (0, w)), sh_sha256 = (\<lambda>_. []),
      sh_fork = (\<lambda>_ w. (Inr (), w)), lb_socket = fresh, lb_reuse_address = (\<lambda>_ w. w), lb_bind = (\<lambda>_ w. (Inr (), w)),
      lb_getsockname = (\<lambda>_ w. (Inr 4242, w)), lb_listen = (\<lambda>_ w. (Inr (), w)), lb_accept = (\<lambda>_. fresh),
      lb_read = (\<lambda>_ _ w. (Inr request, w)), lb_write = (\<lambda>_ s w. (Inr (length s), w)),
      lb_close = (\<lambda>fd (s, c). (filter (\<lambda>x. x \<noteq> fd) s, c)), lb_client = snd, set_lb_client = (\<lambda>c (s, _). (s, c))\<rparr>"

lemma fresh_less: "x \<in> set xs \<Longrightarrow> x \<le> fold max xs (n :: nat)" and fold_max_ge: "n \<le> fold max xs n"
proof (induction xs arbitrary: n)
  case (Cons y ys)
  { case 1 then show ?case using Cons.IH(1) [of "max y n"] Cons.IH(2) [of "max y n"] by auto }
  { case 2 then show ?case using Cons.IH(2) [of "max y n"] by simp }
qed simp_all

lemma fresh_opens: "opens_sock (sock_shell request) sock_open fresh"
proof -
  have "Suc (fold max xs 2) \<notin> set xs" for xs using fresh_less [of _ xs 2] by fastforce
  then show ?thesis by (simp add: opens_sock_def fresh_def sock_shell_def sock_open_def Let_def)
qed

lemma sock_contract: "socket_contract (sock_shell request) sock_open"
proof -
  have "lb_socket (sock_shell request) = fresh" "lb_accept (sock_shell request) fd = fresh" for fd
    by (simp_all add: sock_shell_def)
  then show ?thesis
    unfolding socket_contract_def
    by (auto simp: fresh_opens) (auto simp: sock_shell_def keeps_socks_def sock_open_def)
qed

definition sample_get :: string where
  "sample_get = ''GET /?code=c HTTP/1.1'' @ crlf @ crlf"

lemma sample_get: "request_target sample_get = Inr ''/?code=c''" "find_str sample_get (crlf @ crlf) 0 \<noteq> None" "sample_get \<noteq> []"
  by code_simp+

abbreviation sample_server :: "sock_world shell" where
  "sample_server \<equiv> sock_shell sample_get"

abbreviation sample_login :: "(sock_world, string) prog" where
  "sample_login \<equiv> with_loopback sample_server (\<lambda>server. bindP (retP ()) (\<lambda>_.
     bindP (accept_request sample_server server) (\<lambda>target. bindP (respond sample_server ''ok'') (\<lambda>_. retP target))))"

lemma sample_calls:
  "lb_socket sample_server = fresh" "lb_accept sample_server fd = fresh" "lb_reuse_address sample_server fd w = w"
  "lb_bind sample_server fd w = (Inr (), w)" "lb_getsockname sample_server fd w = (Inr 4242, w)"
  "lb_listen sample_server fd w = (Inr (), w)" "lb_client sample_server = snd"
  "lb_close sample_server fd (xs, c) = (filter (\<lambda>x. x \<noteq> fd) xs, c)" "set_lb_client sample_server c' (xs, c) = (xs, c')"
  by (simp_all add: sock_shell_def)

lemma sample_login_run: "\<exists>w'. sample_login ([7], None) = Some (Inr ''/?code=c'', w')"
proof -
  have r: "respond_loop sample_server cfd s w = Some (Inr (), w)" for cfd s w
    by (cases "s = []") (simp_all add: respond_loop.simps [of _ _ s] respond_loop.simps [of _ _ "[]"] sock_shell_def)
  have "lb_read sample_server cfd n w = (Inr sample_get, w)" for cfd n w by (simp add: sock_shell_def)
  then have a: "accept_loop sample_server cfd [] w = Some (Inr sample_get, w)" for cfd w
    using sample_get(2,3) by (simp add: accept_loop.simps [of _ _ "[]"] accept_loop.simps [of _ _ sample_get] crlf_def)
  show ?thesis
    unfolding with_loopback_def accept_request_def respond_def
    by (simp add: bindP_def a sample_get(1) r loopback_server_def callP_def or_close_def sample_calls fresh_def close_loopback_def)
qed


text \<open>
  The loopback server extracts the request target of a well-formed request line, whatever
  follows it.
\<close>

theorem request_target_line:
  assumes "CHR '' '' \<notin> set verb" "CHR '' '' \<notin> set target"
    and "CHR 0x0D \<notin> set (verb @ target @ version)"
  shows "request_target (verb @ '' '' @ target @ '' '' @ version @ crlf @ rest) = Inr target"
proof -
  let ?line = "verb @ '' '' @ target @ '' '' @ version"
  have "index_of_str crlf (?line @ crlf @ rest) = Some (length ?line)"
    using index_of_str_hd [of crlf ?line rest] assms(3) by auto
  then have l: "(case find_str (verb @ '' '' @ target @ '' '' @ version @ crlf @ rest) crlf 0 of
      None \<Rightarrow> verb @ '' '' @ target @ '' '' @ version @ crlf @ rest
    | Some line_end \<Rightarrow> substr (verb @ '' '' @ target @ '' '' @ version @ crlf @ rest) 0 line_end) = ?line"
    by (simp add: substr_def)
  have s1: "find_char ?line (CHR '' '') 0 = Some (length verb)"
    using assms(1) by simp
  have s2: "find_char ?line (CHR '' '') (length verb + 1) = Some (length verb + 1 + length target)"
    using assms(2) find_char_after [of verb "CHR '' ''" "target @ '' '' @ version" "CHR '' ''"] by simp
  show ?thesis
    unfolding request_target_def l Let_def s1 option.case s2 by (simp add: substr_def)
qed

theorem request_target_line_witness:
  "request_target (''GET'' @ '' '' @ ''/?code=x&state=y'' @ '' '' @ ''HTTP/1.1'' @ crlf @ ''Host: localhost'')
    = Inr ''/?code=x&state=y''"
  using request_target_line [of "''GET''" "''/?code=x&state=y''" "''HTTP/1.1''" "''Host: localhost''"] by simp

end
