(* ===== verification/Auth_Laptop.thy ===== *)
theory Auth_Laptop
  imports Json Http Urlenc Base64 Signer Loopback
begin

text \<open>
  The interactive authentication of \<^verbatim>\<open>src/src/auth_laptop.cpp\<close>: the subcommands
  \<^verbatim>\<open>login\<close>, \<^verbatim>\<open>config\<close> and \<^verbatim>\<open>logout\<close> with
  their option parsing, the PKCE flow, the token cache and the silent refresh. A subcommand is a
  program that returns an exit code. The arguments are those after the subcommand
  (\<^verbatim>\<open>argv[2]\<close> on).
\<close>

definition text_lines :: "string list \<Rightarrow> string" where
  "text_lines ls = concat (map (\<lambda>l. l @ [CHR 0x0A]) ls)"

definition say :: "'w shell \<Rightarrow> string \<Rightarrow> ('w, unit) prog" where
  "say sh msg = doP (write_stderr (sh_net sh) (msg @ [CHR 0x0A]))"

definition AAS_SIGN_DEFAULT_CLIENT_ID :: string where
  "AAS_SIGN_DEFAULT_CLIENT_ID = ''04b07795-8ddb-461a-bbee-02f9e1bf7b46''"

definition AAS_SIGN_DEFAULT_TENANT :: string where
  "AAS_SIGN_DEFAULT_TENANT = ''fd996ec3-65fc-49a8-a18b-2f8fd65d7b2d''"

definition SCOPE_SIGN :: string where
  "SCOPE_SIGN = ''https://codesigning.azure.net/.default''"

section \<open>Helpers\<close>

text \<open>Random bytes, four from each number of the random device, the least significant first\<close>

function random_bytes :: "'w shell \<Rightarrow> nat \<Rightarrow> 'w \<Rightarrow> bytes \<times> 'w" where
  "random_bytes sh n w =
     (if n = 0 then ([], w)
      else case rand32 sh w of (v, w') \<Rightarrow>
        case random_bytes sh (n - 4) w' of (rest, w'') \<Rightarrow>
          (take n (map (\<lambda>j. ucast (drop_bit (8 * j) v AND 0xff)) [0..<4]) @ rest, w''))"
  by pat_completeness auto
termination by (relation "measure (\<lambda>(sh, n, w). n)") auto

declare random_bytes.simps [simp del]

definition decode_jwt_payload :: "'j json_lib \<Rightarrow> string \<Rightarrow> 'j" where
  "decode_jwt_payload json jwt =
     (case find_char jwt (CHR ''.'') 0 of
        None \<Rightarrow> json_null json
      | Some a \<Rightarrow>
          (case find_char jwt (CHR ''.'') (a + 1) of
             None \<Rightarrow> json_null json
           | Some b \<Rightarrow>
               (let payload_b64 = substr jwt (a + 1) (b - a - 1)
                in case json_parse json (string_of_bytes (base64url_decode payload_b64)) of
                     Inl _ \<Rightarrow> json_null json
                   | Inr j \<Rightarrow> j)))"

definition cache_path :: "'w shell \<Rightarrow> ('w, string) prog" where
  "cache_path sh = bindP (config_dir (sh_sys sh)) (\<lambda>dir. retP (dir @ ''/token-cache.json''))"

definition read_cache :: "'w shell \<Rightarrow> 'j json_lib \<Rightarrow> ('w, 'j) prog" where
  "read_cache sh json =
     bindP (cache_path sh) (\<lambda>path w.
       case read_text sh path w of
         None \<Rightarrow> Some (Inr (json_null json), w)
       | Some text \<Rightarrow>
           (case json_read json text of
              Inr j \<Rightarrow> Some (Inr j, w)
            | Inl e \<Rightarrow> Some (throw (''cache file is corrupted ('' @ what e @ ''); run `aas-sign login` again''), w)))"

definition atomic_write_json :: "'w shell \<Rightarrow> 'j json_lib \<Rightarrow> string \<Rightarrow> 'j \<Rightarrow> ('w, unit) prog" where
  "atomic_write_json sh json path j =
     atomic_write_private_file (sh_sys sh) path (bytes_of_string (json_dump_indent json 2 j))"

definition write_cache :: "'w shell \<Rightarrow> 'j json_lib \<Rightarrow> 'j \<Rightarrow> ('w, unit) prog" where
  "write_cache sh json j = bindP (cache_path sh) (\<lambda>path. atomic_write_json sh json path j)"

definition delete_cache :: "'w shell \<Rightarrow> ('w, unit) prog" where
  "delete_cache sh = bindP (cache_path sh) (\<lambda>path. remove_file (sh_sys sh) path)"

section \<open>Signing defaults\<close>

definition merge_defaults :: "'j json_lib \<Rightarrow> string option \<Rightarrow> string \<Rightarrow> string \<Rightarrow> string \<Rightarrow> 'j" where
  "merge_defaults json existing endp acct prof =
     (let cfg = (case existing of
                   None \<Rightarrow> json_null json
                 | Some text \<Rightarrow> (case json_read json text of Inr j \<Rightarrow> j | Inl _ \<Rightarrow> json_object json));
          cfg = (if \<not> json_is_object json cfg then json_object json else cfg);
          cfg = (if endp \<noteq> [] then json_set json cfg ''endpoint'' endp else cfg);
          cfg = (if acct \<noteq> [] then json_set json cfg ''account'' acct else cfg);
          cfg = (if prof \<noteq> [] then json_set json cfg ''profile'' prof else cfg)
      in cfg)"

definition save_signing_defaults :: "'w shell \<Rightarrow> 'j json_lib \<Rightarrow> string \<Rightarrow> string \<Rightarrow> string \<Rightarrow> ('w, unit) prog" where
  "save_signing_defaults sh json endp acct prof =
     (if endp = [] \<and> acct = [] \<and> prof = [] then retP ()
      else
        bindP (config_dir (sh_sys sh)) (\<lambda>dir.
        let cfg_path = dir @ ''/config.json'' in
        bindP (\<lambda>w. atomic_write_json sh json cfg_path
                     (merge_defaults json (read_text sh cfg_path w) endp acct prof) w) (\<lambda>_.
        say sh (''Saved signing defaults to '' @ cfg_path))))"

definition token_url :: "string \<Rightarrow> string" where
  "token_url tenant = ''https://login.microsoftonline.com/'' @ tenant @ ''/oauth2/v2.0/token''"

section \<open>Options\<close>

text \<open>The outcome of an option loop: the options, a request for help, or an unknown option\<close>

datatype 'a parsed = Parsed 'a | Help_wanted | Unknown_option string

record login_opts =
  lo_tenant :: string
  lo_client_id :: string
  lo_endpoint :: string
  lo_account :: string
  lo_profile :: string
  lo_tuple :: string
  lo_flags_used :: bool

definition login_defaults :: login_opts where
  "login_defaults =
     \<lparr>lo_tenant = AAS_SIGN_DEFAULT_TENANT, lo_client_id = AAS_SIGN_DEFAULT_CLIENT_ID,
      lo_endpoint = [], lo_account = [], lo_profile = [], lo_tuple = [], lo_flags_used = False\<rparr>"

definition not_dashed :: "string \<Rightarrow> bool" where
  "not_dashed a \<longleftrightarrow> a = [] \<or> hd a \<noteq> CHR ''-''"

fun login_options :: "string list \<Rightarrow> login_opts \<Rightarrow> login_opts parsed" where
  "login_options [] l = Parsed l"
| "login_options (a # rest) l =
     (if a = ''--tenant'' \<and> rest \<noteq> [] then login_options (tl rest) (l\<lparr>lo_tenant := hd rest\<rparr>)
      else if a = ''--client-id'' \<and> rest \<noteq> [] then login_options (tl rest) (l\<lparr>lo_client_id := hd rest\<rparr>)
      else if a = ''--endpoint'' \<and> rest \<noteq> []
      then login_options (tl rest) (l\<lparr>lo_endpoint := hd rest, lo_flags_used := True\<rparr>)
      else if a = ''--account'' \<and> rest \<noteq> []
      then login_options (tl rest) (l\<lparr>lo_account := hd rest, lo_flags_used := True\<rparr>)
      else if a = ''--profile'' \<and> rest \<noteq> []
      then login_options (tl rest) (l\<lparr>lo_profile := hd rest, lo_flags_used := True\<rparr>)
      else if a = ''--help'' \<or> a = ''-h'' then Help_wanted
      else if not_dashed a \<and> lo_tuple l = [] then login_options rest (l\<lparr>lo_tuple := a\<rparr>)
      else Unknown_option a)"

text \<open>
  The options of \<^verbatim>\<open>config\<close>: the same loop without \<^verbatim>\<open>--tenant\<close> and
  \<^verbatim>\<open>--client-id\<close>
\<close>

fun config_options :: "string list \<Rightarrow> login_opts \<Rightarrow> login_opts parsed" where
  "config_options [] l = Parsed l"
| "config_options (a # rest) l =
     (if a = ''--endpoint'' \<and> rest \<noteq> []
      then config_options (tl rest) (l\<lparr>lo_endpoint := hd rest, lo_flags_used := True\<rparr>)
      else if a = ''--account'' \<and> rest \<noteq> []
      then config_options (tl rest) (l\<lparr>lo_account := hd rest, lo_flags_used := True\<rparr>)
      else if a = ''--profile'' \<and> rest \<noteq> []
      then config_options (tl rest) (l\<lparr>lo_profile := hd rest, lo_flags_used := True\<rparr>)
      else if a = ''--help'' \<or> a = ''-h'' then Help_wanted
      else if not_dashed a \<and> lo_tuple l = [] then config_options rest (l\<lparr>lo_tuple := a\<rparr>)
      else Unknown_option a)"

text \<open>The positional tuple, which excludes the individual options: an error text or the options\<close>

definition resolve_tuple :: "string \<Rightarrow> login_opts \<Rightarrow> string + login_opts" where
  "resolve_tuple cmd l =
     (if lo_tuple l = [] then Inr l
      else if lo_flags_used l
      then Inl (''aas-sign '' @ cmd @ '': positional REGION:ACCOUNT:PROFILE is '' @
                ''mutually exclusive with --endpoint/--account/--profile'')
      else case parse_signer_tuple (lo_tuple l) of
        Inr t \<Rightarrow> Inr (l\<lparr>lo_endpoint := endpoint t, lo_account := account t, lo_profile := profile t\<rparr>)
      | Inl e \<Rightarrow> Inl (''aas-sign '' @ cmd @ '': '' @ what e))"

text \<open>The help texts\<close>

definition login_help :: "string \<Rightarrow> string" where
  "login_help dir = text_lines
     [''usage: aas-sign login [REGION:ACCOUNT:PROFILE]'',
      ''                      [--tenant T] [--client-id C]'',
      [],
      ''Open the system browser, sign in to Microsoft Entra, and'',
      ''cache a refresh token at'',
      ''    '' @ dir @ ''/token-cache.json'',
      ''Subsequent `aas-sign sign` runs use the cached token'',
      ''automatically until it's revoked or expires.'',
      [],
      ''  REGION:ACCOUNT:PROFILE'',
      ''                 Optional positional signer tuple,'',
      ''                 e.g. `eus:mycompany:me`.  REGION'',
      ''                 auto-expands to'',
      ''                 REGION.codesigning.azure.net (pass a'',
      ''                 value containing `.' to override).'',
      ''                 When provided, the three values are'',
      ''                 saved to config.json after a successful'',
      ''                 login, so later `aas-sign sign` calls'',
      ''                 need no further arguments.'',
      [],
      ''  --tenant T     Azure tenant (default: the repo owner's).'',
      ''  --client-id C  Override the baked-in aas-sign app ID.'',
      [],
      ''  --endpoint H, --account N, --profile P'',
      ''                 Equivalent long form of the positional'',
      ''                 tuple above; mutually exclusive with it.'']"

definition config_help :: "string \<Rightarrow> string" where
  "config_help dir = text_lines
     [''usage: aas-sign config REGION:ACCOUNT:PROFILE'',
      ''       aas-sign config [--endpoint H] [--account N]'' @ '' [--profile P]'',
      [],
      ''Write signing defaults to'',
      ''    '' @ dir @ ''/config.json'',
      ''without performing a login.  The positional tuple form'',
      ''sets all three values at once, e.g.'',
      ''    aas-sign config eus:mycompany:me'',
      ''REGION auto-expands to REGION.codesigning.azure.net'',
      ''(pass a value containing `.' to override).  Azure'',
      ''resource names never contain `:`, so the split is'',
      ''unambiguous.'',
      [],
      ''The individual-flag form updates only the fields you'',
      ''pass; untouched fields in config.json are preserved.'',
      ''The two forms are mutually exclusive in a single'',
      ''invocation.'']"

definition logout_help :: "string \<Rightarrow> string" where
  "logout_help path = text_lines
     [''usage: aas-sign logout'',
      [],
      ''Delete the local refresh-token cache at'',
      ''    '' @ path,
      [],
      ''This only removes the local cache; the refresh token'',
      ''remains valid on Microsoft's side until its natural'',
      ''expiry (~90 days of inactivity) or until an admin'',
      ''revokes it in the Entra portal.'']"


section \<open>Login\<close>

definition authorize_url :: "string \<Rightarrow> string \<Rightarrow> string \<Rightarrow> string \<Rightarrow> string \<Rightarrow> string" where
  "authorize_url tenant client_id redirect_uri state challenge =
     ''https://login.microsoftonline.com/'' @ tenant @ ''/oauth2/v2.0/authorize'' @
     ''?client_id='' @ url_encode client_id @
     ''&response_type=code'' @
     ''&redirect_uri='' @ url_encode redirect_uri @
     ''&response_mode=query'' @
     ''&scope='' @ url_encode (SCOPE_SIGN @ '' offline_access'') @
     ''&state='' @ state @
     ''&code_challenge='' @ challenge @
     ''&code_challenge_method=S256''"

definition open_browser :: "'w shell \<Rightarrow> string \<Rightarrow> ('w, unit) prog" where
  "open_browser sh authorize =
     bindP (say sh (''Opening browser to sign in...'' @ [CHR 0x0A] @
              ''If it doesn't open automatically, visit:'' @ [CHR 0x0A] @ ''  '' @ authorize)) (\<lambda>_.
     catchP (launch_browser sh authorize) (\<lambda>e. say sh (''(warning: '' @ what e @ '')'')))"

text \<open>The check of the redirect: the page to answer and the message when it is refused, or the code\<close>

definition check_redirect :: "string \<Rightarrow> (string \<rightharpoonup> string) \<Rightarrow> (string \<times> string) + string" where
  "check_redirect state q =
     (case q ''error'' of
        Some e \<Rightarrow>
          Inl (''<!doctype html><meta charset=utf-8>'' @
               ''<p>aas-sign login failed. You can close this window.'',
               ''authorization failed: '' @ e @
               (case q ''error_description'' of None \<Rightarrow> [] | Some d \<Rightarrow> '' -- '' @ d))
      | None \<Rightarrow>
          (case (q ''code'', q ''state'') of
             (Some code, Some st) \<Rightarrow>
               if st \<noteq> state
               then Inl (''<!doctype html><meta charset=utf-8>'' @
                         ''<p>State mismatch. You can close this window.'',
                         ''state mismatch: possible CSRF, aborting'')
               else Inr code
           | _ \<Rightarrow>
               Inl (''<!doctype html><meta charset=utf-8>'' @
                    ''<p>Missing code or state. You can close this window.'',
                    ''authorization response missing code/state'')))"

definition code_form :: "string \<Rightarrow> string \<Rightarrow> string \<Rightarrow> string \<Rightarrow> string" where
  "code_form client_id code redirect_uri verifier =
     form_encode
       [(''client_id'', client_id), (''grant_type'', ''authorization_code''), (''code'', code),
        (''redirect_uri'', redirect_uri), (''code_verifier'', verifier),
        (''scope'', SCOPE_SIGN @ '' offline_access'')]"

text \<open>The identity in the token response: user name, tenant and object id\<close>

definition identity :: "'j json_lib \<Rightarrow> string \<Rightarrow> (string \<times> string \<times> string) result" where
  "identity json id_token =
     (if id_token = [] then Inr (''unknown'', [], [])
      else
        let claims = decode_jwt_payload json id_token in
        if \<not> json_is_object json claims then Inr (''unknown'', [], [])
        else
          bindE (json_value json claims ''tid'' []) (\<lambda>tenant_id.
          bindE (json_value json claims ''oid'' []) (\<lambda>oid.
          bindE (json_value json claims ''preferred_username'' []) (\<lambda>username.
          bindE (if username = [] then json_value json claims ''upn'' [] else Inr username) (\<lambda>username.
          bindE (if username = [] then json_value json claims ''email'' [] else Inr username) (\<lambda>username.
          Inr (if username = [] then ''unknown'' else username, tenant_id, oid)))))))"

definition cache_entry :: "'j json_lib \<Rightarrow> string \<Rightarrow> string \<Rightarrow> string \<Rightarrow> string \<Rightarrow> string \<Rightarrow> 'j" where
  "cache_entry json tenant_id client_id oid username refresh_token =
     (let cache = json_set_int json (json_null json) ''version'' 1;
          cache = json_set json cache ''tenant_id'' tenant_id;
          cache = json_set json cache ''client_id'' client_id;
          cache = json_set json cache ''home_account_id'' (if oid = [] then [] else oid @ ''.'' @ tenant_id);
          cache = json_set json cache ''username'' username
      in json_set json cache ''refresh_token'' refresh_token)"

text \<open>From the accepted code on\<close>

definition redeem_code ::
  "'w shell \<Rightarrow> 'j json_lib \<Rightarrow> login_opts \<Rightarrow> string \<Rightarrow> string \<Rightarrow> string \<Rightarrow> ('w, int) prog" where
  "redeem_code sh json l code redirect_uri verifier =
     bindP (respond sh (''<!doctype html><meta charset=utf-8>'' @ ''<title>aas-sign</title>'' @
              ''<h1>Signed in.</h1>'' @ ''<p>You can close this window.'')) (\<lambda>_.
     bindP (https_post_url (sh_net sh) (token_url (lo_tenant l)) ''application/x-www-form-urlencoded''
              (code_form (lo_client_id l) code redirect_uri verifier)) (\<lambda>resp.
     bindP (checkP (status resp = 200)
              (''token exchange failed (HTTP '' @ to_string_int (status resp) @ ''): '' @ body resp)) (\<lambda>_.
     bindP (liftP (json_parse json (body resp))) (\<lambda>b.
     bindP (liftP (json_value json b ''refresh_token'' [])) (\<lambda>refresh_token.
     bindP (liftP (json_value json b ''id_token'' [])) (\<lambda>id_token.
     bindP (checkP (refresh_token \<noteq> []) ''no refresh_token in token response'') (\<lambda>_.
     bindP (liftP (identity json id_token)) (\<lambda>(username, tenant_id, oid).
     bindP (write_cache sh json (cache_entry json tenant_id (lo_client_id l) oid username refresh_token)) (\<lambda>_.
     bindP (cache_path sh) (\<lambda>path.
     bindP (say sh (''Logged in as '' @ username @ ''.'' @ [CHR 0x0A] @ ''Cache: '' @ path)) (\<lambda>_.
     bindP (save_signing_defaults sh json (lo_endpoint l) (lo_account l) (lo_profile l)) (\<lambda>_.
     retP 0))))))))))))"

definition login_flow :: "'w shell \<Rightarrow> 'j json_lib \<Rightarrow> login_opts \<Rightarrow> ('w, int) prog" where
  "login_flow sh json l =
     bindP (\<lambda>w. Some (apfst Inr (random_bytes sh 32 w))) (\<lambda>verifier_bytes.
     let verifier = base64url_encode verifier_bytes;
         challenge = base64url_encode (sh_sha256 sh (bytes_of_string verifier)) in
     bindP (\<lambda>w. Some (apfst Inr (random_bytes sh 16 w))) (\<lambda>state_bytes.
     let state = hex_encode state_bytes in
     with_loopback sh (\<lambda>server.
     let redirect_uri = ''http://localhost:'' @ to_string_nat (lbs_port server) in
     bindP (open_browser sh (authorize_url (lo_tenant l) (lo_client_id l) redirect_uri state challenge)) (\<lambda>_.
     bindP (accept_request sh server) (\<lambda>target.
     case check_redirect state (parse_query target) of
       Inl (page, msg) \<Rightarrow>
         bindP (respond sh page) (\<lambda>_. bindP (say sh msg) (\<lambda>_. retP 1))
     | Inr code \<Rightarrow> redeem_code sh json l code redirect_uri verifier)))))"

definition login_main :: "'w shell \<Rightarrow> 'j json_lib \<Rightarrow> string list \<Rightarrow> ('w, int) prog" where
  "login_main sh json args =
     (case login_options args login_defaults of
        Help_wanted \<Rightarrow>
          bindP (config_dir (sh_sys sh)) (\<lambda>dir. bindP (doP (write_stdout sh (login_help dir))) (\<lambda>_. retP 0))
      | Unknown_option a \<Rightarrow> bindP (say sh (''aas-sign login: unknown option: '' @ a)) (\<lambda>_. retP 1)
      | Parsed l \<Rightarrow>
          (case resolve_tuple ''login'' l of
             Inl msg \<Rightarrow> bindP (say sh msg) (\<lambda>_. retP 1)
           | Inr l \<Rightarrow> login_flow sh json l))"

section \<open>Config, refresh and logout\<close>

definition config_main :: "'w shell \<Rightarrow> 'j json_lib \<Rightarrow> string list \<Rightarrow> ('w, int) prog" where
  "config_main sh json args =
     (case config_options args login_defaults of
        Help_wanted \<Rightarrow>
          bindP (config_dir (sh_sys sh)) (\<lambda>dir. bindP (doP (write_stdout sh (config_help dir))) (\<lambda>_. retP 0))
      | Unknown_option a \<Rightarrow> bindP (say sh (''aas-sign config: unknown option: '' @ a)) (\<lambda>_. retP 1)
      | Parsed l \<Rightarrow>
          (case resolve_tuple ''config'' l of
             Inl msg \<Rightarrow> bindP (say sh msg) (\<lambda>_. retP 1)
           | Inr l \<Rightarrow>
               if lo_endpoint l = [] \<and> lo_account l = [] \<and> lo_profile l = []
               then bindP (say sh (''aas-sign config: nothing to do; pass REGION:ACCOUNT:PROFILE'' @
                                   '' or at least one of --endpoint, --account, --profile'')) (\<lambda>_. retP 1)
               else bindP (save_signing_defaults sh json (lo_endpoint l) (lo_account l) (lo_profile l)) (\<lambda>_.
                    retP 0)))"

definition refresh_form :: "string \<Rightarrow> string \<Rightarrow> string" where
  "refresh_form client_id refresh_token =
     form_encode
       [(''client_id'', client_id), (''grant_type'', ''refresh_token''),
        (''refresh_token'', refresh_token), (''scope'', SCOPE_SIGN)]"

definition refresh_tenant :: "string \<Rightarrow> string" where
  "refresh_tenant tenant_id = (if tenant_id = [] then AAS_SIGN_DEFAULT_TENANT else tenant_id)"

definition refresh_error :: "'j json_lib \<Rightarrow> string \<Rightarrow> string" where
  "refresh_error json text =
     (case bindE (json_parse json text) (\<lambda>j. json_value json j ''error'' []) of Inl _ \<Rightarrow> [] | Inr err \<Rightarrow> err)"

definition refresh_rejected :: "'w shell \<Rightarrow> 'j json_lib \<Rightarrow> HttpResponse \<Rightarrow> ('w, string) prog" where
  "refresh_rejected sh json resp =
     (if refresh_error json (body resp) = ''invalid_grant''
      then bindP (delete_cache sh) (\<lambda>_.
           throwP (''cached refresh token was rejected (revoked or expired); '' @
                   ''run `aas-sign login` to sign in again''))
      else throwP (''token refresh failed (HTTP '' @ to_string_int (status resp) @ ''): '' @ body resp))"

definition try_cached_refresh :: "'w shell \<Rightarrow> 'j json_lib \<Rightarrow> ('w, string) prog" where
  "try_cached_refresh sh json =
     bindP (read_cache sh json) (\<lambda>cache.
     if json_is_null json cache \<or> \<not> json_is_object json cache then retP []
     else
       bindP (liftP (json_value json cache ''refresh_token'' [])) (\<lambda>refresh_token.
       bindP (liftP (json_value json cache ''client_id'' [])) (\<lambda>client_id.
       bindP (liftP (json_value json cache ''tenant_id'' [])) (\<lambda>tenant_id.
       if refresh_token = [] \<or> client_id = [] then retP []
       else
         bindP (https_post_url (sh_net sh) (token_url (refresh_tenant tenant_id))
                  ''application/x-www-form-urlencoded'' (refresh_form client_id refresh_token)) (\<lambda>resp.
         if status resp \<noteq> 200 then refresh_rejected sh json resp
         else
           bindP (liftP (json_parse json (body resp))) (\<lambda>b.
           bindP (liftP (json_value json b ''access_token'' [])) (\<lambda>access_token.
           bindP (liftP (json_value json b ''refresh_token'' [])) (\<lambda>new_refresh.
           bindP (checkP (access_token \<noteq> []) ''no access_token in refresh response'') (\<lambda>_.
           bindP (if new_refresh \<noteq> [] \<and> new_refresh \<noteq> refresh_token
                  then catchP (write_cache sh json (json_set json cache ''refresh_token'' new_refresh)) (\<lambda>_. retP ())
                  else retP ()) (\<lambda>_.
           retP access_token))))))))))"

definition logout_main :: "'w shell \<Rightarrow> string list \<Rightarrow> ('w, int) prog" where
  "logout_main sh args =
     (case args of
        a # _ \<Rightarrow>
          if a = ''--help'' \<or> a = ''-h''
          then bindP (cache_path sh) (\<lambda>path. bindP (doP (write_stdout sh (logout_help path))) (\<lambda>_. retP 0))
          else bindP (say sh (''aas-sign logout: unknown option: '' @ a)) (\<lambda>_. retP 1)
      | [] \<Rightarrow>
          bindP (cache_path sh) (\<lambda>p w.
            if read_text sh p w \<noteq> None
            then bindP (delete_cache sh) (\<lambda>_.
                 bindP (say sh (''Logged out (removed '' @ p @ '').'')) (\<lambda>_. retP 0)) w
            else bindP (say sh (''Not logged in (no cache at '' @ p @ '').'')) (\<lambda>_. retP 0) w))"

section \<open>Lemmas\<close>

lemma random_bytes_length: "length (fst (random_bytes sh n w)) = n"
proof (induction sh n w rule: random_bytes.induct)
  case (1 sh n w)
  show ?case
  proof (cases "n = 0")
    case False
    obtain v w' where "rand32 sh w = (v, w')" by fastforce
    moreover obtain rest w'' where "random_bytes sh (n - 4) w' = (rest, w'')" by fastforce
    ultimately show ?thesis
      using 1 [OF False] False by (auto simp: random_bytes.simps [of sh n w])
  qed (simp add: random_bytes.simps)
qed

lemma check_redirect_InrD:
  "check_redirect state q = Inr code \<Longrightarrow> q ''error'' = None \<and> q ''code'' = Some code \<and> q ''state'' = Some state"
  by (auto simp: check_redirect_def split: option.splits if_splits)

text \<open>Characters that percent-encoding leaves alone\<close>

lemma url_encode_unreserved: "\<forall>c \<in> set s. unreserved c \<Longrightarrow> url_encode s = s"
  by (induction s) (simp_all add: url_encode_def url_encode_char_def)

lemma hex_encode_unreserved: "\<forall>c \<in> set (hex_encode bs). unreserved c"
proof -
  have "list_all unreserved hex_lower" by code_simp
  then have "k < 16 \<Longrightarrow> unreserved (hex_lower ! k)" for k
    by (simp add: list_all_length hex_lower_def)
  then show ?thesis by (auto simp: hex_encode_def nibbles)
qed

lemma base64url_encode_unreserved: "\<forall>c \<in> set (base64url_encode bs). unreserved c"
proof -
  have "unreserved (url_table ! sextet n k)" for n k
    using url_table_unreserved unfolding list_all_length unreserved_def by (metis sextet_less table_lengths(2))
  then show ?thesis using base64url_encode_chars [of "{c. unreserved c}" bs] by auto
qed

lemma login_flow_0D:
  assumes "login_flow sh json l w = Some (Inr 0, w')"
  shows "\<exists>w0 sb w1 server u target u' code. random_bytes sh 16 w0 = (sb, w1) \<and> length sb = 16 \<and>
    accept_request sh server u = Some (Inr target, u') \<and>
    check_redirect (hex_encode sb) (parse_query target) = Inr code"
proof -
  from assms obtain w0 sb w1 u target u' v ruri ver server where *: "random_bytes sh 16 w0 = (sb, w1)"
    "accept_request sh server u = Some (Inr target, u')"
    "(case check_redirect (hex_encode sb) (parse_query target) of
       Inl (page, msg) \<Rightarrow> bindP (respond sh page) (\<lambda>_. bindP (say sh msg) (\<lambda>_. retP 1))
     | Inr code \<Rightarrow> redeem_code sh json l code ruri ver) u' = Some (Inr 0, v)"
    unfolding login_flow_def Let_def
    by (auto simp: result_iff apfst_def map_prod_def simp del: prog_simps split: prod.splits)
  then obtain code where "check_redirect (hex_encode sb) (parse_query target) = Inr code"
    by (auto simp: result_iff simp del: prog_simps split: sum.splits prod.splits)
  moreover have "length sb = 16" using random_bytes_length [of sh 16 w0] *(1) by simp
  ultimately show ?thesis using *(1,2) by blast
qed

section \<open>Properties\<close>


text \<open>
  A login that goes through: the provider redirects with the right state, and the token endpoint
  answers with a refresh token.
\<close>

definition demo_redirect :: string where
  "demo_redirect = ''GET /?code=c&state=04030201040302010403020104030201 HTTP/1.1'' @ crlf @ crlf"

definition demo_login :: "demo_world shell" where
  "demo_login = demo_shell (demo_reply ''refresh_token=r;'') demo_redirect"

lemma demo_random: "random_bytes demo_login 16 w = ([4, 3, 2, 1, 4, 3, 2, 1, 4, 3, 2, 1, 4, 3, 2, 1], w)"
  by (simp add: demo_login_def demo_shell_def random_bytes.simps upt_rec)

lemma demo_random_world: "snd (random_bytes demo_login n w) = w"
proof (induction n arbitrary: w rule: less_induct)
  case (less n)
  have r: "rand32 demo_login w = (0x01020304, w)" by (simp add: demo_login_def demo_shell_def)
  show ?case
  proof (cases "n = 0")
    case False
    with less [of "n - 4" w] show ?thesis
      by (subst random_bytes.simps) (auto simp: r split: prod.splits)
  qed (simp add: random_bytes.simps)
qed

lemma demo_accept:
  "accept_request demo_login server ((fs, h), x) =
    Some (Inr ''/?code=c&state=04030201040302010403020104030201'', ((fs, h(21 \<mapsto> [])), x))"
proof -
  have "request_target demo_redirect = Inr ''/?code=c&state=04030201040302010403020104030201''"
    by code_simp
  moreover have "find_str demo_redirect (crlf @ crlf) 0 \<noteq> None" by code_simp
  moreover have "demo_redirect \<noteq> []" by (simp add: demo_redirect_def)
  ultimately show ?thesis
    by (simp add: accept_request_def demo_login_def demo_shell_def callP_def bindP_def accept_loop.simps [of _ _ "[]"])
     (simp add: accept_loop.simps crlf_def)
qed

lemma demo_check:
  "check_redirect (hex_encode [4, 3, 2, 1, 4, 3, 2, 1, 4, 3, 2, 1, 4, 3, 2, 1])
     (parse_query ''/?code=c&state=04030201040302010403020104030201'') = Inr ''c''"
  by code_simp

lemma demo_sh:
  "sh_sys demo_login = demo_sys" "sh_net demo_login = demo_net (demo_reply ''refresh_token=r;'')"
  "launch_browser demo_login u w = Some (Inr (), w)"
  "write_stderr (demo_net r) m w' = w'"
  by (simp_all add: demo_login_def demo_shell_def demo_net_def launch_browser_def callP_def)

lemma demo_respond: "respond demo_login html ((fs, h(21 \<mapsto> [])), x) = Some (Inr (), ((fs, h(21 := None)), x))"
proof -
  have "respond_loop demo_login cfd s w = Some (Inr (), w)" for cfd s w
    by (cases "s = []") (simp_all add: respond_loop.simps [of _ _ s] respond_loop.simps [of _ _ "[]"] demo_login_def demo_shell_def)
  then show ?thesis by (simp add: respond_def bindP_def demo_login_def demo_shell_def)
qed

lemma demo_loopback:
  "with_loopback demo_login f ((fs, h), x) = f \<lparr>lbs_fd = 20, lbs_port = 4242\<rparr> ((fs, h(21 := None)), x)"
proof -
  have s: "loopback_server demo_login ((fs, h), x) = Some (Inr \<lparr>lbs_fd = 20, lbs_port = 4242\<rparr>, ((fs, h(21 := None)), x))"
    by (simp add: loopback_server_def callP_def or_close_def bindP_def demo_login_def demo_shell_def)
  have "close_loopback demo_login server w = w" for server w
    by (simp add: close_loopback_def demo_login_def demo_shell_def split: option.splits)
  then show ?thesis by (simp add: with_loopback_def bindP_def s split: option.splits)
qed

lemma demo_token_reply:
  "https_post_url (demo_net (demo_reply ''refresh_token=r;'')) (token_url AAS_SIGN_DEFAULT_TENANT) ct bd (x, c, f)
    = Some (Inr \<lparr>status = 200, body = ''refresh_token=r;''\<rparr>, (x, c, True))"
proof (rule demo_https_post_url)
  have "\<not> chunked (demo_reply ''refresh_token=r;'')" by code_simp
  then show "parse_http_response (demo_reply ''refresh_token=r;'') = Some (Inr \<lparr>status = 200, body = ''refresh_token=r;''\<rparr>)"
    by (rule demo_reply_parse)
  show "parse_https_url (token_url AAS_SIGN_DEFAULT_TENANT) = Inr (''login.microsoftonline.com'',
      ''/fd996ec3-65fc-49a8-a18b-2f8fd65d7b2d/oauth2/v2.0/token'')"
    by code_simp
qed (simp add: demo_reply_def)

lemma demo_token_body:
  "json_parse flat_lib ''refresh_token=r;'' = Inr (Some [(''refresh_token'', ''r'')])"
  by code_simp

lemma demo_redeem:
  "\<exists>w'. redeem_code demo_login flat_lib login_defaults code ruri ver ((fs, h(21 \<mapsto> [])), c, f) = Some (Inr 0, w')"
proof -
  let ?entry = "cache_entry flat_lib [] AAS_SIGN_DEFAULT_CLIENT_ID [] ''unknown'' ''r''"
  obtain w1 where w: "atomic_write_private_file demo_sys ''/h/.config/aas-sign/token-cache.json''
      (bytes_of_string (json_dump_indent flat_lib 2 ?entry)) ((fs, h(21 := None)), c, True) = Some (Inr (), w1)"
    using demo_atomic_write [of "''/h/.config/aas-sign/token-cache.json''" _ fs "h(21 := None)" "(c, True)"] by blast
  have v: "json_value flat_lib (Some [(''refresh_token'', ''r'')]) ''refresh_token'' [] = Inr ''r''"
    "json_value flat_lib (Some [(''refresh_token'', ''r'')]) ''id_token'' [] = Inr []"
    by (simp_all add: flat_lib_def)
  have l: "lo_tenant login_defaults = AAS_SIGN_DEFAULT_TENANT" "lo_client_id login_defaults = AAS_SIGN_DEFAULT_CLIENT_ID"
    "lo_endpoint login_defaults = []" "lo_account login_defaults = []" "lo_profile login_defaults = []"
    by (simp_all add: login_defaults_def)
  show ?thesis
    unfolding redeem_code_def l
    by (simp add: bindP_def demo_respond demo_sh demo_token_reply demo_token_body v identity_def write_cache_def
        cache_path_def demo_config_dir atomic_write_json_def w say_def save_signing_defaults_def)
      (metis surj_pair)
qed

lemma demo_login_ok: "\<exists>w'. login_main demo_login flat_lib [] (demo_files Map.empty) = Some (Inr 0, w')"
proof -
  obtain v where v: "random_bytes demo_login 32 (demo_files Map.empty) = (v, demo_files Map.empty)"
    using demo_random_world [of 32 "demo_files Map.empty"] by (metis prod.collapse)
  show ?thesis
    using demo_redeem [of "''c''" "''http://localhost:'' @ to_string_nat 4242" "base64url_encode v" Map.empty Map.empty 0 False]
    unfolding login_main_def
    by (simp add: resolve_tuple_def login_defaults_def [THEN arg_cong, of lo_tuple] login_flow_def Let_def bindP_def v
        demo_random demo_sh demo_loopback demo_accept demo_check open_browser_def catchP_def say_def)
qed


text \<open>
  C24: the authorization request carries what the later steps rely on: the identity provider
  reads from its query the client, the redirect address, the random state and the PKCE
  challenge, each exactly as the program holds it, although the last two are not escaped.
\<close>

theorem authorize_url_decodes:
  assumes "CHR ''?'' \<notin> set tenant"
  shows "parse_query (authorize_url tenant client_id redirect_uri (hex_encode sb) (base64url_encode h)) =
    [''client_id'' \<mapsto> client_id, ''response_type'' \<mapsto> ''code'', ''redirect_uri'' \<mapsto> redirect_uri,
     ''response_mode'' \<mapsto> ''query'', ''scope'' \<mapsto> ''https://codesigning.azure.net/.default offline_access'',
     ''state'' \<mapsto> hex_encode sb, ''code_challenge'' \<mapsto> base64url_encode h,
     ''code_challenge_method'' \<mapsto> ''S256'']"
proof -
  let ?ps = "[(''client_id'', client_id), (''response_type'', ''code''), (''redirect_uri'', redirect_uri),
     (''response_mode'', ''query''), (''scope'', SCOPE_SIGN @ '' offline_access''),
     (''state'', hex_encode sb), (''code_challenge'', base64url_encode h), (''code_challenge_method'', ''S256'')]"
  let ?path = "''https://login.microsoftonline.com/'' @ tenant @ ''/oauth2/v2.0/authorize''"
  have "url_encode ''code'' = ''code''" "url_encode ''query'' = ''query''" "url_encode ''S256'' = ''S256''"
    by (rule url_encode_unreserved; simp add: unreserved_def isalnum_def isdigit_def in_range_def)+
  then have "authorize_url tenant client_id redirect_uri (hex_encode sb) (base64url_encode h)
      = ?path @ ''?'' @ form_encode ?ps"
    by (simp add: authorize_url_def form_encode_Cons url_encode_unreserved hex_encode_unreserved
        base64url_encode_unreserved)
  moreover have "index_of (CHR ''?'') (?path @ ''?'' @ form_encode ?ps) = Some (length ?path)"
    using index_of_first [of "CHR ''?''" ?path "form_encode ?ps"] assms by simp
  moreover have "query_loop (form_encode ?ps) Map.empty = map_of (rev ?ps)"
    by (subst query_loop_form) (simp_all add: plain_key_def)
  ultimately show ?thesis
    by (simp add: parse_query_def substr_from_def SCOPE_SIGN_def)
qed

theorem authorize_url_decodes_witness:
  "parse_query (authorize_url ''tenant'' ''client'' ''http://localhost:4242'' (hex_encode [1]) (base64url_encode [2])) ''redirect_uri''
    = Some ''http://localhost:4242''"
  using authorize_url_decodes [of "''tenant''" "''client''" "''http://localhost:4242''" "[1]" "[2]"]
  by (simp del: base64url_encode.simps)

text \<open>
  \<^verbatim>\<open>config\<close> and \<^verbatim>\<open>login\<close> merge the signing defaults: in the file
  they write, each of the three fields that was given has the given value, and every other
  field, the three included, is as in the old file.
\<close>

theorem merge_defaults_fields:
  assumes "\<And>j k v. json_is_object json j \<Longrightarrow> json_is_object json (json_set json j k v)"
    and "\<And>j k v k' d. json_is_object json j \<Longrightarrow>
      json_value json (json_set json j k v) k' d = (if k' = k then Inr v else json_value json j k' d)"
    and "json_read json text = Inr cfg" "json_is_object json cfg"
  shows "json_value json (merge_defaults json (Some text) endp acct prof) k d =
    (if k = ''endpoint'' \<and> endp \<noteq> [] then Inr endp
     else if k = ''account'' \<and> acct \<noteq> [] then Inr acct
     else if k = ''profile'' \<and> prof \<noteq> [] then Inr prof
     else json_value json cfg k d)"
  using assms by (simp add: merge_defaults_def Let_def)

lemma map_of_filter_key: "k' \<noteq> k \<Longrightarrow> map_of (filter (\<lambda>(x, _). x \<noteq> k) kvs) k' = map_of kvs k'"
  by (induction kvs) auto

lemma flat_set:
  "json_is_object flat_lib j \<Longrightarrow> json_is_object flat_lib (json_set flat_lib j k v)"
  "json_is_object flat_lib j \<Longrightarrow>
    json_value flat_lib (json_set flat_lib j k v) k' d = (if k' = k then Inr v else json_value flat_lib j k' d)"
  by (auto simp: flat_lib_def map_of_filter_key)

theorem merge_defaults_fields_witness:
  "json_value flat_lib (merge_defaults flat_lib (Some ''account=old;other=1;'') ''eus'' [] ''p'') ''account'' [] = Inr ''old'' \<and>
   json_value flat_lib (merge_defaults flat_lib (Some ''account=old;other=1;'') ''eus'' [] ''p'') ''profile'' [] = Inr ''p''"
proof -
  have r: "json_read flat_lib ''account=old;other=1;'' = Inr (Some [(''account'', ''old''), (''other'', ''1'')])"
    by code_simp
  have o: "json_is_object flat_lib (Some [(''account'', ''old''), (''other'', ''1'')])"
    by (simp add: flat_lib_def)
  note m = merge_defaults_fields [OF flat_set r o, of "''eus''" "[]" "''p''" _ "[]"]
  show ?thesis
    using m [of "''account''"] m [of "''profile''"] by (simp add: flat_lib_def)
qed

text \<open>
  A login whose token response has no identity token stores no tenant, whatever
  \<^verbatim>\<open>--tenant\<close> was given; the refresh then goes to the built-in tenant, not to the
  one of the login (and not to \<^verbatim>\<open>organizations\<close>).
\<close>

lemma refresh_forgets_tenant:
  assumes "identity json [] = Inr (username, tenant_id, oid)"
  shows "token_url (refresh_tenant tenant_id) = token_url ''fd996ec3-65fc-49a8-a18b-2f8fd65d7b2d''"
  using assms by (simp add: identity_def refresh_tenant_def AAS_SIGN_DEFAULT_TENANT_def)

end
