(* ===== verification/Pe.thy ===== *)
theory Pe
  imports Cms Posix_Files
begin

text \<open>
  Inspection of PE images, from \<^verbatim>\<open>src/src/signing.cpp\<close>: little-endian fields, the
  certificate table and its entries. The code reads through a
  \<^verbatim>\<open>platform::File\<close>, here a reader \<open>rd offset len\<close>. Offsets are sums of 32-bit
  values in a 64-bit type, which cannot wrap, so they are natural numbers.
\<close>

type_synonym 'w reader = "nat \<Rightarrow> nat \<Rightarrow> ('w, bytes) prog"

definition MAX_CMS :: nat where
  "MAX_CMS = 16 * 1024 * 1024"

definition le16 :: "bytes \<Rightarrow> 16 word" where
  "le16 p = ucast (p ! 0) OR push_bit 8 (ucast (p ! 1))"

definition le32 :: "bytes \<Rightarrow> 32 word" where
  "le32 p = ucast (p ! 0) OR push_bit 8 (ucast (p ! 1)) OR push_bit 16 (ucast (p ! 2)) OR push_bit 24 (ucast (p ! 3))"

text \<open>
  One entry of the certificate table, lines before the alignment: its size once the header, the
  padding and the signature it holds have been checked. Then the loop over the table; aligning
  \<open>n\<close> to eight bytes is \<^verbatim>\<open>(n + 7) & ~uint64_t(7)\<close> in the source.
\<close>

definition check_certificate :: "'w reader \<Rightarrow> string \<Rightarrow> nat \<Rightarrow> nat \<Rightarrow> ('w, nat) prog" where
  "check_certificate rd path offset len =
     bindP (checkP (\<not> len < 8) (''truncated WIN_CERTIFICATE: '' @ path)) (\<lambda>_.
     bindP (rd offset 8) (\<lambda>cert.
     let n = unat (le32 cert) in
     bindP (checkP (\<not> (n < 8 \<or> len < n \<or> MAX_CMS < n \<or> le16 (drop 4 cert) \<noteq> 0x200 \<or> le16 (drop 6 cert) \<noteq> 2))
              (''malformed PE Authenticode signature: '' @ path)) (\<lambda>_.
     bindP (rd (offset + 8) (n - 8)) (\<lambda>pkcs7.
     bindP (liftP (der_read_tlv pkcs7)) (\<lambda>der.
     bindP (checkP (list_all (\<lambda>b. b = 0) (drop (total_len der) pkcs7))
              (''invalid PE signature padding: '' @ path)) (\<lambda>_.
     bindP (liftP (cms_has_signer (take (total_len der) pkcs7))) (\<lambda>has_signer.
     bindP (checkP has_signer (''PE signature contains no signer: '' @ path)) (\<lambda>_.
     retP n))))))))"

lemma check_certificate_bounds:
  "check_certificate rd path offset len w = Some (Inr n, w') \<Longrightarrow> 8 \<le> n \<and> n \<le> len"
  by (auto simp: check_certificate_def Let_def result_iff simp del: prog_simps)

definition align8 :: "nat \<Rightarrow> nat" where
  "align8 n = (n + 7) div 8 * 8"

lemma align8_pos: "8 \<le> n \<Longrightarrow> 8 \<le> align8 n"
  by (simp add: align8_def)

function cert_loop :: "'w reader \<Rightarrow> string \<Rightarrow> nat \<Rightarrow> nat \<Rightarrow> bool \<Rightarrow> ('w, bool) prog" where
  "cert_loop rd path offset len found =
     (if len = 0 then retP found
      else
        bindP (check_certificate rd path offset len) (\<lambda>n.
        if len < align8 n then
          (if n \<noteq> len then throwP (''invalid certificate alignment: '' @ path)
           else cert_loop rd path (offset + n) (len - n) True)
        else cert_loop rd path (offset + align8 n) (len - align8 n) True))"
  by pat_completeness auto
termination
proof (relation "measure (\<lambda>(rd, path, offset, len, found). len)", goal_cases)
  case (3 rd path offset len found n w w')
  then show ?case using check_certificate_bounds align8_pos [of n] by fastforce
qed auto

declare cert_loop.simps [simp del]

definition pe_directories :: "16 word \<Rightarrow> nat" where
  "pe_directories format = (if format = 0x10b then 96 else if format = 0x20b then 112 else 0)"

text \<open>From the offset of the PE header on: the header, the directory entry, the table\<close>

definition pe_body :: "'w reader \<Rightarrow> nat \<Rightarrow> string \<Rightarrow> nat \<Rightarrow> ('w, bool) prog" where
  "pe_body rd fsize path pe =
     bindP (rd pe 26) (\<lambda>header.
     bindP (checkP (take 4 header = [0x50, 0x45, 0, 0]) (''invalid PE header: '' @ path)) (\<lambda>_.
     let opt_len = unat (le16 (drop 20 header));
         directories = pe_directories (le16 (drop 24 header)) in
     bindP (checkP (\<not> (directories = 0 \<or> opt_len < directories)) (''invalid PE optional header: '' @ path)) (\<lambda>_.
     bindP (rd (pe + 24 + directories - 4) 4) (\<lambda>count.
     if unat (le32 count) \<le> 4 then retP False
     else
       bindP (checkP (\<not> opt_len < directories + 40) (''truncated PE data directory: '' @ path)) (\<lambda>_.
       bindP (rd (pe + 24 + directories + 32) 8) (\<lambda>entry.
       let offset = unat (le32 entry); len = unat (le32 (drop 4 entry)) in
       if offset = 0 \<and> len = 0 then retP False
       else
         bindP (checkP (\<not> (offset = 0 \<or> len = 0 \<or> offset mod 8 \<noteq> 0 \<or> offset < pe + 24 + opt_len \<or>
                          fsize < offset \<or> fsize - offset < len))
                  (''invalid PE certificate table: '' @ path)) (\<lambda>_.
         cert_loop rd path offset len False)))))))"

definition pe_image_signed :: "'w reader \<Rightarrow> nat \<Rightarrow> string \<Rightarrow> ('w, bool) prog" where
  "pe_image_signed rd fsize path =
     bindP (rd 0 64) (\<lambda>dos.
     bindP (checkP (take 2 dos = [0x4D, 0x5A]) (''not a PE image: '' @ path)) (\<lambda>_.
     pe_body rd fsize path (unat (le32 (drop 60 dos)))))"

text \<open>\<^verbatim>\<open>platform::File\<close> as a scope: opened for reading and writing, closed on every exit\<close>

definition with_file :: "'w sys \<Rightarrow> string \<Rightarrow> (nat \<Rightarrow> ('w, 'a) prog) \<Rightarrow> ('w, 'a) prog" where
  "with_file sys path f =
     bindP (callP (sys_open sys Open_RDWR path) (errno_msg sys ''open'' path)) (\<lambda>fd. scopedP sys fd (f fd))"

definition pe_has_signature :: "'w sys \<Rightarrow> string \<Rightarrow> ('w, bool) prog" where
  "pe_has_signature sys path =
     with_file sys path (\<lambda>fd.
       bindP (file_size sys fd path) (\<lambda>fsize. pe_image_signed (read_at sys fd path) fsize path))"

section \<open>Lemmas\<close>

text \<open>The reader of an image in memory: it throws when the range is not inside (an empty one always is)\<close>

definition content_reader :: "bytes \<Rightarrow> string \<Rightarrow> 'w reader" where
  "content_reader content path offset len =
     (if offset + len \<le> length content \<or> len = 0 then retP (take len (drop offset content))
      else throwP (''pread '' @ path @ '': unexpected EOF''))"

lemma content_reader_Inr [result_iff]:
  "content_reader content path offset len w = Some (Inr bs, w') \<longleftrightarrow>
    (offset + len \<le> length content \<or> len = 0) \<and> bs = take len (drop offset content) \<and> w' = w"
  by (auto simp: content_reader_def)

text \<open>How far one entry reaches: to its alignment, or to the end of the table\<close>

definition cert_step :: "nat \<Rightarrow> nat \<Rightarrow> nat" where
  "cert_step len n = (if align8 n \<le> len then align8 n else n)"

lemma cert_step_pos: "8 \<le> n \<Longrightarrow> 0 < cert_step len n"
  using align8_pos [of n] by (auto simp: cert_step_def)

text \<open>The entries of a certificate table: offset, size, and the CMS in each\<close>

definition win_certificate :: "bytes \<Rightarrow> nat \<Rightarrow> nat \<Rightarrow> bool" where
  "win_certificate content offset n \<longleftrightarrow> 8 \<le> n \<and> n \<le> MAX_CMS \<and> offset + n \<le> length content \<and>
     unat (le32 (take 8 (drop offset content))) = n \<and>
     le16 (drop 4 (take 8 (drop offset content))) = 0x200 \<and> le16 (drop 6 (take 8 (drop offset content))) = 2"

inductive cert_entries :: "bytes \<Rightarrow> nat \<Rightarrow> nat \<Rightarrow> bytes list \<Rightarrow> bool" for content where
  cert_nil: "cert_entries content offset 0 []"
| cert_cons: "win_certificate content offset n \<Longrightarrow> n \<le> len \<Longrightarrow> cms_has_signer cms = Inr True \<Longrightarrow>
     take (n - 8) (drop (offset + 8) content) = cms @ replicate pad 0 \<Longrightarrow>
     align8 n \<le> len \<or> n = len \<Longrightarrow>
     cert_entries content (offset + cert_step len n) (len - cert_step len n) entries \<Longrightarrow>
     cert_entries content offset len (cms # entries)"

inductive_simps cert_entries_iff: "cert_entries content offset len entries"

lemma cert_entries_0: "cert_entries content offset 0 entries \<longleftrightarrow> entries = []"
  by (subst cert_entries_iff) (auto simp: win_certificate_def)

lemma cert_entries_pos:
  assumes "len \<noteq> 0"
  shows "cert_entries content offset len entries \<longleftrightarrow>
    (\<exists>n cms pad entries'. entries = cms # entries' \<and> win_certificate content offset n \<and> n \<le> len \<and>
       take (n - 8) (drop (offset + 8) content) = cms @ replicate pad 0 \<and> cms_has_signer cms = Inr True \<and>
       (align8 n \<le> len \<or> n = len) \<and>
       cert_entries content (offset + cert_step len n)
         (len - cert_step len n) entries')"
  by (subst cert_entries_iff) (use assms in blast)

lemma cms_has_signer_complete:
  "cms_has_signer cms = Inr b \<Longrightarrow> \<exists>v. der_read_tlv cms = Inr v \<and> total_len v = length cms"
  by (auto simp: cms_has_signer_def signed_data_def result_iff)

lemma all_zero_replicate: "list_all (\<lambda>b. b = 0) xs \<longleftrightarrow> (\<exists>k. xs = replicate k 0)"
  by (auto simp: list_all_iff intro!: exI [of _ "length xs"] replicate_eqI)

lemma signed_padded:
  "(\<exists>der. der_read_tlv pkcs7 = Inr der \<and> list_all (\<lambda>b. b = 0) (drop (total_len der) pkcs7) \<and>
      cms_has_signer (take (total_len der) pkcs7) = Inr True) \<longleftrightarrow>
   (\<exists>cms pad. pkcs7 = cms @ replicate pad 0 \<and> cms_has_signer cms = Inr True)" (is "?l \<longleftrightarrow> ?r")
proof
  assume ?l
  then show ?r by (metis all_zero_replicate append_take_drop_id)
next
  assume ?r
  then obtain cms pad v where p: "pkcs7 = cms @ replicate pad 0" "cms_has_signer cms = Inr True"
    "der_read_tlv cms = Inr v" "total_len v = length cms"
    using cms_has_signer_complete by blast
  have "tlv_raw v = cms" using der_read_tlv_bounds(5) [OF p(3)] p(4) by simp
  with der_read_tlv_prefix [OF p(3), of "replicate pad 0"] have "der_read_tlv pkcs7 = Inr v"
    by (simp add: p(1))
  with p show ?l by (auto simp: list_all_iff)
qed

text \<open>One entry on an image in memory\<close>

lemma check_certificate_content:
  "check_certificate (content_reader content path) path offset len w = Some (Inr n, w') \<longleftrightarrow>
    w' = w \<and> win_certificate content offset n \<and> n \<le> len \<and>
    (\<exists>cms pad. take (n - 8) (drop (offset + 8) content) = cms @ replicate pad 0 \<and> cms_has_signer cms = Inr True)"
proof -
  have "check_certificate (content_reader content path) path offset len w = Some (Inr n, w') \<longleftrightarrow>
      w' = w \<and> win_certificate content offset n \<and> n \<le> len \<and>
      (\<exists>der. der_read_tlv (take (n - 8) (drop (offset + 8) content)) = Inr der \<and>
        list_all (\<lambda>b. b = 0) (drop (total_len der) (take (n - 8) (drop (offset + 8) content))) \<and>
        cms_has_signer (take (total_len der) (take (n - 8) (drop (offset + 8) content))) = Inr True)"
    unfolding check_certificate_def Let_def win_certificate_def
    by (auto simp: result_iff simp del: prog_simps)
  then show ?thesis unfolding signed_padded .
qed

lemma content_check_world:
  "check_certificate (content_reader content path) path offset len w = Some (Inr n, w') \<Longrightarrow> w' = w"
  by (simp add: check_certificate_content)

lemma cert_loop_unfold:
  assumes "len \<noteq> 0"
  shows "cert_loop (content_reader content path) path offset len found w = Some (Inr b, w') \<longleftrightarrow>
    (\<exists>n. check_certificate (content_reader content path) path offset len w = Some (Inr n, w) \<and>
      (align8 n \<le> len \<or> n = len) \<and>
      cert_loop (content_reader content path) path (offset + cert_step len n)
        (len - cert_step len n) True w = Some (Inr b, w'))"
proof -
  let ?rd = "content_reader content path"
  have "cert_loop ?rd path offset len found w = Some (Inr b, w') \<longleftrightarrow>
    (\<exists>n u. check_certificate ?rd path offset len w = Some (Inr n, u) \<and>
      (if len < align8 n then
          (if n \<noteq> len then throwP (''invalid certificate alignment: '' @ path)
           else cert_loop ?rd path (offset + n) (len - n) True)
        else cert_loop ?rd path (offset + align8 n) (len - align8 n) True) u = Some (Inr b, w'))"
    by (simp only: cert_loop.simps [of ?rd path offset len found] if_not_P [OF assms] bindP_Inr_iff)
  also have "\<dots> \<longleftrightarrow> (\<exists>n. check_certificate ?rd path offset len w = Some (Inr n, w) \<and>
      (if len < align8 n then
          (if n \<noteq> len then throwP (''invalid certificate alignment: '' @ path)
           else cert_loop ?rd path (offset + n) (len - n) True)
        else cert_loop ?rd path (offset + align8 n) (len - align8 n) True) w = Some (Inr b, w'))"
    by (intro ex_cong1) (use content_check_world in fastforce)
  also have "\<dots> \<longleftrightarrow> (\<exists>n. check_certificate ?rd path offset len w = Some (Inr n, w) \<and>
      (align8 n \<le> len \<or> n = len) \<and>
      cert_loop ?rd path (offset + cert_step len n)
        (len - cert_step len n) True w = Some (Inr b, w'))"
  proof (intro ex_cong1 conj_cong refl)
    show "(if len < align8 n then (if n \<noteq> len then throwP (''invalid certificate alignment: '' @ path)
           else cert_loop ?rd path (offset + n) (len - n) True)
        else cert_loop ?rd path (offset + align8 n) (len - align8 n) True) w = Some (Inr b, w') \<longleftrightarrow>
      (align8 n \<le> len \<or> n = len) \<and> cert_loop ?rd path (offset + cert_step len n)
        (len - cert_step len n) True w = Some (Inr b, w')" for n
      by (cases "len < align8 n"; cases "n = len") (simp_all add: not_le cert_step_def)
  qed
  finally show ?thesis .
qed

lemma cert_loop_content:
  "cert_loop (content_reader content path) path offset len found w = Some (Inr b, w') \<longleftrightarrow>
    w' = w \<and> (\<exists>entries. cert_entries content offset len entries \<and> b = (found \<or> entries \<noteq> []))"
proof (induction len arbitrary: offset found rule: less_induct)
  case (less len)
  let ?run = "\<lambda>offset len found. cert_loop (content_reader content path) path offset len found w = Some (Inr b, w')"
  show ?case
  proof (cases "len = 0")
    case True
    then show ?thesis
      by (auto simp: cert_loop.simps [of _ _ _ 0] cert_entries_0)
  next
    case False
    let ?step = "\<lambda>n. cert_step len n"
    let ?ok = "\<lambda>n cms pad. win_certificate content offset n \<and> n \<le> len \<and>
        take (n - 8) (drop (offset + 8) content) = cms @ replicate pad 0 \<and> cms_has_signer cms = Inr True \<and>
        (align8 n \<le> len \<or> n = len)"
    have shrink: "?ok n cms pad \<Longrightarrow> len - ?step n < len" for n cms pad
      using False cert_step_pos [of n len] by (auto simp: win_certificate_def)
    have "?run offset len found \<longleftrightarrow>
        (\<exists>n. check_certificate (content_reader content path) path offset len w = Some (Inr n, w) \<and>
          (align8 n \<le> len \<or> n = len) \<and> ?run (offset + ?step n) (len - ?step n) True)"
      by (rule cert_loop_unfold [OF False])
    also have "\<dots> \<longleftrightarrow> (\<exists>n. (\<exists>cms pad. ?ok n cms pad) \<and> ?run (offset + ?step n) (len - ?step n) True)"
      unfolding check_certificate_content by (intro ex_cong1) blast
    also have "\<dots> \<longleftrightarrow> (\<exists>n. (\<exists>cms pad. ?ok n cms pad) \<and> w' = w \<and> b \<and>
        (\<exists>entries. cert_entries content (offset + ?step n) (len - ?step n) entries))"
    proof (intro ex_cong1 conj_cong refl)
      fix n assume "\<exists>cms pad. ?ok n cms pad"
      then have "len - ?step n < len" using shrink by blast
      from less [OF this] show "?run (offset + ?step n) (len - ?step n) True \<longleftrightarrow> w' = w \<and> b \<and>
          (\<exists>entries. cert_entries content (offset + ?step n) (len - ?step n) entries)"
        by auto
    qed
    also have "\<dots> \<longleftrightarrow> w' = w \<and> (\<exists>entries. cert_entries content offset len entries \<and> b = (found \<or> entries \<noteq> []))"
      unfolding cert_entries_pos [OF False] by blast
    finally show ?thesis .
  qed
qed

text \<open>The answer yes comes from a table inside the image\<close>

lemma retP_False_True: "(if c then retP False else m) w = Some (Inr True, w') \<longleftrightarrow> \<not> c \<and> m w = Some (Inr True, w')"
  by simp

definition signed_image :: "bytes \<Rightarrow> bool" where
  "signed_image content \<longleftrightarrow> (\<exists>offset len entries. cert_entries content offset len entries \<and> entries \<noteq> [] \<and>
     0 < offset \<and> offset mod 8 = 0 \<and> offset + len \<le> length content)"

lemma pe_body_signed:
  assumes "pe_body (content_reader content path) (length content) path pe w = Some (Inr True, w')"
  shows "signed_image content"
proof -
  note iffs = Let_def bindP_Inr_iff prog_Inr_iff content_reader_Inr retP_False_True
  from assms obtain offset len where
    l: "cert_loop (content_reader content path) path offset len False w = Some (Inr True, w')"
    and "\<not> (offset = 0 \<or> len = 0 \<or> offset mod 8 \<noteq> 0 \<or> length content < offset \<or> length content - offset < len)"
    unfolding pe_body_def iffs by blast
  moreover from this(2) have "0 < offset" "offset mod 8 = 0" "offset + len \<le> length content"
    by linarith+
  ultimately show ?thesis
    unfolding signed_image_def using l [unfolded cert_loop_content]
    by (intro exI [of _ offset] exI [of _ len]) auto
qed

lemma pe_image_signed_content:
  assumes "pe_image_signed (content_reader content path) (length content) path w = Some (Inr True, w')"
  shows "signed_image content"
  using assms unfolding pe_image_signed_def bindP_Inr_iff by (blast intro: pe_body_signed)

section \<open>Reading through a file\<close>

text \<open>
  The interface the inspection relies on: while the source is ready, a read returns, keeps it
  ready, and gives the bytes of the content in the range, or throws. Against it, an inspection
  behaves like the one on the content in memory: it returns, and its answer is that one.
\<close>

definition sim :: "('w \<Rightarrow> bool) \<Rightarrow> ('w, 'a) prog \<Rightarrow> (unit, 'a) prog \<Rightarrow> bool" where
  "sim ready m m0 \<longleftrightarrow> (\<forall>w. ready w \<longrightarrow> returnsP m (\<lambda>r w'. ready w' \<and> (\<forall>x. r = Inr x \<longrightarrow> m0 () = Some (Inr x, ()))) w)"

lemma sim_bind:
  assumes "sim ready m m0" "\<And>x. m0 () = Some (Inr x, ()) \<Longrightarrow> sim ready (f x) (f0 x)"
  shows "sim ready (bindP m f) (bindP m0 f0)"
  unfolding sim_def
proof (intro allI impI)
  fix w assume "ready w"
  with assms(1) have "returnsP m (\<lambda>r w'. ready w' \<and> (\<forall>x. r = Inr x \<longrightarrow> m0 () = Some (Inr x, ()))) w"
    by (simp add: sim_def)
  then show "returnsP (bindP m f) (\<lambda>r w'. ready w' \<and> (\<forall>x. r = Inr x \<longrightarrow> bindP m0 f0 () = Some (Inr x, ()))) w"
    by (rule returnsP_bindI) (use assms(2) in \<open>auto simp: sim_def bindP_apply(3)\<close>)
qed

lemma sim_basic:
  "sim ready (retP x) (retP x)" "sim ready (liftP r) (liftP r)" "sim ready (checkP ok msg) (checkP ok msg)"
  "sim ready (throwP msg) (throwP msg)"
  by (auto simp: sim_def returnsP_def)

lemma sim_if:
  "(b \<Longrightarrow> sim ready m m0) \<Longrightarrow> (\<not> b \<Longrightarrow> sim ready n n0) \<Longrightarrow> sim ready (if b then m else n) (if b then m0 else n0)"
  by simp

locale byte_source =
  fixes rd :: "'w reader" and content :: bytes and ready :: "'w \<Rightarrow> bool" and path :: string
  assumes rd_content: "sim ready (rd offset len) (content_reader content path offset len)"
begin

lemma check_certificate_sim:
  "sim ready (check_certificate rd path offset len) (check_certificate (content_reader content path) path offset len)"
  unfolding check_certificate_def Let_def by (intro sim_bind sim_basic rd_content)

lemma cert_loop_sim:
  "sim ready (cert_loop rd path offset len found) (cert_loop (content_reader content path) path offset len found)"
proof (induction len arbitrary: offset found rule: less_induct)
  case (less len)
  show ?case
  proof (subst (1 2) cert_loop.simps, intro sim_if sim_bind sim_basic check_certificate_sim)
    fix n assume "len \<noteq> 0" and c: "check_certificate (content_reader content path) path offset len () = Some (Inr n, ())"
    with check_certificate_bounds [OF c] align8_pos [of n]
    show "sim ready (cert_loop rd path (offset + n) (len - n) True)
          (cert_loop (content_reader content path) path (offset + n) (len - n) True)"
      and "sim ready (cert_loop rd path (offset + align8 n) (len - align8 n) True)
          (cert_loop (content_reader content path) path (offset + align8 n) (len - align8 n) True)"
      by (auto intro!: less)
  qed
qed

lemma pe_image_signed_sim:
  "sim ready (pe_image_signed rd fsize path) (pe_image_signed (content_reader content path) fsize path)"
  unfolding pe_image_signed_def pe_body_def Let_def by (intro sim_bind sim_if sim_basic rd_content cert_loop_sim)

lemma pe_image_signed_source:
  assumes "ready w"
  shows "returnsP (pe_image_signed rd (length content) path)
    (\<lambda>r w'. ready w' \<and> (r = Inr True \<longrightarrow> signed_image content)) w"
proof (rule returnsP_weaken)
  show "returnsP (pe_image_signed rd (length content) path) (\<lambda>r w'. ready w' \<and>
      (\<forall>x. r = Inr x \<longrightarrow> pe_image_signed (content_reader content path) (length content) path () = Some (Inr x, ()))) w"
    using pe_image_signed_sim assms unfolding sim_def by blast
qed (blast intro: pe_image_signed_content)

end

interpretation memory: byte_source "content_reader content path" content "\<lambda>_. True" path for content path
  by unfold_locales (auto simp: sim_def returnsP_def content_reader_def)

text \<open>An open file is such a source\<close>

abbreviation opened :: "'w fs_view \<Rightarrow> (string \<rightharpoonup> bytes) \<Rightarrow> nat \<Rightarrow> string \<Rightarrow> 'w \<Rightarrow> bool" where
  "opened fs F fd path \<equiv> (\<lambda>w. files fs w = F \<and> handle fs w fd = Some path)"

text \<open>One partial read and the rest of it\<close>

lemma read_slice:
  assumes "d = take (length d) (drop offset content)" "d \<noteq> []"
  shows "offset + length d \<le> length content"
    and "length d \<le> len \<Longrightarrow> d @ take (len - length d) (drop (offset + length d) content) = take len (drop offset content)"
proof -
  show "offset + length d \<le> length content"
    using assms by (metis (no_types, lifting) add_diff_inverse_nat add_le_cancel_left drop_all length_drop
        length_take min.cobounded1 min_def nat_le_linear not_less take_Nil)
  show "length d \<le> len \<Longrightarrow> d @ take (len - length d) (drop (offset + length d) content) = take len (drop offset content)"
    using assms(1) by (metis add.commute drop_drop le_add_diff_inverse take_add)
qed

lemma read_at_loop_content:
  assumes "read_contract sys fs" "F path = Some content" "opened fs F fd path w"
  shows "returnsP (read_at_loop sys fd path offset len buf) (\<lambda>r w'. opened fs F fd path w' \<and>
    (\<forall>bs. r = Inr bs \<longrightarrow> (offset + len \<le> length content \<or> len = 0) \<and> bs = buf @ take len (drop offset content))) w"
  using assms(3)
proof (induction "(len, patience fs w)" arbitrary: offset len buf w
    rule: wf_induct_rule [OF wf_lex_prod [OF wf_less wf_less]])
  case less: 1
  note rc = assms(1) [unfolded read_contract_def, rule_format, of w fd path content, THEN conjunct1, rule_format, of offset len]
  show ?case
  proof (cases "len = 0")
    case True
    with less.prems show ?thesis by (simp add: returnsP_def read_at_loop.simps)
  next
    case False
    obtain r w1 where s: "sys_pread sys fd offset len w = (r, w1)" by fastforce
    show ?thesis
    proof (cases r)
      case (Inl e)
      with rc s less.prems assms(2) have k: "opened fs F fd path w1" "e = EINTR \<Longrightarrow> patience fs w1 < patience fs w" by auto
      with less.hyps [of len w1 offset buf] False s Inl show ?thesis
        by (cases "e = EINTR") (simp_all add: returnsP_def read_at_loop.simps [of sys fd path offset len buf w])
    next
      case (Inr d)
      with rc s less.prems assms(2) have k: "opened fs F fd path w1" "d = take (length d) (drop offset content)"
        "length d \<le> len" by auto
      show ?thesis
      proof (cases "d = []")
        case True
        with False s Inr k show ?thesis by (simp add: returnsP_def read_at_loop.simps [of sys fd path offset len buf w])
      next
        case d: False
        note l = read_slice(1) [OF k(2) d] and t = read_slice(2) [OF k(2) d k(3)]
        have "returnsP (read_at_loop sys fd path (offset + length d) (len - length d) (buf @ d)) (\<lambda>r w'. opened fs F fd path w' \<and>
          (\<forall>bs. r = Inr bs \<longrightarrow> (offset + length d + (len - length d) \<le> length content \<or> len - length d = 0) \<and>
             bs = (buf @ d) @ take (len - length d) (drop (offset + length d) content))) w1"
          by (rule less.hyps) (use d False k(1) in simp_all)
        then have "returnsP (read_at_loop sys fd path (offset + length d) (len - length d) (buf @ d)) (\<lambda>r w'. opened fs F fd path w' \<and>
          (\<forall>bs. r = Inr bs \<longrightarrow> (offset + len \<le> length content \<or> len = 0) \<and> bs = buf @ take len (drop offset content))) w1"
          by (rule returnsP_weaken) (use l k(3) t in auto)
        with False s Inr d show ?thesis
          by (simp add: returnsP_def read_at_loop.simps [of sys fd path offset len buf w])
      qed
    qed
  qed
qed

lemma read_at_source:
  assumes "read_contract sys fs" "F path = Some content"
  shows "byte_source (read_at sys fd path) content (opened fs F fd path) path"
  by unfold_locales
    (auto simp: sim_def read_at_def content_reader_def intro!: returnsP_weaken [OF read_at_loop_content [where F = F and path = path, OF assms]])

lemma with_file_source:
  assumes "fs_contract sys fs" "read_contract sys fs" "files fs w path = Some content"
    and body: "\<And>fd w'. opened fs (files fs w) fd path w' \<Longrightarrow>
      returnsP (body (read_at sys fd path) (length content)) (\<lambda>r w''. opened fs (files fs w) fd path w'' \<and> P r) w'"
    and err: "\<And>e. P (Inl e)"
  shows "returnsP (with_file sys path (\<lambda>fd. bindP (file_size sys fd path) (\<lambda>n. body (read_at sys fd path) n)))
    (\<lambda>r w'. files fs w' = files fs w \<and> P r) w"
  unfolding with_file_def
proof (rule returnsP_bindI)
  show "returnsP (callP (sys_open sys Open_RDWR path) (errno_msg sys ''open'' path))
      (\<lambda>r w'. files fs w' = files fs w \<and> (\<forall>fd. r = Inr fd \<longrightarrow> handle fs w' fd = Some path)) w"
    using assms(1) [unfolded fs_contract_def, THEN conjunct1, unfolded open_contract_def, rule_format, where m = Open_RDWR and p = path and w = w]
    by (auto simp: wp split: prod.splits sum.splits)
next
  fix fd w' assume o: "files fs w' = files fs w \<and> (\<forall>k. Inr fd = Inr k \<longrightarrow> handle fs w' k = Some path)"
  have q: "quiet_call fs (sys_close sys fd)" "quiet_call fs (sys_fstat sys fd)"
    using assms(1) by (simp_all add: fs_contract_def quiet_contract_def)
  obtain r w1 where s: "sys_fstat sys fd w' = (r, w1)" by fastforce
  then have "files fs w1 = files fs w" using quiet_callD [OF q(2)] o by metis
  with s o assms(3) assms(2) [unfolded read_contract_def, rule_format, of w' fd path content]
  have sz: "returnsP (file_size sys fd path) (\<lambda>r w''. files fs w'' = files fs w \<and>
      (\<forall>n. r = Inr n \<longrightarrow> n = length content \<and> handle fs w'' fd = Some path)) w'"
    unfolding file_size_def by (cases r) (auto simp: wp split: sum.splits)
  have "returnsP (bindP (file_size sys fd path) (\<lambda>n. body (read_at sys fd path) n))
      (\<lambda>r w''. files fs w'' = files fs w \<and> P r) w'"
    by (rule returnsP_bindI [OF sz]) (auto simp: err intro: returnsP_weaken [OF body])
  then show "returnsP (scopedP sys fd (bindP (file_size sys fd path) (\<lambda>n. body (read_at sys fd path) n)))
      (\<lambda>r w'. files fs w' = files fs w \<and> P r) w'"
    unfolding returnsP_scopedP
    by (rule returnsP_weaken) (use q(1) in \<open>auto simp: quiet_call_def\<close>)
qed (auto simp: err)

section \<open>Properties\<close>

text \<open>
  C28: what the certificate table check establishes. On an image in memory the loop of
  \<^verbatim>\<open>pe_has_signature\<close> returns, and it returns an answer exactly when the table is a
  sequence of entries that fill it: each inside the image with its declared size, revision 2.0
  and PKCS#7 type, each holding a CMS that passes \<^verbatim>\<open>cms_has_signer\<close>, followed by zero
  bytes only, aligned to eight. The answer says whether there is an entry.
\<close>

theorem cert_table_check:
  "cert_loop (content_reader content path) path offset len False w = Some (Inr b, w') \<longleftrightarrow>
    w' = w \<and> (\<exists>entries. cert_entries content offset len entries \<and> b = (entries \<noteq> []))"
  by (simp add: cert_loop_content)

text \<open>
  C29: \<^verbatim>\<open>pe_has_signature\<close> on a file, through partial and interrupted reads:
  it returns, no file is changed, and it answers yes only for an image whose security directory
  lies inside the file and holds at least one certificate entry, and only well-formed entries
  with a signer.
\<close>

theorem pe_has_signature_sound:
  assumes "fs_contract sys fs" "read_contract sys fs" "files fs w path = Some content"
  shows "returnsP (pe_has_signature sys path)
    (\<lambda>r w'. files fs w' = files fs w \<and> (r = Inr True \<longrightarrow> signed_image content)) w"
  unfolding pe_has_signature_def
  by (rule with_file_source [OF assms,
        where body = "\<lambda>rd n. pe_image_signed rd n path" and P = "\<lambda>r. r = Inr True \<longrightarrow> signed_image content"])
    (rule byte_source.pe_image_signed_source [OF read_at_source [where F = "files fs w", OF assms(2,3)]], simp_all)

theorem pe_has_signature_sound_witness:
  "fs_contract sample_sys sample_view \<and> read_contract sample_sys sample_view \<and>
   returnsP (pe_has_signature sample_sys ''a.exe'')
    (\<lambda>r w'. files sample_view w' = files sample_view ([''a.exe'' \<mapsto> [0x4D, 0x5A]], Map.empty) \<and>
       (if r = Inr True then signed_image [0x4D, 0x5A] else True)) ([''a.exe'' \<mapsto> [0x4D, 0x5A]], Map.empty)"
proof -
  have "files sample_view ([''a.exe'' \<mapsto> [0x4D, 0x5A]], Map.empty) ''a.exe'' = Some [0x4D, 0x5A]"
    by (simp add: sample_view_def)
  from pe_has_signature_sound [OF sample_fs_contract sample_read_contract this]
  show ?thesis using sample_fs_contract sample_read_contract by (auto elim!: returnsP_weaken)
qed

end
