(* ===== verification/Cabinet.thy ===== *)
theory Cabinet
  imports Pe "HOL-Library.Product_Lexorder"
begin

text \<open>
  Cabinet files, from \<^verbatim>\<open>src/src/msi_recursive.cpp\<close>: the inspection of a cabinet before
  anything is extracted from it, and the restoration of metadata in a rebuilt one. Offsets and
  sizes are sums of 16- and 32-bit fields in a 64-bit type that cannot wrap, so they are natural
  numbers; the differences the code forms are never negative where it forms them.
\<close>

definition expansion_limit :: nat where
  "expansion_limit = 1024 * 1024 * 1024"

definition member_limit :: nat where
  "member_limit = 65535"

definition invalid_msg :: "string \<Rightarrow> string" where
  "invalid_msg reason = ''recursive MSI: '' @ reason"

definition requireP :: "bool \<Rightarrow> string \<Rightarrow> ('w, unit) prog" where
  "requireP ok reason = checkP ok (invalid_msg reason)"

definition u16 :: "bytes \<Rightarrow> 16 word" where
  "u16 p = ucast (p ! 0) OR push_bit 8 (ucast (p ! 1))"

definition u32 :: "bytes \<Rightarrow> 32 word" where
  "u32 p = ucast (u16 p) OR push_bit 16 (ucast (u16 (drop 2 p)))"

definition safe_name :: "string \<Rightarrow> bool" where
  "safe_name name \<longleftrightarrow> name \<noteq> [] \<and> name \<noteq> ''.'' \<and> name \<noteq> ''..'' \<and>
     list_all (\<lambda>c. c \<noteq> CHR ''/'' \<and> c \<noteq> CHR 0x5C \<and> c \<noteq> CHR '':'') name \<and>
     list_all (\<lambda>c. \<not> ((of_char c :: nat) < 32 \<or> (of_char c :: nat) = 127)) name"

record CabinetMember =
  m_name :: string
  m_path :: string
  m_size :: "32 word"
  m_date :: "16 word"
  m_time :: "16 word"
  m_attributes :: "16 word"

record Cabinet =
  cab_name :: string
  cab_path :: string
  cab_first :: int
  cab_last :: int
  cab_members :: "CabinetMember list"
  cab_changed :: bool

record Folder =
  f_start :: nat
  f_end :: nat
  f_expanded :: nat
  f_files :: "(nat \<times> nat) list"

section \<open>Folders\<close>

text \<open>The data blocks of a folder: where they end and the expanded size\<close>

primrec block_loop :: "'w reader \<Rightarrow> nat \<Rightarrow> nat \<Rightarrow> nat \<Rightarrow> nat \<Rightarrow> nat \<Rightarrow> ('w, nat \<times> nat) prog" where
  "block_loop rd len data_reserve 0 end_pos expanded = retP (end_pos, expanded)"
| "block_loop rd len data_reserve (Suc n) end_pos expanded =
     bindP (requireP (\<not> len - end_pos < 8 + data_reserve) ''truncated cabinet data block'') (\<lambda>_.
     bindP (rd end_pos 8) (\<lambda>data.
     let packed = unat (u16 (drop 4 data)); unpacked = unat (u16 (drop 6 data)) in
     bindP (requireP (\<not> (unpacked = 0 \<or> 32768 < unpacked \<or> packed = 0))
              ''invalid or spanning cabinet data block'') (\<lambda>_.
     let block = 8 + data_reserve + packed in
     bindP (requireP (\<not> len - end_pos < block) ''truncated cabinet data'') (\<lambda>_.
     block_loop rd len data_reserve n (end_pos + block) (expanded + unpacked)))))"

primrec folder_loop ::
    "'w reader \<Rightarrow> nat \<Rightarrow> string \<Rightarrow> nat \<Rightarrow> nat \<Rightarrow> nat \<Rightarrow> nat \<Rightarrow> nat \<Rightarrow> Folder list \<Rightarrow>
     ('w, nat \<times> nat \<times> Folder list) prog" where
  "folder_loop rd len name folder_reserve data_reserve 0 pos cabinet_expanded folder_info =
     retP (pos, cabinet_expanded, folder_info)"
| "folder_loop rd len name folder_reserve data_reserve (Suc n) pos cabinet_expanded folder_info =
     bindP (rd pos 8) (\<lambda>f.
     let compression = u16 (drop 6 f) AND 15; start = unat (u32 f) in
     bindP (requireP (\<not> (compression \<noteq> 0 \<and> compression \<noteq> 1 \<and> compression \<noteq> 3))
              (''unsupported cabinet compression: '' @ name)) (\<lambda>_.
     bindP (requireP (\<not> len < start) ''cabinet folder lies outside file'') (\<lambda>_.
     bindP (block_loop rd len data_reserve (unat (u16 (drop 4 f))) start 0) (\<lambda>(end_pos, expanded).
     bindP (requireP (\<not> expansion_limit - cabinet_expanded < expanded) ''expanded cabinet exceeds 1 GiB'') (\<lambda>_.
     folder_loop rd len name folder_reserve data_reserve n (pos + 8 + folder_reserve)
       (cabinet_expanded + expanded)
       (folder_info @ [\<lparr>f_start = start, f_end = end_pos, f_expanded = expanded, f_files = []\<rparr>]))))))"

section \<open>Members\<close>

text \<open>A zero-terminated name of at most 255 bytes: the position after it and the name\<close>

function name_loop :: "'w reader \<Rightarrow> nat \<Rightarrow> string \<Rightarrow> nat \<Rightarrow> string \<Rightarrow> ('w, nat \<times> string) prog" where
  "name_loop rd len reason cursor name =
     (if len \<le> cursor \<or> 255 < length name then throwP (invalid_msg reason)
      else
        bindP (rd cursor 1) (\<lambda>ch.
        if ch ! 0 = 0 then retP (cursor + 1, name)
        else name_loop rd len reason (cursor + 1) (name @ [char_of_byte (ch ! 0)])))"
  by pat_completeness auto
termination by (relation "measure (\<lambda>(rd, len, reason, cursor, name). len - cursor)") auto

declare name_loop.simps [simp del]

definition payload_path :: "string \<Rightarrow> nat \<Rightarrow> string" where
  "payload_path workspace cnt = workspace @ ''/payload-'' @ to_string_nat cnt"

definition add_range :: "nat \<Rightarrow> nat \<times> nat \<Rightarrow> Folder list \<Rightarrow> Folder list" where
  "add_range i r folder_info = folder_info[i := (folder_info ! i)\<lparr>f_files := f_files (folder_info ! i) @ [r]\<rparr>]"

text \<open>
  The file records: the position, the number of payload members so far, the names seen, the
  folders with the ranges their members occupy, and the members
\<close>

primrec member_loop ::
    "'w reader \<Rightarrow> nat \<Rightarrow> string \<Rightarrow> nat \<Rightarrow> nat \<Rightarrow> nat \<Rightarrow> string set \<Rightarrow> Folder list \<Rightarrow> CabinetMember list \<Rightarrow>
     ('w, nat \<times> nat \<times> Folder list \<times> CabinetMember list) prog" where
  "member_loop rd len workspace 0 cursor cnt names folder_info members =
     retP (cursor, cnt, folder_info, members)"
| "member_loop rd len workspace (Suc n) cursor cnt names folder_info members =
     bindP (requireP (\<not> len - cursor < 17) ''truncated cabinet file record'') (\<lambda>_.
     bindP (rd cursor 16) (\<lambda>f.
     let i = unat (u16 (drop 8 f)); msize = u32 f; offset = unat (u32 (drop 4 f)) in
     bindP (requireP (\<not> length folder_info \<le> i) ''spanning or invalid cabinet member'') (\<lambda>_.
     let expanded = f_expanded (folder_info ! i) in
     bindP (requireP (\<not> (expanded < offset \<or> expanded - offset < unat msize))
              ''cabinet member exceeds folder data'') (\<lambda>_.
     bindP (name_loop rd len ''invalid cabinet member name'' (cursor + 16) []) (\<lambda>(cursor, name).
     bindP (requireP (safe_name name \<and> name \<notin> names)
              (''unsafe or duplicate cabinet member name: '' @ name)) (\<lambda>_.
     member_loop rd len workspace n cursor (cnt + 1) (insert name names)
       (add_range i (offset, offset + unat msize) folder_info)
       (members @ [\<lparr>m_name = name, m_path = payload_path workspace cnt, m_size = msize,
                    m_date = u16 (drop 10 f), m_time = u16 (drop 12 f), m_attributes = u16 (drop 14 f)\<rparr>])))))))"

section \<open>Overlaps\<close>

primrec check_ranges :: "string \<Rightarrow> nat \<Rightarrow> (nat \<times> nat) list \<Rightarrow> unit result" where
  "check_ranges reason end_pos [] = Inr ()"
| "check_ranges reason end_pos (r # rs) =
     (if fst r < end_pos then throw (invalid_msg reason) else check_ranges reason (snd r) rs)"

primrec check_folders :: "nat \<Rightarrow> Folder list \<Rightarrow> unit result" where
  "check_folders cursor [] = Inr ()"
| "check_folders cursor (folder # fs) =
     (if f_start folder < cursor then throw (invalid_msg ''cabinet data overlaps metadata'')
      else bindE (check_ranges ''overlapping cabinet members'' 0 (sort (f_files folder))) (\<lambda>_.
           check_folders cursor fs))"

section \<open>Inspection\<close>

text \<open>The header: the position of the folders and the two reserve sizes\<close>

definition cabinet_reserve :: "'w reader \<Rightarrow> nat \<Rightarrow> 16 word \<Rightarrow> ('w, nat \<times> nat \<times> nat) prog" where
  "cabinet_reserve rd len flags =
     (if flags AND 4 \<noteq> 0 then
        bindP (requireP (\<not> len < 40) ''truncated cabinet reserve header'') (\<lambda>_.
        bindP (rd 36 4) (\<lambda>h.
        retP (40 + unat (u16 h), unat (h ! 2), unat (h ! 3))))
      else retP (36, 0, 0))"

definition inspect_image ::
  "'w reader \<Rightarrow> nat \<Rightarrow> Cabinet \<Rightarrow> string \<Rightarrow> nat \<Rightarrow> nat \<Rightarrow> ('w, Cabinet \<times> nat \<times> nat) prog" where
  "inspect_image rd len cab workspace tot cnt =
     bindP (requireP (\<not> (len < 36 \<or> expansion_limit < len)) (''invalid cabinet size: '' @ cab_name cab)) (\<lambda>_.
     bindP (rd 0 36) (\<lambda>h.
     bindP (requireP (take 4 h = [0x4D, 0x53, 0x43, 0x46] \<and> unat (u32 (drop 8 h)) = len)
              (''invalid cabinet header: '' @ cab_name cab)) (\<lambda>_.
     let flags = u16 (drop 30 h); folders = unat (u16 (drop 26 h)); files = unat (u16 (drop 28 h)) in
     bindP (requireP (flags AND 3 = 0) (''spanning cabinets are unsupported: '' @ cab_name cab)) (\<lambda>_.
     bindP (requireP (flags AND NOT 7 = 0) (''unsupported cabinet flags: '' @ cab_name cab)) (\<lambda>_.
     bindP (cabinet_reserve rd len flags) (\<lambda>(pos, folder_reserve, data_reserve).
     bindP (requireP (\<not> len < pos + folders * (8 + folder_reserve)) ''truncated cabinet folders'') (\<lambda>_.
     bindP (folder_loop rd len (cab_name cab) folder_reserve data_reserve folders pos 0 [])
       (\<lambda>(pos, cabinet_expanded, folder_info).
     let cursor = unat (u32 (drop 16 h)) in
     bindP (requireP (\<not> (cursor < pos \<or> len < cursor)) ''invalid cabinet file table'') (\<lambda>_.
     bindP (requireP (\<not> member_limit - cnt < files) ''more than 65535 payload members'') (\<lambda>_.
     bindP (member_loop rd len workspace files cursor cnt {} folder_info (cab_members cab))
       (\<lambda>(cursor, cnt, folder_info, members).
     bindP (requireP (\<not> expansion_limit - tot < cabinet_expanded) ''expanded payload exceeds 1 GiB'') (\<lambda>_.
     bindP (liftP (check_folders cursor folder_info)) (\<lambda>_.
     bindP (liftP (check_ranges ''overlapping cabinet folders'' cursor
              (sort (map (\<lambda>f. (f_start f, f_end f)) folder_info)))) (\<lambda>_.
     retP (cab\<lparr>cab_members := members\<rparr>, tot + cabinet_expanded, cnt)))))))))))))))"

definition inspect_cabinet :: "'w sys \<Rightarrow> Cabinet \<Rightarrow> string \<Rightarrow> nat \<Rightarrow> nat \<Rightarrow> ('w, Cabinet \<times> nat \<times> nat) prog" where
  "inspect_cabinet sys cab workspace tot cnt =
     with_file sys (cab_path cab) (\<lambda>fd.
       bindP (file_size sys fd (cab_path cab)) (\<lambda>len.
       inspect_image (read_at sys fd (cab_path cab)) len cab workspace tot cnt))"

section \<open>Metadata of a rebuilt cabinet\<close>

definition metadata_bytes :: "CabinetMember \<Rightarrow> bytes" where
  "metadata_bytes m =
     [ucast (m_date m), ucast (drop_bit 8 (m_date m)), ucast (m_time m), ucast (drop_bit 8 (m_time m)),
      ucast (m_attributes m), ucast (drop_bit 8 (m_attributes m))]"

definition path_size :: "'w sys \<Rightarrow> string \<Rightarrow> ('w, nat) prog" where
  "path_size sys path = with_file sys path (\<lambda>fd. file_size sys fd path)"

text \<open>The loop over the members; the payload of a member stays open during its iteration\<close>

primrec metadata_loop ::
    "'w sys \<Rightarrow> nat \<Rightarrow> string \<Rightarrow> nat \<Rightarrow> CabinetMember list \<Rightarrow> nat \<Rightarrow> ('w, unit) prog" where
  "metadata_loop sys fd path len [] cursor = retP ()"
| "metadata_loop sys fd path len (m # ms) cursor =
     bindP (requireP (\<not> (len < cursor \<or> len - cursor < 17)) ''truncated rebuilt cabinet file record'') (\<lambda>_.
     bindP (read_at sys fd path cursor 16) (\<lambda>f.
     bindP (with_file sys (m_path m) (\<lambda>payload.
       bindP (file_size sys payload (m_path m)) (\<lambda>psize.
       bindP (requireP (unat (u32 f) = psize) ''rebuilt cabinet member size mismatch'') (\<lambda>_.
       bindP (name_loop (read_at sys fd path) len ''invalid rebuilt cabinet name'' (cursor + 16) []) (\<lambda>(next_cursor, name).
       bindP (requireP (name = m_name m) ''rebuilt cabinet member order mismatch'') (\<lambda>_.
       bindP (write_at sys fd path (cursor + 10) (metadata_bytes m)) (\<lambda>_.
       retP next_cursor)))))))
     (metadata_loop sys fd path len ms)))"

definition preserve_cabinet_metadata :: "'w sys \<Rightarrow> string \<Rightarrow> CabinetMember list \<Rightarrow> ('w, unit) prog" where
  "preserve_cabinet_metadata sys path members =
     with_file sys path (\<lambda>fd.
       bindP (file_size sys fd path) (\<lambda>len.
       bindP (requireP (\<not> len < 36) ''truncated rebuilt cabinet'') (\<lambda>_.
       bindP (read_at sys fd path 0 36) (\<lambda>h.
       bindP (requireP (take 4 h = [0x4D, 0x53, 0x43, 0x46] \<and> unat (u16 (drop 28 h)) = length members)
                ''rebuilt cabinet member count mismatch'') (\<lambda>_.
       bindP (metadata_loop sys fd path len members (unat (u32 (drop 16 h)))) (\<lambda>_.
       flush_file sys fd path))))))"

section \<open>Lemmas\<close>

lemma requireP_Inr_iff [result_iff]: "requireP ok reason w = Some (Inr u, w') \<longleftrightarrow> ok \<and> w = w'"
  by (simp add: requireP_def checkE_def)

text \<open>The ranges of a folder that pass the check add up to no more than its expanded size\<close>

abbreviation range_size :: "nat \<times> nat \<Rightarrow> nat" where
  "range_size r \<equiv> snd r - fst r"

abbreviation range_sum :: "(nat \<times> nat) list \<Rightarrow> nat" where
  "range_sum rs \<equiv> sum_list (map range_size rs)"

definition in_folder :: "Folder \<Rightarrow> bool" where
  "in_folder f \<longleftrightarrow> (\<forall>r \<in> set (f_files f). fst r \<le> snd r \<and> snd r \<le> f_expanded f)"

lemma check_ranges_sum:
  assumes "check_ranges reason e rs = Inr ()" "\<forall>r \<in> set rs. fst r \<le> snd r \<and> snd r \<le> E" "e \<le> E"
  shows "range_sum rs + e \<le> E"
  using assms
proof (induction rs arbitrary: e)
  case (Cons r rs)
  then have "range_sum rs + snd r \<le> E" "e \<le> fst r" "fst r \<le> snd r" by (auto split: if_splits)
  then show ?case by simp
qed simp

lemma range_sum_sort: "range_sum (sort rs) = range_sum rs"
proof -
  have "mset (map range_size (sort rs)) = mset (map range_size rs)" by simp
  then show ?thesis by (metis sum_mset_sum_list)
qed

lemma check_folders_sum:
  assumes "check_folders cursor fs = Inr ()" "\<forall>f \<in> set fs. in_folder f"
  shows "sum_list (map (\<lambda>f. range_sum (f_files f)) fs) \<le> sum_list (map f_expanded fs)"
  using assms
proof (induction fs)
  case (Cons f fs)
  from Cons.prems(1) have
    "bindE (check_ranges ''overlapping cabinet members'' 0 (sort (f_files f))) (\<lambda>_. check_folders cursor fs) = Inr ()"
    unfolding check_folders.simps throw_if_Inr_iff by blast
  then have c: "check_ranges ''overlapping cabinet members'' 0 (sort (f_files f)) = Inr ()"
    and t: "check_folders cursor fs = Inr ()"
    unfolding bindE_Inr_iff by simp_all
  have "range_sum (f_files f) \<le> f_expanded f"
    using check_ranges_sum [OF c, of "f_expanded f"] Cons.prems(2) by (simp add: range_sum_sort in_folder_def)
  with Cons.IH [OF t] Cons.prems(2) show ?case by simp
qed simp

text \<open>Recording a range\<close>

lemma add_range_props:
  assumes "i < length fs"
  shows "map f_expanded (add_range i r fs) = map f_expanded fs"
    and "length (add_range i r fs) = length fs"
    and "sum_list (map (\<lambda>f. range_sum (f_files f)) (add_range i r fs))
      = sum_list (map (\<lambda>f. range_sum (f_files f)) fs) + range_size r"
    and "\<forall>f \<in> set fs. in_folder f \<Longrightarrow> fst r \<le> snd r \<Longrightarrow> snd r \<le> f_expanded (fs ! i) \<Longrightarrow>
      \<forall>f \<in> set (add_range i r fs). in_folder f"
proof -
  show "map f_expanded (add_range i r fs) = map f_expanded fs"
    using assms by (simp add: add_range_def map_update list_update_same_conv)
  show "length (add_range i r fs) = length fs" by (simp add: add_range_def)
  show "sum_list (map (\<lambda>f. range_sum (f_files f)) (add_range i r fs))
      = sum_list (map (\<lambda>f. range_sum (f_files f)) fs) + range_size r"
    using assms by (simp add: add_range_def map_update sum_list_update)
  show "\<forall>f \<in> set (add_range i r fs). in_folder f"
    if "\<forall>f \<in> set fs. in_folder f" "fst r \<le> snd r" "snd r \<le> f_expanded (fs ! i)"
  proof
    fix f assume "f \<in> set (add_range i r fs)"
    then consider "f \<in> set fs" | "f = (fs ! i)\<lparr>f_files := f_files (fs ! i) @ [r]\<rparr>"
      unfolding add_range_def using set_update_subset_insert by fastforce
    then show "in_folder f"
      by cases (use that assms nth_mem [OF assms] in \<open>auto simp: in_folder_def\<close>)
  qed
qed

text \<open>What the loops have established when they succeed\<close>

lemma folder_loop_InrD:
  assumes "folder_loop rd len name fr dr n pos ce fi w = Some (Inr (pos', ce', fi'), w')"
    and "ce = sum_list (map f_expanded fi)" "ce \<le> expansion_limit" "\<forall>f \<in> set fi. f_files f = []"
  shows "ce' = sum_list (map f_expanded fi') \<and> ce' \<le> expansion_limit \<and> (\<forall>f \<in> set fi'. f_files f = [])"
  using assms
proof (induction n arbitrary: pos ce fi w)
  case (Suc n)
  from Suc.prems(1) obtain start e_pos expanded w1 where
    l: "folder_loop rd len name fr dr n (pos + 8 + fr) (ce + expanded)
        (fi @ [\<lparr>f_start = start, f_end = e_pos, f_expanded = expanded, f_files = []\<rparr>]) w1 = Some (Inr (pos', ce', fi'), w')"
    and b: "\<not> expansion_limit - ce < expanded"
    unfolding folder_loop.simps by (auto simp: result_iff Let_def simp del: prog_simps)
  show ?case
    by (rule Suc.IH [OF l]) (use Suc.prems b in auto)
qed simp

definition fresh_members :: "string \<Rightarrow> nat \<Rightarrow> string set \<Rightarrow> CabinetMember list \<Rightarrow> bool" where
  "fresh_members workspace cnt names ms \<longleftrightarrow>
     map m_path ms = map (payload_path workspace) [cnt..<cnt + length ms] \<and>
     distinct (map m_name ms) \<and> set (map m_name ms) \<inter> names = {} \<and> list_all (\<lambda>m. safe_name (m_name m)) ms"

lemma fresh_members_Cons:
  "fresh_members workspace cnt names (m # ms) \<longleftrightarrow>
    m_path m = payload_path workspace cnt \<and> safe_name (m_name m) \<and> m_name m \<notin> names \<and>
    fresh_members workspace (cnt + 1) (insert (m_name m) names) ms"
  by (auto simp: fresh_members_def upt_conv_Cons simp del: upt_Suc)

abbreviation member_sum :: "CabinetMember list \<Rightarrow> nat" where
  "member_sum ms \<equiv> sum_list (map (\<lambda>m. unat (m_size m)) ms)"

lemma member_loop_InrD:
  assumes "member_loop rd len workspace n cursor cnt names fi ms w = Some (Inr (cursor', cnt', fi', ms'), w')"
    and "\<forall>f \<in> set fi. in_folder f"
  shows "\<exists>new. ms' = ms @ new \<and> length new = n \<and> cnt' = cnt + n \<and> fresh_members workspace cnt names new \<and>
    map f_expanded fi' = map f_expanded fi \<and> (\<forall>f \<in> set fi'. in_folder f) \<and>
    sum_list (map (\<lambda>f. range_sum (f_files f)) fi') = sum_list (map (\<lambda>f. range_sum (f_files f)) fi) + member_sum new"
  using assms
proof (induction n arbitrary: cursor cnt names fi ms w)
  case 0
  then show ?case by (auto simp: fresh_members_def)
next
  case (Suc n)
  from Suc.prems(1) obtain i offset cur name w1 msize date time attributes where
    i: "\<not> length fi \<le> i" and e0: "\<not> (f_expanded (fi ! i) < offset \<or> f_expanded (fi ! i) - offset < unat msize)"
    and n0: "safe_name name" "name \<notin> names"
    and l0: "member_loop rd len workspace n cur (cnt + 1) (insert name names)
      (add_range i (offset, offset + unat msize) fi)
      (ms @ [\<lparr>m_name = name, m_path = payload_path workspace cnt, m_size = msize,
                    m_date = date, m_time = time, m_attributes = attributes\<rparr>]) w1 = Some (Inr (cursor', cnt', fi', ms'), w')"
    unfolding member_loop.simps Let_def bindP_Inr_iff requireP_Inr_iff split_paired_Ex prod.case by blast
  define m where "m = \<lparr>m_name = name, m_path = payload_path workspace cnt, m_size = msize,
                    m_date = date, m_time = time, m_attributes = attributes\<rparr>"
  have n: "safe_name name" "name \<notin> names" "m_name m = name" "m_path m = payload_path workspace cnt"
    and e: "\<not> (f_expanded (fi ! i) < offset \<or> f_expanded (fi ! i) - offset < unat (m_size m))"
    and l: "member_loop rd len workspace n cur (cnt + 1) (insert name names)
      (add_range i (offset, offset + unat (m_size m)) fi) (ms @ [m]) w1 = Some (Inr (cursor', cnt', fi', ms'), w')"
    using n0 e0 l0 by (simp_all add: m_def)
  let ?r = "(offset, offset + unat (m_size m))"
  have f: "\<forall>f \<in> set (add_range i ?r fi). in_folder f"
    by (rule add_range_props(4) [OF i [unfolded not_le] Suc.prems(2)]) (use e in auto)
  from Suc.IH [OF l f] obtain new where
    "ms' = (ms @ [m]) @ new" "length new = n" "cnt' = cnt + 1 + n" "fresh_members workspace (cnt + 1) (insert name names) new"
    "map f_expanded fi' = map f_expanded fi" "\<forall>f \<in> set fi'. in_folder f"
    "sum_list (map (\<lambda>f. range_sum (f_files f)) fi') = sum_list (map (\<lambda>f. range_sum (f_files f)) fi) + unat (m_size m) + member_sum new"
    using add_range_props(1,3) [OF i [unfolded not_le], of ?r] by auto
  then show ?case using n by (intro exI [of _ "m # new"]) (simp add: fresh_members_Cons)
qed

text \<open>A cabinet that passes: how much it adds, and its members\<close>

definition inspected :: "string \<Rightarrow> nat \<Rightarrow> nat \<Rightarrow> Cabinet \<times> nat \<times> nat \<Rightarrow> bool" where
  "inspected workspace tot cnt res =
     (case res of (cab, tot', cnt') \<Rightarrow>
        tot' \<le> expansion_limit \<and> cnt' \<le> member_limit \<and> cnt' = cnt + length (cab_members cab) \<and>
        tot + member_sum (cab_members cab) \<le> tot' \<and> fresh_members workspace cnt {} (cab_members cab))"

lemma inspect_image_inspected:
  assumes "inspect_image rd len cab workspace tot cnt w = Some (Inr res, w')"
    and "tot \<le> expansion_limit" "cnt \<le> member_limit" "cab_members cab = []"
  shows "inspected workspace tot cnt res"
proof -
  from assms(1) obtain name fr dr n pos pos' ce fi w1 w2 m cursor cursor' cnt' fi' ms w3 w4 u where
    f: "folder_loop rd len name fr dr n pos 0 [] w1 = Some (Inr (pos', ce, fi), w2)"
    and m: "member_loop rd len workspace m cursor cnt {} fi (cab_members cab) w3 = Some (Inr (cursor', cnt', fi', ms), w4)"
    and c: "\<not> member_limit - cnt < m" "\<not> expansion_limit - tot < ce" "check_folders cursor' fi' = Inr u"
    and r: "(cab\<lparr>cab_members := ms\<rparr>, tot + ce, cnt') = res"
    unfolding inspect_image_def Let_def bindP_Inr_iff requireP_Inr_iff prog_Inr_iff split_paired_Ex prod.case by blast
  from folder_loop_InrD [OF f] have fe: "ce = sum_list (map f_expanded fi)" "\<forall>f \<in> set fi. f_files f = []" by auto
  then have z: "sum_list (map (\<lambda>f. range_sum (f_files f)) fi) = 0"
    by (induction fi) (auto simp: sum_list_nonneg_eq_0_iff)
  have "\<forall>f \<in> set fi. in_folder f" using fe(2) by (simp add: in_folder_def)
  from member_loop_InrD [OF m this] assms(4) z
  have mm: "length ms = m" "cnt' = cnt + m" "fresh_members workspace cnt {} ms"
      "sum_list (map (\<lambda>f. range_sum (f_files f)) fi') = member_sum ms" "\<forall>f \<in> set fi'. in_folder f"
    and e: "map f_expanded fi' = map f_expanded fi"
    by (auto simp del: sum_list_eq_0_iff)
  have "member_sum ms \<le> ce"
    using check_folders_sum [OF c(3) [unfolded unit_eq [of u]] mm(5)] unfolding mm(4) fe(1) e .
  with mm c(1,2) assms(2,3) r show ?thesis by (auto simp: inspected_def)
qed

lemma sim_requireP: "sim ready (requireP ok reason) (requireP ok reason)"
  unfolding requireP_def by (rule sim_basic)

lemma sim_prod: "(\<And>a b. x = (a, b) \<Longrightarrow> sim ready (f a b) (f0 a b)) \<Longrightarrow>
    sim ready (case x of (a, b) \<Rightarrow> f a b) (case x of (a, b) \<Rightarrow> f0 a b)"
  by (cases x) simp

lemmas sim_rules = sim_bind sim_if sim_prod sim_requireP sim_basic

text \<open>Through a file the inspection behaves as on the content in memory\<close>

context byte_source
begin

lemma block_loop_sim:
  "sim ready (block_loop rd len dr n e x) (block_loop (content_reader content path) len dr n e x)"
  by (induction n arbitrary: e x) (auto simp: Let_def intro!: sim_rules rd_content)

lemma folder_loop_sim:
  "sim ready (folder_loop rd len name fr dr n pos ce fi)
    (folder_loop (content_reader content path) len name fr dr n pos ce fi)"
  by (induction n arbitrary: pos ce fi)
    (simp_all only: folder_loop.simps Let_def, (intro sim_rules rd_content block_loop_sim | assumption)+)

lemma name_loop_sim:
  "sim ready (name_loop rd len reason cursor name) (name_loop (content_reader content path) len reason cursor name)"
proof (induction "len - cursor" arbitrary: cursor name rule: less_induct)
  case less
  show ?case
    by (subst (1 2) name_loop.simps) (auto intro!: sim_rules rd_content less)
qed

lemma member_loop_sim:
  "sim ready (member_loop rd len workspace n cursor cnt names fi ms)
    (member_loop (content_reader content path) len workspace n cursor cnt names fi ms)"
  by (induction n arbitrary: cursor cnt names fi ms)
    (simp_all only: member_loop.simps Let_def, (intro sim_rules rd_content name_loop_sim | assumption)+)

lemma inspect_image_sim:
  "sim ready (inspect_image rd len cab workspace tot cnt)
    (inspect_image (content_reader content path) len cab workspace tot cnt)"
  unfolding inspect_image_def cabinet_reserve_def Let_def
  by (intro sim_rules rd_content folder_loop_sim member_loop_sim)

lemma inspect_image_source:
  assumes "ready w" "tot \<le> expansion_limit" "cnt \<le> member_limit" "cab_members cab = []"
  shows "returnsP (inspect_image rd len cab workspace tot cnt)
    (\<lambda>r w'. ready w' \<and> (\<forall>res. r = Inr res \<longrightarrow> inspected workspace tot cnt res)) w"
proof (rule returnsP_weaken)
  show "returnsP (inspect_image rd len cab workspace tot cnt) (\<lambda>r w'. ready w' \<and>
      (\<forall>res. r = Inr res \<longrightarrow> inspect_image (content_reader content path) len cab workspace tot cnt () = Some (Inr res, ()))) w"
    using inspect_image_sim assms(1) unfolding sim_def by blast
qed (use assms(2-4) in \<open>blast intro: inspect_image_inspected\<close>)

end

section \<open>Properties\<close>


text \<open>An empty cabinet, whose header says so\<close>

abbreviation empty_cabinet :: bytes where
  "empty_cabinet \<equiv> [0x4D, 0x53, 0x43, 0x46, 0, 0, 0, 0, 36, 0, 0, 0, 0, 0, 0, 0, 36, 0, 0, 0, 0, 0, 0, 0,
     3, 1, 0, 0, 0, 0, 0, 0, 0, 0, 0, 0]"

abbreviation sample_cab :: Cabinet where
  "sample_cab \<equiv> \<lparr>cab_name = ''c'', cab_path = ''cab-0'', cab_first = 1, cab_last = 1, cab_members = [], cab_changed = False\<rparr>"


end
