(* ===== verification/Msi_Recursive.thy ===== *)
theory Msi_Recursive
  imports Cabinet Posix_Shell
begin

text \<open>
  The rewriting of the payload of an installer, from \<^verbatim>\<open>src/src/msi_recursive.cpp\<close>: the
  tables are checked, every cabinet and binary stream is extracted and checked, the unsigned PE
  images are signed through a callback, changed cabinets are rebuilt, and the database is
  committed. The database and cabinet libraries behind \<^verbatim>\<open>msi_package.hpp\<close> are a
  record of functions.
\<close>

datatype MsiValue = Msi_Int int | Msi_String string | Msi_Stream string

record 'w msi_lib =
  db_open :: "string \<Rightarrow> ('w, unit) prog"
  db_close :: "'w \<Rightarrow> 'w"
  db_query :: "string \<Rightarrow> ('w, string list list) prog"
  db_execute :: "string \<Rightarrow> MsiValue list \<Rightarrow> ('w, unit) prog"
  db_extract_stream :: "string \<Rightarrow> string \<Rightarrow> string \<Rightarrow> 64 word \<Rightarrow> ('w, 64 word) prog"
  db_word_count :: "('w, 32 word) prog"
  db_renew_package_code :: "('w, unit) prog"
  db_commit :: "('w, unit) prog"
  extract_cabinet :: "string \<Rightarrow> CabinetMember list \<Rightarrow> ('w, unit) prog"
  create_cabinet :: "string \<Rightarrow> CabinetMember list \<Rightarrow> ('w, unit) prog"
  msi_file_hash :: "string \<Rightarrow> ('w, int list) prog"

section \<open>Helpers\<close>

text \<open>\<^verbatim>\<open>std::from_chars\<close> into 32 bits, which must consume the whole text\<close>

definition integer :: "string \<Rightarrow> int result" where
  "integer value =
     (if value = [] then Inr 0
      else
        let neg = (hd value = CHR ''-'');
            ds = (if neg then tl value else value);
            n = (if neg then - int (digits_value 10 ds) else int (digits_value 10 ds))
        in if ds = [] \<or> \<not> list_all isdigit ds \<or> n < - (2 ^ 31) \<or> 2 ^ 31 \<le> n
           then throw (invalid_msg ''invalid integer in database'') else Inr n)"

definition pe_candidate :: "'w sys \<Rightarrow> string \<Rightarrow> ('w, bool) prog" where
  "pe_candidate sys path =
     with_file sys path (\<lambda>fd.
       bindP (file_size sys fd path) (\<lambda>n.
       if n < 2 then retP False
       else bindP (read_at sys fd path 0 2) (\<lambda>magic. retP (magic ! 0 = 0x4D \<and> magic ! 1 = 0x5A))))"

section \<open>The tables\<close>

text \<open>The rows of Media: disk, last sequence, cabinet\<close>

primrec media_loop :: "string \<Rightarrow> string list list \<Rightarrow> int \<Rightarrow> string set \<Rightarrow> Cabinet list \<Rightarrow> Cabinet list result" where
  "media_loop workspace [] previous names cabinets = Inr cabinets"
| "media_loop workspace (row # rows) previous names cabinets =
     bindE (integer (row ! 1)) (\<lambda>last.
     bindE (checkE (\<not> last < previous) (invalid_msg ''Media sequence ranges are not ordered'')) (\<lambda>_.
     let cab = row ! 2 in
     bindE (checkE (\<not> (cab = [] \<or> hd cab \<noteq> CHR ''#'' \<or> length cab = 1))
              (invalid_msg ''external cabinets and loose source media are unsupported'')) (\<lambda>_.
     let name = tl cab in
     bindE (checkE (name \<notin> names) (invalid_msg ''duplicate Media cabinet reference'')) (\<lambda>_.
     media_loop workspace rows last (insert name names)
       (cabinets @ [\<lparr>cab_name = name, cab_path = workspace @ ''/cab-'' @ to_string_nat (length cabinets),
                     cab_first = previous + 1, cab_last = last, cab_members = [], cab_changed = False\<rparr>])))))"

record FileRow =
  fr_size :: int
  fr_sequence :: int
  fr_version :: string
  fr_found :: bool

type_synonym file_table = "(string \<times> FileRow) list"

text \<open>The rows of File: identifier, size, version, attributes, sequence\<close>

primrec file_loop :: "bool \<Rightarrow> string list list \<Rightarrow> int set \<Rightarrow> file_table \<Rightarrow> file_table result" where
  "file_loop compressed [] sequences ftab = Inr ftab"
| "file_loop compressed (row # rows) sequences ftab =
     bindE (integer (row ! 3)) (\<lambda>attr.
     bindE (checkE (\<not> (attr AND 0x2000 \<noteq> 0 \<or> (attr AND 0x4000 = 0 \<and> \<not> compressed)))
              (invalid_msg (''loose source file is unsupported: '' @ row ! 0))) (\<lambda>_.
     bindE (integer (row ! 4)) (\<lambda>seq.
     bindE (integer (row ! 1)) (\<lambda>fsize.
     bindE (checkE (\<not> (seq \<le> 0 \<or> fsize < 0 \<or> seq \<in> sequences))
              (invalid_msg ''invalid or duplicate File sequence/size'')) (\<lambda>_.
     bindE (checkE (map_of ftab (row ! 0) = None) (invalid_msg ''duplicate File identifier'')) (\<lambda>_.
     file_loop compressed rows (insert seq sequences)
       (ftab @ [(row ! 0, \<lparr>fr_size = fsize, fr_sequence = seq, fr_version = row ! 2, fr_found = False\<rparr>)])))))))"

definition mark_found :: "string \<Rightarrow> file_table \<Rightarrow> file_table" where
  "mark_found name ftab = map (\<lambda>(k, r). if k = name then (k, r\<lparr>fr_found := True\<rparr>) else (k, r)) ftab"

text \<open>Each member of a cabinet against its row\<close>

primrec match_members :: "Cabinet \<Rightarrow> CabinetMember list \<Rightarrow> file_table \<Rightarrow> file_table result" where
  "match_members cab [] ftab = Inr ftab"
| "match_members cab (m # ms) ftab =
     (case map_of ftab (m_name m) of
        None \<Rightarrow> throw (invalid_msg (''CAB/File table mapping mismatch: '' @ m_name m))
      | Some row \<Rightarrow>
          if fr_found row \<or> fr_sequence row < cab_first cab \<or> cab_last cab < fr_sequence row \<or>
             (word_of_int (fr_size row) :: 32 word) \<noteq> m_size m
          then throw (invalid_msg (''CAB/File table mapping mismatch: '' @ m_name m))
          else match_members cab ms (mark_found (m_name m) ftab))"

text \<open>The map is traversed in the order of its keys\<close>

definition check_found :: "file_table \<Rightarrow> unit result" where
  "check_found ftab =
     (case filter (\<lambda>(k, r). \<not> fr_found r) (sort_key (\<lambda>(k, _). map (of_char :: char \<Rightarrow> nat) k) ftab) of
        [] \<Rightarrow> Inr ()
      | (k, _) # _ \<Rightarrow> throw (invalid_msg (''File row has no embedded cabinet member: '' @ k)))"

section \<open>Extraction\<close>

primrec check_sizes :: "'w sys \<Rightarrow> CabinetMember list \<Rightarrow> ('w, unit) prog" where
  "check_sizes sys [] = retP ()"
| "check_sizes sys (m # ms) =
     bindP (path_size sys (m_path m)) (\<lambda>n.
     bindP (requireP (n = unat (m_size m)) (''extracted cabinet member size mismatch: '' @ m_name m)) (\<lambda>_.
     check_sizes sys ms))"

primrec extract_cabinets ::
    "'w sys \<Rightarrow> 'w msi_lib \<Rightarrow> string \<Rightarrow> Cabinet list \<Rightarrow> file_table \<Rightarrow> nat \<Rightarrow> nat \<Rightarrow> Cabinet list \<Rightarrow>
     ('w, Cabinet list \<times> file_table \<times> nat \<times> nat) prog" where
  "extract_cabinets sys lib workspace [] ftab expanded cnt done_cabs = retP (done_cabs, ftab, expanded, cnt)"
| "extract_cabinets sys lib workspace (cab # cabs) ftab expanded cnt done_cabs =
     bindP (db_extract_stream lib ''SELECT `Data` FROM `_Streams` WHERE `Name` = ?'' (cab_name cab) (cab_path cab)
              (of_nat expansion_limit)) (\<lambda>_.
     bindP (inspect_cabinet sys cab workspace expanded cnt) (\<lambda>(cab, expanded, cnt).
     bindP (liftP (match_members cab (cab_members cab) ftab)) (\<lambda>ftab.
     bindP (extract_cabinet lib (cab_path cab) (cab_members cab)) (\<lambda>_.
     bindP (check_sizes sys (cab_members cab)) (\<lambda>_.
     extract_cabinets sys lib workspace cabs ftab expanded cnt (done_cabs @ [cab]))))))"

text \<open>The rows of Binary; from here on the running total is kept at its 64 bits\<close>

primrec extract_binaries ::
    "'w msi_lib \<Rightarrow> string \<Rightarrow> string list list \<Rightarrow> 64 word \<Rightarrow> nat \<Rightarrow> (string \<times> string) list \<Rightarrow>
     ('w, (string \<times> string) list \<times> 64 word \<times> nat) prog" where
  "extract_binaries lib workspace [] expanded cnt binaries = retP (binaries, expanded, cnt)"
| "extract_binaries lib workspace (row # rows) expanded cnt binaries =
     bindP (requireP (\<not> member_limit \<le> cnt) ''more than 65535 payload members'') (\<lambda>_.
     let path = payload_path workspace cnt in
     bindP (db_extract_stream lib ''SELECT `Data` FROM `Binary` WHERE `Name` = ?'' (row ! 0) path
              (of_nat expansion_limit - expanded)) (\<lambda>n.
     extract_binaries lib workspace rows (expanded + n) (cnt + 1) (binaries @ [(row ! 0, path)])))"

primrec hash_loop :: "string list list \<Rightarrow> string set \<Rightarrow> string set result" where
  "hash_loop [] hash_rows = Inr hash_rows"
| "hash_loop (row # rows) hash_rows =
     bindE (integer (row ! 1)) (\<lambda>options.
     bindE (checkE (options = 0) (invalid_msg ''unsupported MsiFileHash options'')) (\<lambda>_.
     hash_loop rows (insert (row ! 0) hash_rows)))"

section \<open>Signing\<close>

record MsiRewriteResult =
  signed_files :: nat
  preserved_files :: nat

type_synonym sign_state = "MsiRewriteResult \<times> 64 word"

definition sign_payload ::
  "'w sys \<Rightarrow> (string \<Rightarrow> string \<Rightarrow> ('w, bool) prog) \<Rightarrow> string \<Rightarrow> string \<Rightarrow> sign_state \<Rightarrow> ('w, bool \<times> sign_state) prog" where
  "sign_payload sys sign_if_unsigned path name st =
     (case st of (res, expanded) \<Rightarrow>
      bindP (pe_candidate sys path) (\<lambda>candidate.
      if \<not> candidate then retP (False, st)
      else
        bindP (path_size sys path) (\<lambda>before.
        bindP (sign_if_unsigned path name) (\<lambda>ok.
        if \<not> ok then retP (False, (res\<lparr>preserved_files := preserved_files res + 1\<rparr>, expanded))
        else
          bindP (with_file sys path (\<lambda>fd.
            bindP (file_size sys fd path) (\<lambda>n.
            bindP (requireP (\<not> of_nat expansion_limit - (expanded - of_nat before) < of_nat n)
                     ''signed payload exceeds 1 GiB expansion limit'') (\<lambda>_.
            bindP (file_size sys fd path) (\<lambda>n.
            retP (expanded - of_nat before + of_nat n)))))) (\<lambda>expanded.
          retP (True, (res\<lparr>signed_files := signed_files res + 1\<rparr>, expanded)))))))"

text \<open>The rows of a signed member: its new size, and its hash where it has an unversioned one\<close>

definition update_member ::
  "'w sys \<Rightarrow> 'w msi_lib \<Rightarrow> string set \<Rightarrow> file_table \<Rightarrow> CabinetMember \<Rightarrow> ('w, unit) prog" where
  "update_member sys lib hash_rows ftab m =
     bindP (path_size sys (m_path m)) (\<lambda>n.
     bindP (requireP (\<not> 2 ^ 31 - 1 < n) ''signed payload exceeds MSI FileSize range'') (\<lambda>_.
     bindP (db_execute lib ''UPDATE `File` SET `FileSize` = ? WHERE `File` = ?''
              [Msi_Int (int n), Msi_String (m_name m)]) (\<lambda>_.
     if m_name m \<in> hash_rows \<and> map_option fr_version (map_of ftab (m_name m)) = Some []
     then
       bindP (msi_file_hash lib (m_path m)) (\<lambda>hash.
       db_execute lib
         (''UPDATE `MsiFileHash` SET `HashPart1` = ?, `HashPart2` = ?, `HashPart3` = ?, '' @
          ''`HashPart4` = ? WHERE `File_` = ?'')
         [Msi_Int (hash ! 0), Msi_Int (hash ! 1), Msi_Int (hash ! 2), Msi_Int (hash ! 3), Msi_String (m_name m)])
     else retP ())))"

primrec sign_members ::
    "'w sys \<Rightarrow> 'w msi_lib \<Rightarrow> (string \<Rightarrow> string \<Rightarrow> ('w, bool) prog) \<Rightarrow> string set \<Rightarrow> file_table \<Rightarrow> string \<Rightarrow>
     CabinetMember list \<Rightarrow> bool \<Rightarrow> sign_state \<Rightarrow> ('w, bool \<times> sign_state) prog" where
  "sign_members sys lib cb hash_rows ftab cname [] changed st = retP (changed, st)"
| "sign_members sys lib cb hash_rows ftab cname (m # ms) changed st =
     bindP (sign_payload sys cb (m_path m) (''CAB '' @ cname @ ''/'' @ m_name m) st) (\<lambda>(ok, st).
     if \<not> ok then sign_members sys lib cb hash_rows ftab cname ms changed st
     else
       bindP (update_member sys lib hash_rows ftab m) (\<lambda>_.
       sign_members sys lib cb hash_rows ftab cname ms True st))"

primrec sign_cabinets ::
    "'w sys \<Rightarrow> 'w msi_lib \<Rightarrow> (string \<Rightarrow> string \<Rightarrow> ('w, bool) prog) \<Rightarrow> string set \<Rightarrow> file_table \<Rightarrow>
     Cabinet list \<Rightarrow> sign_state \<Rightarrow> ('w, sign_state) prog" where
  "sign_cabinets sys lib cb hash_rows ftab [] st = retP st"
| "sign_cabinets sys lib cb hash_rows ftab (cab # cabs) st =
     bindP (sign_members sys lib cb hash_rows ftab (cab_name cab) (cab_members cab) (cab_changed cab) st)
       (\<lambda>(changed, st).
     bindP (if changed then
              let rebuilt = cab_path cab @ ''.rebuilt'' in
              bindP (create_cabinet lib rebuilt (cab_members cab)) (\<lambda>_.
              bindP (preserve_cabinet_metadata sys rebuilt (cab_members cab)) (\<lambda>_.
              db_execute lib ''UPDATE `_Streams` SET `Data` = ? WHERE `Name` = ?''
                [Msi_Stream rebuilt, Msi_String (cab_name cab)]))
            else retP ()) (\<lambda>_.
     sign_cabinets sys lib cb hash_rows ftab cabs st))"

primrec sign_binaries ::
    "'w sys \<Rightarrow> 'w msi_lib \<Rightarrow> (string \<Rightarrow> string \<Rightarrow> ('w, bool) prog) \<Rightarrow> (string \<times> string) list \<Rightarrow>
     sign_state \<Rightarrow> ('w, sign_state) prog" where
  "sign_binaries sys lib cb [] st = retP st"
| "sign_binaries sys lib cb (b # bs) st =
     bindP (sign_payload sys cb (snd b) (''Binary/'' @ fst b) st) (\<lambda>(ok, st).
     bindP (if ok then db_execute lib ''UPDATE `Binary` SET `Data` = ? WHERE `Name` = ?''
                         [Msi_Stream (snd b), Msi_String (fst b)]
            else retP ()) (\<lambda>_.
     sign_binaries sys lib cb bs st))"

section \<open>The whole rewriting\<close>

text \<open>The rows of a table that exists\<close>

definition table_rows :: "'w msi_lib \<Rightarrow> string set \<Rightarrow> string \<Rightarrow> string \<Rightarrow> ('w, string list list) prog" where
  "table_rows lib tables table sql = (if table \<in> tables then db_query lib sql else retP [])"

text \<open>Everything up to the first callback, and everything from there on\<close>

definition preflight ::
  "'w sys \<Rightarrow> 'w msi_lib \<Rightarrow> string \<Rightarrow> ('w, Cabinet list \<times> file_table \<times> (string \<times> string) list \<times> string set \<times> 64 word) prog" where
  "preflight sys lib workspace =
     bindP (db_query lib ''SELECT `Name` FROM `_Storages`'') (\<lambda>storages.
     bindP (requireP (storages = []) ''embedded transforms or nested database storages are unsupported'') (\<lambda>_.
     bindP (db_query lib ''SELECT `Name` FROM `_Tables`'') (\<lambda>table_names.
     let tables = set (map (\<lambda>row. row ! 0) table_names) in
     bindP (db_word_count lib) (\<lambda>wc.
     let compressed = (wc AND 2 \<noteq> 0) in
     bindP (table_rows lib tables ''Media'' ''SELECT `DiskId`, `LastSequence`, `Cabinet` FROM `Media` ORDER BY `DiskId`'') (\<lambda>media.
     bindP (liftP (media_loop workspace media 0 {} [])) (\<lambda>cabinets.
     bindP (table_rows lib tables ''File'' ''SELECT `File`, `FileSize`, `Version`, `Attributes`, `Sequence` FROM `File`'') (\<lambda>rows.
     bindP (liftP (file_loop compressed rows {} [])) (\<lambda>ftab.
     bindP (extract_cabinets sys lib workspace cabinets ftab 0 0 []) (\<lambda>(cabinets, ftab, expanded, cnt).
     bindP (liftP (check_found ftab)) (\<lambda>_.
     bindP (table_rows lib tables ''Binary'' ''SELECT `Name` FROM `Binary`'') (\<lambda>rows.
     bindP (extract_binaries lib workspace rows (of_nat expanded) cnt []) (\<lambda>(binaries, expanded, cnt).
     bindP (table_rows lib tables ''MsiFileHash'' ''SELECT `File_`, `Options` FROM `MsiFileHash`'') (\<lambda>rows.
     bindP (liftP (hash_loop rows {})) (\<lambda>hash_rows.
     retP (cabinets, ftab, binaries, hash_rows, expanded)))))))))))))))"

definition rewrite_phase ::
  "'w sys \<Rightarrow> 'w msi_lib \<Rightarrow> (string \<Rightarrow> string \<Rightarrow> ('w, bool) prog) \<Rightarrow> Cabinet list \<Rightarrow> file_table \<Rightarrow>
   (string \<times> string) list \<Rightarrow> string set \<Rightarrow> 64 word \<Rightarrow> ('w, MsiRewriteResult) prog" where
  "rewrite_phase sys lib sign_if_unsigned cabinets ftab binaries hash_rows expanded =
     bindP (sign_cabinets sys lib sign_if_unsigned hash_rows ftab cabinets
              (\<lparr>signed_files = 0, preserved_files = 0\<rparr>, expanded)) (\<lambda>st.
     bindP (sign_binaries sys lib sign_if_unsigned binaries st) (\<lambda>(res, _).
     bindP (if signed_files res \<noteq> 0
            then bindP (db_renew_package_code lib) (\<lambda>_. db_commit lib)
            else retP ()) (\<lambda>_.
     retP res)))"

definition with_database :: "'w msi_lib \<Rightarrow> string \<Rightarrow> ('w, 'a) prog \<Rightarrow> ('w, 'a) prog" where
  "with_database lib path m =
     bindP (db_open lib path) (\<lambda>_ w.
       case m w of None \<Rightarrow> None | Some (r, w') \<Rightarrow> Some (r, db_close lib w'))"

definition rewrite_msi_payload ::
  "'w shell \<Rightarrow> 'w msi_lib \<Rightarrow> string \<Rightarrow> (string \<Rightarrow> string \<Rightarrow> ('w, bool) prog) \<Rightarrow> ('w, MsiRewriteResult) prog" where
  "rewrite_msi_payload sh lib staged_msi sign_if_unsigned =
     with_temp_dir sh [] (\<lambda>workspace.
     with_database lib staged_msi (
       bindP (preflight (sh_sys sh) lib workspace) (\<lambda>(cabinets, ftab, binaries, hash_rows, expanded).
       rewrite_phase (sh_sys sh) lib sign_if_unsigned cabinets ftab binaries hash_rows expanded)))"

section \<open>Lemmas\<close>

abbreviation all_members :: "Cabinet list \<Rightarrow> CabinetMember list" where
  "all_members cabs \<equiv> concat (map cab_members cabs)"

text \<open>The row of a member, apart from its mark\<close>

definition member_row :: "Cabinet \<Rightarrow> CabinetMember \<Rightarrow> FileRow \<Rightarrow> bool" where
  "member_row cab m row \<longleftrightarrow> cab_first cab \<le> fr_sequence row \<and> fr_sequence row \<le> cab_last cab \<and>
     (word_of_int (fr_size row) :: 32 word) = m_size m"

definition found_in :: "file_table \<Rightarrow> string \<Rightarrow> bool" where
  "found_in ftab k \<longleftrightarrow> (\<exists>row. map_of ftab k = Some row \<and> fr_found row)"

lemma map_of_mark_found:
  "map_of (mark_found name ftab) k = map_option (\<lambda>r. if k = name then r\<lparr>fr_found := True\<rparr> else r) (map_of ftab k)"
  by (induction ftab) (auto simp: mark_found_def)

lemma mark_found_keys: "map fst (mark_found name ftab) = map fst ftab"
  by (induction ftab) (auto simp: mark_found_def)

text \<open>Matching keeps the rows and marks exactly the members, each of them once\<close>

definition matched :: "Cabinet \<Rightarrow> CabinetMember list \<Rightarrow> file_table \<Rightarrow> file_table \<Rightarrow> bool" where
  "matched cab ms ftab ftab' \<longleftrightarrow>
     map fst ftab' = map fst ftab \<and> distinct (map m_name ms) \<and>
     (\<forall>k. found_in ftab' k \<longleftrightarrow> found_in ftab k \<or> k \<in> m_name ` set ms) \<and>
     (\<forall>m \<in> set ms. \<not> found_in ftab (m_name m)) \<and>
     (\<forall>m \<in> set ms. \<exists>row. map_of ftab' (m_name m) = Some row \<and> member_row cab m row) \<and>
     (\<forall>k cab' m'. (\<exists>row. map_of ftab k = Some row \<and> member_row cab' m' row) \<longrightarrow>
        (\<exists>row. map_of ftab' k = Some row \<and> member_row cab' m' row))"

lemma member_row_found [simp]: "member_row cab m (row\<lparr>fr_found := b\<rparr>) = member_row cab m row"
  by (simp add: member_row_def)

lemma match_members_matched:
  "match_members cab ms ftab = Inr ftab' \<Longrightarrow> matched cab ms ftab ftab'"
proof (induction ms arbitrary: ftab)
  case Nil
  then show ?case by (auto simp: matched_def)
next
  case (Cons m ms)
  let ?n = "m_name m"
  from Cons.prems obtain row where r: "map_of ftab ?n = Some row" "\<not> fr_found row" "member_row cab m row"
    and l: "match_members cab ms (mark_found ?n ftab) = Inr ftab'"
    by (auto simp: member_row_def not_less split: option.splits if_splits)
  note IH = Cons.IH [OF l, unfolded matched_def]
  have f: "found_in (mark_found ?n ftab) k \<longleftrightarrow> found_in ftab k \<or> k = ?n" for k
    using r(1) by (cases "k = ?n"; cases "map_of ftab k") (simp_all add: found_in_def map_of_mark_found)
  have k: "(\<exists>row. map_of (mark_found ?n ftab) k = Some row \<and> member_row cab' m' row) \<longleftrightarrow>
      (\<exists>row. map_of ftab k = Some row \<and> member_row cab' m' row)" for k cab' m'
    by (cases "k = ?n"; cases "map_of ftab k") (simp_all add: map_of_mark_found)
  have "\<not> found_in ftab ?n" using r by (simp add: found_in_def)
  moreover have "?n \<notin> m_name ` set ms" using IH f [of ?n] by auto
  moreover have "\<exists>row. map_of ftab' ?n = Some row \<and> member_row cab m row"
    using IH k [of ?n cab m] r(1,3) by blast
  ultimately show ?case
    using IH unfolding matched_def f k mark_found_keys by (auto; blast)
qed

text \<open>The same over a list of cabinets\<close>

definition accounted :: "Cabinet list \<Rightarrow> file_table \<Rightarrow> file_table \<Rightarrow> bool" where
  "accounted cabs ftab ftab' \<longleftrightarrow>
     map fst ftab' = map fst ftab \<and> distinct (map m_name (all_members cabs)) \<and>
     (\<forall>k. found_in ftab' k \<longleftrightarrow> found_in ftab k \<or> k \<in> m_name ` set (all_members cabs)) \<and>
     (\<forall>m \<in> set (all_members cabs). \<not> found_in ftab (m_name m)) \<and>
     (\<forall>cab \<in> set cabs. \<forall>m \<in> set (cab_members cab). \<exists>row. map_of ftab' (m_name m) = Some row \<and> member_row cab m row) \<and>
     (\<forall>k cab' m'. (\<exists>row. map_of ftab k = Some row \<and> member_row cab' m' row) \<longrightarrow>
        (\<exists>row. map_of ftab' k = Some row \<and> member_row cab' m' row))"

lemma accounted_Cons:
  assumes "matched cab (cab_members cab) ftab ftab1" "accounted cabs ftab1 ftab2"
  shows "accounted (cab # cabs) ftab ftab2"
proof -
  note m = assms(1) [unfolded matched_def] and a = assms(2) [unfolded accounted_def]
  from m have f: "\<And>k. found_in ftab1 k \<longleftrightarrow> found_in ftab k \<or> k \<in> m_name ` set (cab_members cab)" by (elim conjE) blast
  from a have nf: "\<And>x. x \<in> set (all_members cabs) \<Longrightarrow> \<not> found_in ftab1 (m_name x)" by (elim conjE) blast
  have "x \<notin> m_name ` set (cab_members cab)" if "x \<in> m_name ` set (all_members cabs)" for x
    using that by (elim imageE) (use nf f in metis)
  then have "m_name ` set (cab_members cab) \<inter> m_name ` set (all_members cabs) = {}" by blast
  moreover have "\<forall>m \<in> set (all_members cabs). \<not> found_in ftab (m_name m)" using nf unfolding f by blast
  moreover have "\<forall>m \<in> set (cab_members cab). \<exists>row. map_of ftab2 (m_name m) = Some row \<and> member_row cab m row"
    using m a by meson
  moreover have "\<forall>k cab' m'. (\<exists>row. map_of ftab k = Some row \<and> member_row cab' m' row) \<longrightarrow>
        (\<exists>row. map_of ftab2 k = Some row \<and> member_row cab' m' row)"
    using m a by meson
  ultimately show ?thesis
    using m a unfolding accounted_def by (simp add: ball_Un image_Un disj_assoc)
qed

lemma extract_cabinets_accounted:
  assumes "extract_cabinets sys lib workspace cabs ftab e c done_cabs w = Some (Inr (cabs', ftab', e', c'), w')"
  shows "\<exists>new. cabs' = done_cabs @ new \<and> accounted new ftab ftab'"
  using assms
proof (induction cabs arbitrary: ftab e c done_cabs w)
  case Nil
  then show ?case by (auto simp: accounted_def)
next
  case (Cons cab cabs)
  from Cons.prems obtain cab1 e1 c1 ftab1 w1 where
    m: "match_members cab1 (cab_members cab1) ftab = Inr ftab1"
    and l: "extract_cabinets sys lib workspace cabs ftab1 e1 c1 (done_cabs @ [cab1]) w1 = Some (Inr (cabs', ftab', e', c'), w')"
    unfolding extract_cabinets.simps bindP_Inr_iff prog_Inr_iff split_paired_Ex prod.case by blast
  from Cons.IH [OF l] obtain new where n: "cabs' = done_cabs @ cab1 # new" "accounted new ftab1 ftab'" by auto
  from accounted_Cons [OF match_members_matched [OF m] n(2)] n(1) show ?case by blast
qed

lemma file_loop_keys:
  assumes "file_loop compressed rows sequences ftab = Inr ftab'" "distinct (map fst ftab)"
    "\<forall>(k, r) \<in> set ftab. \<not> fr_found r"
  shows "distinct (map fst ftab') \<and> (\<forall>(k, r) \<in> set ftab'. \<not> fr_found r)"
  using assms
proof (induction rows arbitrary: sequences ftab)
  case (Cons row rows)
  from Cons.prems(1) obtain seq fsize where n: "map_of ftab (row ! 0) = None"
    and l: "file_loop compressed rows (insert seq sequences)
      (ftab @ [(row ! 0, \<lparr>fr_size = fsize, fr_sequence = seq, fr_version = row ! 2, fr_found = False\<rparr>)]) = Inr ftab'"
    unfolding file_loop.simps bindE_Inr_iff checkE_Inr_iff by blast
  show ?case
    by (rule Cons.IH [OF l]) (use Cons.prems n in \<open>auto simp: map_of_eq_None_iff\<close>)
qed simp

lemma check_found_iff: "check_found ftab = Inr () \<longleftrightarrow> (\<forall>(k, r) \<in> set ftab. fr_found r)"
proof -
  have "check_found ftab = Inr () \<longleftrightarrow>
      filter (\<lambda>(k, r). \<not> fr_found r) (sort_key (\<lambda>(k, _). map (of_char :: char \<Rightarrow> nat) k) ftab) = []"
    by (auto simp: check_found_def split: list.splits prod.splits)
  also have "\<dots> \<longleftrightarrow> (\<forall>(k, r) \<in> set ftab. fr_found r)"
    by (auto simp: filter_empty_conv)
  finally show ?thesis .
qed

lemma found_in_set: "distinct (map fst ftab) \<Longrightarrow> (k, r) \<in> set ftab \<Longrightarrow> found_in ftab k \<longleftrightarrow> fr_found r"
  by (auto simp: found_in_def dest: map_of_is_SomeI)

section \<open>Properties\<close>

text \<open>
  \<^verbatim>\<open>integer\<close> reads back every 32-bit number as the database prints it, and never
  returns anything outside 32 bits.
\<close>

theorem integer_roundtrip:
  "integer (to_string_int i) = (if - 2147483648 \<le> i \<and> i < 2147483648 then Inr i
     else throw ''recursive MSI: invalid integer in database'') \<and>
   (case integer s of Inl _ \<Rightarrow> True | Inr n \<Rightarrow> - 2147483648 \<le> n \<and> n < 2147483648)"
proof
  have d: "list_all isdigit (to_string_nat n)" "hd (to_string_nat n) \<noteq> CHR ''-''" for n
    using to_string_nat_digits [of n] hd_in_set [OF to_string_nat_not_Nil [of n]] by (auto simp: list_all_iff)
  show "integer (to_string_int i) = (if - 2147483648 \<le> i \<and> i < 2147483648 then Inr i
     else throw ''recursive MSI: invalid integer in database'')"
    using d by (cases "i < 0") (auto simp: integer_def to_string_int_def invalid_msg_def)
  show "case integer s of Inl _ \<Rightarrow> True | Inr n \<Rightarrow> - 2147483648 \<le> n \<and> n < 2147483648"
    by (auto simp: integer_def Let_def split: sum.splits)
qed

text \<open>
  C31: the checks before the first callback make the File table and the cabinets agree. When they
  succeed, the identifiers in the table are distinct, the members of all cabinets together have
  distinct names, and these are exactly the identifiers in the table; each member has the size
  its row says, and the sequence number of the row lies in the range of the cabinet that holds
  the member.
\<close>

theorem preflight_accounts:
  assumes "preflight sys lib workspace w = Some (Inr (cabs, ftab, binaries, hash_rows, expanded), w')"
  shows "distinct (map fst ftab) \<and> distinct (map m_name (concat (map cab_members cabs))) \<and>
    m_name ` set (concat (map cab_members cabs)) = fst ` set ftab \<and>
    (\<forall>cab \<in> set cabs. \<forall>m \<in> set (cab_members cab). \<exists>row. map_of ftab (m_name m) = Some row \<and>
       (word_of_int (fr_size row) :: 32 word) = m_size m \<and>
       cab_first cab \<le> fr_sequence row \<and> fr_sequence row \<le> cab_last cab)"
proof -
  from assms obtain compressed rows ftab0 cabs0 e c w1 w2 u where
    fl: "file_loop compressed rows {} [] = Inr ftab0"
    and ec: "extract_cabinets sys lib workspace cabs0 ftab0 0 0 [] w1 = Some (Inr (cabs, ftab, e, c), w2)"
    and cf: "check_found ftab = Inr u"
    unfolding preflight_def Let_def bindP_Inr_iff requireP_Inr_iff prog_Inr_iff split_paired_Ex prod.case prod.inject
    by blast
  from file_loop_keys [OF fl] have k0: "distinct (map fst ftab0)" "\<forall>(k, r) \<in> set ftab0. \<not> fr_found r" by simp_all
  from extract_cabinets_accounted [OF ec] have a: "accounted cabs ftab0 ftab" by simp
  then have k: "map fst ftab = map fst ftab0" and d: "distinct (map fst ftab)"
    using k0(1) by (simp_all add: accounted_def)
  have no: "\<not> found_in ftab0 k" for k
    using k0(2) by (auto simp: found_in_def dest!: map_of_SomeD)
  have yes: "found_in ftab k \<longleftrightarrow> k \<in> fst ` set ftab" for k
    using cf [unfolded unit_eq [of u] check_found_iff] found_in_set [OF d]
    by (auto simp: found_in_def dest: map_of_SomeD) (force dest: map_of_SomeD)
  have "m_name ` set (concat (map cab_members cabs)) = fst ` set ftab"
    using a no yes unfolding accounted_def by blast
  then show ?thesis using a d unfolding accounted_def member_row_def by blast
qed

section \<open>A concrete installer\<close>

text \<open>One cabinet in one Media row, with one member of one byte and its File row\<close>

definition one_member_cabinet :: bytes where
  "one_member_cabinet = [0x4D, 0x53, 0x43, 0x46, 0, 0, 0, 0, 71, 0, 0, 0, 0, 0, 0, 0, 44, 0, 0, 0, 0, 0, 0, 0,
     3, 1, 1, 0, 1, 0, 0, 0, 0, 0, 0, 0, 62, 0, 0, 0, 1, 0, 0, 0,
     1, 0, 0, 0, 0, 0, 0, 0, 0, 0, 0, 0, 0, 0, 32, 0, 0x66, 0, 0, 0, 0, 0, 1, 0, 1, 0, 0x4D]"

definition demo_query :: "string \<Rightarrow> (sample_fs, string list list) prog" where
  "demo_query sql = retP
     (if sql = ''SELECT `Name` FROM `_Tables`'' then [[''Media''], [''File'']]
      else if sql = ''SELECT `DiskId`, `LastSequence`, `Cabinet` FROM `Media` ORDER BY `DiskId`'' then [[''1'', ''1'', ''#c'']]
      else if sql = ''SELECT `File`, `FileSize`, `Version`, `Attributes`, `Sequence` FROM `File`''
      then [[''f'', ''1'', [], ''0'', ''1'']]
      else [])"

definition demo_msi :: "sample_fs msi_lib" where
  "demo_msi =
     \<lparr>db_open = (\<lambda>p. retP ()), db_close = (\<lambda>w. w), db_query = demo_query, db_execute = (\<lambda>sql vs. retP ()),
      db_extract_stream = (\<lambda>sql key path limit w. Some (Inr 71, ((fst w)(path \<mapsto> one_member_cabinet), snd w))),
      db_word_count = retP 2, db_renew_package_code = retP (), db_commit = retP (),
      extract_cabinet = (\<lambda>p ms w. Some (Inr (),
        (foldl (\<lambda>fs m. fs(m_path m \<mapsto> replicate (unat (m_size m)) 0)) (fst w) ms, snd w))),
      create_cabinet = (\<lambda>p ms. retP ()), msi_file_hash = (\<lambda>p. retP [0, 0, 0, 0])\<rparr>"


lemma sample_read:
  assumes "h fd = Some p" "fs p = Some c" "0 < n" "off + n \<le> length c"
  shows "read_at sample_sys fd path off n (fs, h) = Some (Inr (take n (drop off c)), (fs, h))"
proof -
  have l: "length (take n (drop off c)) = n" using assms(4) by simp
  then have "take n (drop off c) \<noteq> []" using assms(3) by auto
  moreover have "sys_pread sample_sys fd off n (fs, h) = (Inr (take n (drop off c)), (fs, h))"
    using assms(1,2) by (simp add: sample_sys_def sample_pread_def)
  ultimately show ?thesis using assms(3) l unfolding read_at_def
    by (subst read_at_loop.simps) (simp add: read_at_loop.simps)
qed

lemma char_f: "char_of_byte 0x66 = CHR ''f''" by code_simp

lemma one_member_length: "length one_member_cabinet = 71"
  by (simp add: one_member_cabinet_def)

lemma demo_inspect:
  assumes "h fd = Some p" "fs p = Some one_member_cabinet"
  shows "inspect_image (read_at sample_sys fd p) 71 cab ''t'' 0 0 (fs, h) =
   Some (Inr (cab\<lparr>cab_members := cab_members cab @ [\<lparr>m_name = ''f'', m_path = ''t/payload-0'', m_size = 1, m_date = 0, m_time = 0, m_attributes = 32\<rparr>]\<rparr>, 1, 1), (fs, h))"
  unfolding inspect_image_def
  by (simp add: sample_read [where h = h and fs = fs and p = p, OF assms [unfolded one_member_cabinet_def]] bindP_def requireP_def expansion_limit_def member_limit_def u16_def u32_def
     cabinet_reserve_def name_loop.simps [of _ _ _ 60] name_loop.simps [of _ _ _ 61] to_string_nat.simps payload_path_def safe_name_def add_range_def char_f of_char_Char)

lemma sample_fstat: "h fd = Some p \<Longrightarrow> fs p = Some c \<Longrightarrow> file_size sample_sys fd path (fs, h) = Some (Inr (length c), (fs, h))"
  by (simp add: file_size_def bindP_def callP_def sample_sys_def sample_stat_def)

lemma sample_with_file:
  "fs p = Some c \<Longrightarrow> with_file sample_sys p f (fs, h) = f 5 (fs, h(5 \<mapsto> p))"
  by (auto simp: with_file_def bindP_def callP_def scopedP_def sample_sys_def sample_open_def split: option.splits)

abbreviation demo_cab :: "CabinetMember list \<Rightarrow> Cabinet" where
  "demo_cab ms \<equiv> \<lparr>cab_name = ''c'', cab_path = ''t/cab-0'', cab_first = 1, cab_last = 1, cab_members = ms, cab_changed = False\<rparr>"

abbreviation demo_member :: CabinetMember where
  "demo_member \<equiv> \<lparr>m_name = ''f'', m_path = ''t/payload-0'', m_size = 1, m_date = 0, m_time = 0, m_attributes = 32\<rparr>"

abbreviation demo_table :: "bool \<Rightarrow> file_table" where
  "demo_table b \<equiv> [(''f'', \<lparr>fr_size = 1, fr_sequence = 1, fr_version = [], fr_found = b\<rparr>)]"

lemma demo_tables:
  "media_loop ''t'' [[''1'', ''1'', ''#c'']] 0 {} [] = Inr [demo_cab []]"
  "file_loop True [[''f'', ''1'', [], ''0'', ''1'']] {} [] = Inr (demo_table False)"
  "match_members (demo_cab [demo_member]) [demo_member] (demo_table False) = Inr (demo_table True)"
  "check_found (demo_table True) = Inr ()"
  by code_simp+

lemma demo_extract:
  "\<exists>w'. extract_cabinets sample_sys demo_msi ''t'' [demo_cab []] (demo_table False) 0 0 [] (Map.empty, Map.empty)
    = Some (Inr ([demo_cab [demo_member]], demo_table True, 1, 1), w')"
proof -
  have i: "inspect_cabinet sample_sys (demo_cab []) ''t'' 0 0 (fs, h) = Some (Inr (demo_cab [demo_member], 1, 1), (fs, h(5 \<mapsto> ''t/cab-0'')))"
    if "fs ''t/cab-0'' = Some one_member_cabinet" for fs h
    using that by (simp add: inspect_cabinet_def sample_with_file sample_fstat bindP_def one_member_length demo_inspect)
  have x: "db_extract_stream demo_msi sql key path limit (fs, h) = Some (Inr 71, (fs(path \<mapsto> one_member_cabinet), h))"
    "extract_cabinet demo_msi p [demo_member] (fs, h) = Some (Inr (), (fs(''t/payload-0'' \<mapsto> [0]), h))"
    for sql key path limit fs h p
    by (simp_all add: demo_msi_def)
  show ?thesis
    by (simp add: bindP_def x i demo_tables path_size_def sample_with_file sample_fstat requireP_def del: match_members.simps)
qed

lemma demo_preflight:
  "\<exists>w'. preflight sample_sys demo_msi ''t'' (Map.empty, Map.empty)
     = Some (Inr ([demo_cab [demo_member]], demo_table True, [], {}, 1), w')"
proof -
  have q: "db_query demo_msi = demo_query" "db_word_count demo_msi = retP 2" by (simp_all add: demo_msi_def)
  obtain w' where e: "extract_cabinets sample_sys demo_msi ''t'' [demo_cab []] (demo_table False) 0 0 [] (Map.empty, Map.empty)
    = Some (Inr ([demo_cab [demo_member]], demo_table True, 1, 1), w')" using demo_extract by blast
  show ?thesis
    unfolding preflight_def table_rows_def q demo_query_def
    by (simp add: bindP_def requireP_def demo_tables e del: media_loop.simps file_loop.simps extract_cabinets.simps)
qed
theorem preflight_accounts_witness:
  "\<exists>w'. preflight sample_sys demo_msi ''t'' (Map.empty, Map.empty)
      = Some (Inr ([demo_cab [demo_member]], demo_table True, [], {}, 1), w') \<and>
    distinct (map fst (demo_table True)) \<and> distinct (map m_name (concat (map cab_members [demo_cab [demo_member]]))) \<and>
    m_name ` set (concat (map cab_members [demo_cab [demo_member]])) = fst ` set (demo_table True)"
proof -
  obtain w' where p: "preflight sample_sys demo_msi ''t'' (Map.empty, Map.empty)
      = Some (Inr ([demo_cab [demo_member]], demo_table True, [], {}, 1), w')" using demo_preflight by blast
  from preflight_accounts [OF p] p show ?thesis by blast
qed

end
