(* ===== verification/Msi_Posix.thy ===== *)
theory Msi_Posix
  imports Msi_Recursive
begin

text \<open>
  The database and cabinet functions of an installer on POSIX systems, from
  \<^verbatim>\<open>src/src/msi_package_posix.cpp\<close>. The libraries below (GLib, libmsi, gcab) are a
  record of functions; objects are numbers, and a call that reports through a
  \<^verbatim>\<open>GError\<close> returns its message, where there is one, or a value. Reference counts are
  left out, except for the database itself.
\<close>

section \<open>The libraries\<close>

type_synonym ('w, 'a) gcall = "'w \<Rightarrow> (string option + 'a) \<times> 'w"

text \<open>
  \<open>libmsi_query_fetch\<close> gives a record or, at the end, nothing. \<open>msi_object\<close> is the member
  \<^verbatim>\<open>impl_\<close> with \<^verbatim>\<open>path_\<close> of the database object.
\<close>

record 'w gnome =
  msi_object :: "'w \<Rightarrow> nat \<times> string"
  set_msi_object :: "nat \<times> string \<Rightarrow> 'w \<Rightarrow> 'w"
  g_object_unref :: "nat \<Rightarrow> 'w \<Rightarrow> 'w"
  libmsi_database_new :: "string \<Rightarrow> ('w, nat) gcall"
  libmsi_database_commit :: "nat \<Rightarrow> ('w, unit) gcall"
  libmsi_record_new :: "nat \<Rightarrow> 'w \<Rightarrow> nat option \<times> 'w"
  libmsi_record_set :: "nat \<Rightarrow> nat \<Rightarrow> MsiValue \<Rightarrow> 'w \<Rightarrow> bool \<times> 'w"
  libmsi_record_get_field_count :: "nat \<Rightarrow> 'w \<Rightarrow> nat"
  libmsi_record_get_string :: "nat \<Rightarrow> nat \<Rightarrow> 'w \<Rightarrow> string option \<times> 'w"
  libmsi_record_get_stream :: "nat \<Rightarrow> nat \<Rightarrow> 'w \<Rightarrow> nat option \<times> 'w"
  libmsi_query_new :: "nat \<Rightarrow> string \<Rightarrow> ('w, nat) gcall"
  libmsi_query_execute :: "nat \<Rightarrow> nat \<Rightarrow> ('w, unit) gcall"
  libmsi_query_fetch :: "nat \<Rightarrow> ('w, nat option) gcall"
  libmsi_summary_info_new :: "nat \<Rightarrow> nat \<Rightarrow> ('w, nat) gcall"
  libmsi_summary_source :: "nat \<Rightarrow> ('w, 32 word) gcall"
  libmsi_summary_uuid :: "nat \<Rightarrow> ('w, string) gcall"
  libmsi_summary_set_uuid :: "nat \<Rightarrow> string \<Rightarrow> ('w, unit) gcall"
  libmsi_summary_info_persist :: "nat \<Rightarrow> ('w, unit) gcall"
  g_uuid_string_random :: "'w \<Rightarrow> string \<times> 'w"
  g_ascii_strup :: "string \<Rightarrow> string"
  g_file_read :: "string \<Rightarrow> ('w, nat) gcall"
  g_file_replace :: "string \<Rightarrow> ('w, nat) gcall"
  g_input_stream_read :: "nat \<Rightarrow> nat \<Rightarrow> ('w, bytes) gcall"
  g_output_stream_write_all :: "nat \<Rightarrow> bytes \<Rightarrow> ('w, unit) gcall"
  g_output_stream_close :: "nat \<Rightarrow> ('w, unit) gcall"
  gcab_cabinet_new :: "'w \<Rightarrow> nat \<times> 'w"
  gcab_cabinet_add_allowed_compression :: "nat \<Rightarrow> string \<Rightarrow> 'w \<Rightarrow> 'w"
  gcab_cabinet_load :: "nat \<Rightarrow> nat \<Rightarrow> ('w, unit) gcall"
  gcab_cabinet_get_folders :: "nat \<Rightarrow> 'w \<Rightarrow> nat list"
  gcab_folder_get_files :: "nat \<Rightarrow> 'w \<Rightarrow> nat list"
  gcab_file_get_name :: "nat \<Rightarrow> 'w \<Rightarrow> string"
  gcab_file_get_size :: "nat \<Rightarrow> 'w \<Rightarrow> 32 word"
  gcab_file_set_extract_name :: "nat \<Rightarrow> string \<Rightarrow> 'w \<Rightarrow> 'w"
  gcab_cabinet_extract_simple :: "nat \<Rightarrow> string \<Rightarrow> ('w, unit) gcall"
  gcab_folder_new :: "string \<Rightarrow> 'w \<Rightarrow> nat \<times> 'w"
  gcab_file_new_with_file :: "string \<Rightarrow> string \<Rightarrow> 'w \<Rightarrow> nat option \<times> 'w"
  gcab_folder_add_file :: "nat \<Rightarrow> nat \<Rightarrow> ('w, unit) gcall"
  gcab_file_set_attributes :: "nat \<Rightarrow> 16 word \<Rightarrow> 'w \<Rightarrow> 'w"
  g_date_time_new_utc :: "nat list \<Rightarrow> 'w \<Rightarrow> nat option \<times> 'w"
  gcab_file_set_date_time :: "nat \<Rightarrow> nat \<Rightarrow> 'w \<Rightarrow> 'w"
  gcab_cabinet_add_folder :: "nat \<Rightarrow> nat \<Rightarrow> ('w, unit) gcall"
  gcab_cabinet_write_simple :: "nat \<Rightarrow> nat \<Rightarrow> ('w, unit) gcall"
  gn_md5 :: "bytes \<Rightarrow> bytes"

text \<open>\<^verbatim>\<open>Error::check\<close> after a call, and for an object that may be missing\<close>

definition glib_error :: "string \<Rightarrow> string option \<Rightarrow> string" where
  "glib_error op msg = op @ '': '' @ (case msg of None \<Rightarrow> ''operation failed'' | Some m \<Rightarrow> m)"

definition gcheck :: "string \<Rightarrow> ('w, 'a) gcall \<Rightarrow> ('w, 'a) prog" where
  "gcheck op call w =
     (case call w of (Inl msg, w') \<Rightarrow> Some (throw (glib_error op msg), w') | (Inr x, w') \<Rightarrow> Some (Inr x, w'))"

definition someP :: "string \<Rightarrow> ('w \<Rightarrow> 'a option \<times> 'w) \<Rightarrow> ('w, 'a) prog" where
  "someP msg call w =
     (case call w of (None, w') \<Rightarrow> Some (throw msg, w') | (Some x, w') \<Rightarrow> Some (Inr x, w'))"

definition getP :: "('w \<Rightarrow> 'a \<times> 'w) \<Rightarrow> ('w, 'a) prog" where
  "getP call w = (case call w of (x, w') \<Rightarrow> Some (Inr x, w'))"

definition seeP :: "('w \<Rightarrow> 'a) \<Rightarrow> ('w, 'a) prog" where
  "seeP f w = Some (Inr (f w), w)"

definition open_input :: "'w gnome \<Rightarrow> string \<Rightarrow> ('w, nat) prog" where
  "open_input gn path = gcheck (''read '' @ path) (g_file_read gn path)"

definition open_output :: "'w gnome \<Rightarrow> string \<Rightarrow> ('w, nat) prog" where
  "open_output gn path = gcheck (''write '' @ path) (g_file_replace gn path)"

section \<open>Queries\<close>

primrec set_parameters :: "'w gnome \<Rightarrow> nat \<Rightarrow> nat \<Rightarrow> MsiValue list \<Rightarrow> ('w, unit) prog" where
  "set_parameters gn rec i [] = retP ()"
| "set_parameters gn rec i (v # vs) =
     bindP (getP (libmsi_record_set gn rec (i + 1) v)) (\<lambda>ok.
     bindP (checkP ok (''set MSI query parameter '' @ to_string_nat (i + 1))) (\<lambda>_.
     set_parameters gn rec (i + 1) vs))"

definition parameters :: "'w gnome \<Rightarrow> MsiValue list \<Rightarrow> ('w, nat) prog" where
  "parameters gn params =
     bindP (someP ''allocate MSI record'' (libmsi_record_new gn (length params))) (\<lambda>rec.
     bindP (set_parameters gn rec 0 params) (\<lambda>_. retP rec))"

definition prepare_query :: "'w gnome \<Rightarrow> nat \<Rightarrow> string \<Rightarrow> MsiValue list \<Rightarrow> ('w, nat) prog" where
  "prepare_query gn db sql params =
     bindP (gcheck (''MSI query '' @ sql) (libmsi_query_new gn db sql)) (\<lambda>query.
     bindP (parameters gn params) (\<lambda>rec.
     bindP (gcheck (''MSI execute '' @ sql) (libmsi_query_execute gn query rec)) (\<lambda>_. retP query)))"

primrec row_fields :: "'w gnome \<Rightarrow> nat \<Rightarrow> nat list \<Rightarrow> ('w, string list) prog" where
  "row_fields gn rec [] = retP []"
| "row_fields gn rec (i # inds) =
     bindP (getP (libmsi_record_get_string gn rec i)) (\<lambda>text'.
     bindP (row_fields gn rec inds) (\<lambda>rest.
     retP ((case text' of None \<Rightarrow> [] | Some t \<Rightarrow> t) # rest)))"

function query_loop :: "'w gnome \<Rightarrow> nat \<Rightarrow> string \<Rightarrow> string list list \<Rightarrow> ('w, string list list) prog" where
  "query_loop gn view sql rows =
     bindP (gcheck (''fetch MSI row: '' @ sql) (libmsi_query_fetch gn view)) (\<lambda>r.
     case r of
       None \<Rightarrow> retP rows
     | Some rec \<Rightarrow>
         if 65535 \<le> length rows then throwP (''MSI query exceeds 65535 rows: '' @ sql)
         else
           bindP (seeP (libmsi_record_get_field_count gn rec)) (\<lambda>n.
           bindP (row_fields gn rec [1..<n + 1]) (\<lambda>row.
           query_loop gn view sql (rows @ [row]))))"
  by pat_completeness auto
termination
  by (relation "measure (\<lambda>(gn, view, sql, rows). 65536 - length rows)") auto

declare query_loop.simps [simp del]

definition msi_query :: "'w gnome \<Rightarrow> nat \<Rightarrow> string \<Rightarrow> MsiValue list \<Rightarrow> ('w, string list list) prog" where
  "msi_query gn db sql params = bindP (prepare_query gn db sql params) (\<lambda>view. query_loop gn view sql [])"

section \<open>Streams\<close>

partial_function (option) stream_loop ::
    "'w gnome \<Rightarrow> string \<Rightarrow> nat \<Rightarrow> nat \<Rightarrow> 64 word \<Rightarrow> 64 word \<Rightarrow> 'w \<Rightarrow> (64 word result \<times> 'w) option" where
  "stream_loop gn key input out limit copied w =
     (case g_input_stream_read gn input 65536 w of
        (Inl msg, w') \<Rightarrow> Some (throw (glib_error (''read MSI stream '' @ key) msg), w')
      | (Inr buffer, w') \<Rightarrow>
          if buffer = [] then Some (Inr copied, w')
          else if limit - copied < of_nat (length buffer)
          then Some (throw (''MSI stream exceeds extraction limit: '' @ key), w')
          else (case g_output_stream_write_all gn out buffer w' of
            (Inl msg, w'') \<Rightarrow> Some (throw (glib_error (''extract MSI stream '' @ key) msg), w'')
          | (Inr _, w'') \<Rightarrow> stream_loop gn key input out limit (copied + of_nat (length buffer)) w''))"

definition msi_extract_stream ::
  "'w gnome \<Rightarrow> nat \<Rightarrow> string \<Rightarrow> string \<Rightarrow> string \<Rightarrow> 64 word \<Rightarrow> ('w, 64 word) prog" where
  "msi_extract_stream gn db sql key path limit =
     bindP (prepare_query gn db sql [Msi_String key]) (\<lambda>view.
     bindP (gcheck (''read MSI stream '' @ key) (libmsi_query_fetch gn view)) (\<lambda>r.
     case r of
       None \<Rightarrow> throwP (glib_error (''read MSI stream '' @ key) None)
     | Some rec \<Rightarrow>
         bindP (someP (glib_error (''open MSI stream '' @ key) None) (libmsi_record_get_stream gn rec 1)) (\<lambda>input.
         bindP (open_output gn path) (\<lambda>out.
         bindP (stream_loop gn key input out limit 0) (\<lambda>copied.
         bindP (gcheck (''close '' @ path) (g_output_stream_close gn out)) (\<lambda>_.
         bindP (gcheck (''ambiguous MSI stream '' @ key) (libmsi_query_fetch gn view)) (\<lambda>duplicate.
         bindP (checkP (duplicate = None) (glib_error (''ambiguous MSI stream '' @ key) None)) (\<lambda>_.
         retP copied))))))))"

section \<open>Summary information\<close>

definition summary_info :: "'w gnome \<Rightarrow> nat \<Rightarrow> nat \<Rightarrow> ('w, nat) prog" where
  "summary_info gn db updates = gcheck ''read MSI summary information'' (libmsi_summary_info_new gn db updates)"

definition msi_word_count :: "'w gnome \<Rightarrow> nat \<Rightarrow> ('w, 32 word) prog" where
  "msi_word_count gn db =
     bindP (summary_info gn db 0) (\<lambda>si. gcheck ''read MSI source compression flags'' (libmsi_summary_source gn si))"

definition msi_package_code :: "'w gnome \<Rightarrow> nat \<Rightarrow> ('w, string) prog" where
  "msi_package_code gn db =
     bindP (summary_info gn db 0) (\<lambda>si. gcheck ''read MSI PackageCode'' (libmsi_summary_uuid gn si))"

definition msi_renew_package_code :: "'w gnome \<Rightarrow> nat \<Rightarrow> ('w, unit) prog" where
  "msi_renew_package_code gn db =
     bindP (summary_info gn db 1) (\<lambda>si.
     bindP (getP (g_uuid_string_random gn)) (\<lambda>uuid.
     let value = ''{'' @ g_ascii_strup gn uuid @ ''}'' in
     bindP (gcheck ''set MSI PackageCode'' (libmsi_summary_set_uuid gn si value)) (\<lambda>_.
     gcheck ''persist MSI summary information'' (libmsi_summary_info_persist gn si))))"

section \<open>Cabinets\<close>

text \<open>The members still expected, by name; a name that is there already is not replaced\<close>

definition expect_member :: "CabinetMember \<Rightarrow> (string \<times> CabinetMember) list \<Rightarrow> (string \<times> CabinetMember) list" where
  "expect_member m expected =
     (if map_of expected (m_name m) \<noteq> None then expected else expected @ [(m_name m, m)])"

primrec claim_files ::
    "'w gnome \<Rightarrow> string \<Rightarrow> nat list \<Rightarrow> (string \<times> CabinetMember) list \<Rightarrow> nat \<Rightarrow>
     ('w, (string \<times> CabinetMember) list \<times> nat) prog" where
  "claim_files gn path [] expected cnt = retP (expected, cnt)"
| "claim_files gn path (f # fs) expected cnt =
     bindP (seeP (gcab_file_get_name gn f)) (\<lambda>name.
     bindP (seeP (gcab_file_get_size gn f)) (\<lambda>sz.
     case map_of expected name of
       None \<Rightarrow> throwP (''cabinet metadata mismatch: '' @ path)
     | Some m \<Rightarrow>
         if sz \<noteq> m_size m then throwP (''cabinet metadata mismatch: '' @ path)
         else
           bindP (doP (gcab_file_set_extract_name gn f (m_path m))) (\<lambda>_.
           claim_files gn path fs (filter (\<lambda>e. fst e \<noteq> name) expected) (cnt + 1))))"

primrec claim_folders ::
    "'w gnome \<Rightarrow> string \<Rightarrow> nat list \<Rightarrow> (string \<times> CabinetMember) list \<Rightarrow> nat \<Rightarrow>
     ('w, (string \<times> CabinetMember) list \<times> nat) prog" where
  "claim_folders gn path [] expected cnt = retP (expected, cnt)"
| "claim_folders gn path (d # ds) expected cnt =
     bindP (seeP (gcab_folder_get_files gn d)) (\<lambda>fs.
     bindP (claim_files gn path fs expected cnt) (\<lambda>(expected, cnt).
     claim_folders gn path ds expected cnt))"

definition gcab_extract :: "'w gnome \<Rightarrow> string \<Rightarrow> CabinetMember list \<Rightarrow> ('w, unit) prog" where
  "gcab_extract gn path members =
     bindP (open_input gn path) (\<lambda>input.
     bindP (getP (gcab_cabinet_new gn)) (\<lambda>cab.
     bindP (doP (gcab_cabinet_add_allowed_compression gn cab ''NONE'')) (\<lambda>_.
     bindP (doP (gcab_cabinet_add_allowed_compression gn cab ''MSZIP'')) (\<lambda>_.
     bindP (doP (gcab_cabinet_add_allowed_compression gn cab ''LZX'')) (\<lambda>_.
     bindP (gcheck (''load cabinet '' @ path) (gcab_cabinet_load gn cab input)) (\<lambda>_.
     bindP (seeP (gcab_cabinet_get_folders gn cab)) (\<lambda>folders.
     bindP (claim_folders gn path folders (fold expect_member members []) 0) (\<lambda>(expected, cnt).
     bindP (checkP (expected = [] \<and> cnt = length members) (''missing cabinet member: '' @ path)) (\<lambda>_.
     gcheck (''extract cabinet '' @ path) (gcab_cabinet_extract_simple gn cab ''/''))))))))))"

text \<open>The fields of a DOS date and time: year, month, day, hour, minute, second\<close>

definition dos_fields :: "16 word \<Rightarrow> 16 word \<Rightarrow> nat list" where
  "dos_fields date time =
     [1980 + unat (drop_bit 9 date), unat (drop_bit 5 date AND 15), unat (date AND 31),
      unat (drop_bit 11 time), unat (drop_bit 5 time AND 63), unat (time AND 31) * 2]"

primrec add_members :: "'w gnome \<Rightarrow> nat \<Rightarrow> CabinetMember list \<Rightarrow> ('w, unit) prog" where
  "add_members gn folder [] = retP ()"
| "add_members gn folder (m # ms) =
     bindP (someP (glib_error (''create cabinet member '' @ m_name m) None)
              (gcab_file_new_with_file gn (m_name m) (m_path m))) (\<lambda>f.
     bindP (gcheck (''add cabinet member '' @ m_name m) (gcab_folder_add_file gn folder f)) (\<lambda>_.
     bindP (doP (gcab_file_set_attributes gn f (m_attributes m))) (\<lambda>_.
     bindP (getP (g_date_time_new_utc gn (dos_fields (m_date m) (m_time m)))) (\<lambda>date.
     bindP (doP (case date of None \<Rightarrow> (\<lambda>w. w) | Some d \<Rightarrow> gcab_file_set_date_time gn f d)) (\<lambda>_.
     add_members gn folder ms)))))"

definition gcab_create :: "'w gnome \<Rightarrow> string \<Rightarrow> CabinetMember list \<Rightarrow> ('w, unit) prog" where
  "gcab_create gn path members =
     bindP (getP (gcab_cabinet_new gn)) (\<lambda>cab.
     bindP (getP (gcab_folder_new gn ''MSZIP'')) (\<lambda>folder.
     bindP (add_members gn folder members) (\<lambda>_.
     bindP (gcheck ''add cabinet folder'' (gcab_cabinet_add_folder gn cab folder)) (\<lambda>_.
     bindP (open_output gn path) (\<lambda>out.
     bindP (gcheck (''rebuild cabinet '' @ path) (gcab_cabinet_write_simple gn cab out)) (\<lambda>_.
     gcheck (''close cabinet '' @ path) (g_output_stream_close gn out)))))))"

section \<open>The hash of a file\<close>

text \<open>The bytes fed to the checksum, a block at a time\<close>

function hash_feed :: "'w reader \<Rightarrow> nat \<Rightarrow> nat \<Rightarrow> bytes \<Rightarrow> ('w, bytes) prog" where
  "hash_feed rd len offset fed =
     (if \<not> offset < len then retP fed
      else
        let n = min 65536 (len - offset) in
        bindP (rd offset n) (\<lambda>buffer. hash_feed rd len (offset + n) (fed @ buffer)))"
  by pat_completeness auto
termination
  by (relation "measure (\<lambda>(rd, len, offset, fed). len - offset)") auto

declare hash_feed.simps [simp del]

definition dword_at :: "bytes \<Rightarrow> nat \<Rightarrow> int" where
  "dword_at digest i =
     (let p = drop (i * 4) digest in
      sint (ucast (p ! 0) OR push_bit 8 (ucast (p ! 1)) OR push_bit 16 (ucast (p ! 2)) OR push_bit 24 (ucast (p ! 3)) :: 32 word))"

definition hash_body :: "(bytes \<Rightarrow> bytes) \<Rightarrow> 'w reader \<Rightarrow> nat \<Rightarrow> ('w, int list) prog" where
  "hash_body md5 rd len =
     (if len = 0 then retP [0, 0, 0, 0]
      else bindP (hash_feed rd len 0 []) (\<lambda>fed. retP (map (dword_at (md5 fed)) [0, 1, 2, 3])))"

definition gn_file_hash :: "'w sys \<Rightarrow> (bytes \<Rightarrow> bytes) \<Rightarrow> string \<Rightarrow> ('w, int list) prog" where
  "gn_file_hash sys md5 path =
     with_file sys path (\<lambda>fd. bindP (file_size sys fd path) (\<lambda>len. hash_body md5 (read_at sys fd path) len))"

section \<open>The interface\<close>

text \<open>What \<open>Msi_Recursive\<close> runs on\<close>

definition posix_msi :: "'w sys \<Rightarrow> 'w gnome \<Rightarrow> 'w msi_lib" where
  "posix_msi sys gn =
     \<lparr>db_open = (\<lambda>path.
        bindP (gcheck (''open MSI database '' @ path) (libmsi_database_new gn path)) (\<lambda>db. doP (set_msi_object gn (db, path)))),
      db_close = (\<lambda>w. g_object_unref gn (fst (msi_object gn w)) w),
      db_query = (\<lambda>sql w. msi_query gn (fst (msi_object gn w)) sql [] w),
      db_execute = (\<lambda>sql params w. bindP (prepare_query gn (fst (msi_object gn w)) sql params) (\<lambda>_. retP ()) w),
      db_extract_stream = (\<lambda>sql key path limit w. msi_extract_stream gn (fst (msi_object gn w)) sql key path limit w),
      db_word_count = (\<lambda>w. msi_word_count gn (fst (msi_object gn w)) w),
      db_renew_package_code = (\<lambda>w. msi_renew_package_code gn (fst (msi_object gn w)) w),
      db_commit = (\<lambda>w. gcheck (''commit MSI database '' @ snd (msi_object gn w)) (libmsi_database_commit gn (fst (msi_object gn w))) w),
      extract_cabinet = gcab_extract gn, create_cabinet = gcab_create gn, msi_file_hash = gn_file_hash sys (gn_md5 gn)\<rparr>"

section \<open>Lemmas\<close>

text \<open>
  What is relied on for the extraction of a stream: \<open>written\<close> counts the bytes that have been
  written to output streams. A read gives at most the bytes that were asked for, a write adds its
  bytes, or fewer when it fails, and nothing else adds any.
\<close>

definition quiet_gcall :: "('w \<Rightarrow> nat) \<Rightarrow> ('w \<Rightarrow> 'r \<times> 'w) \<Rightarrow> bool" where
  "quiet_gcall written call \<longleftrightarrow> (\<forall>w. written (snd (call w)) = written w)"

definition stream_contract :: "'w gnome \<Rightarrow> ('w \<Rightarrow> nat) \<Rightarrow> bool" where
  "stream_contract gn written \<longleftrightarrow>
     (\<forall>db sql. quiet_gcall written (libmsi_query_new gn db sql)) \<and> (\<forall>n. quiet_gcall written (libmsi_record_new gn n)) \<and>
     (\<forall>rec i v. quiet_gcall written (libmsi_record_set gn rec i v)) \<and> (\<forall>q rec. quiet_gcall written (libmsi_query_execute gn q rec)) \<and>
     (\<forall>q. quiet_gcall written (libmsi_query_fetch gn q)) \<and> (\<forall>rec i. quiet_gcall written (libmsi_record_get_stream gn rec i)) \<and>
     (\<forall>path. quiet_gcall written (g_file_replace gn path)) \<and> (\<forall>out. quiet_gcall written (g_output_stream_close gn out)) \<and>
     (\<forall>input n. quiet_gcall written (g_input_stream_read gn input n)) \<and>
     (\<forall>input n w. case fst (g_input_stream_read gn input n w) of Inl _ \<Rightarrow> True | Inr buffer \<Rightarrow> length buffer \<le> n) \<and>
     (\<forall>out data w. case g_output_stream_write_all gn out data w of
        (Inl _, w') \<Rightarrow> written w' \<le> written w + length data
      | (Inr _, w') \<Rightarrow> written w' = written w + length data)"

lemma keeps_gcalls:
  assumes "quiet_gcall written call"
  shows "keeps (\<lambda>w. written w = c) (gcheck op call)"
  using assms by (auto simp: keeps_def gcheck_def quiet_gcall_def split: prod.splits sum.splits) (metis snd_conv)+

lemma keeps_getP: "quiet_gcall written call \<Longrightarrow> keeps (\<lambda>w. written w = c) (getP call)"
  by (auto simp: keeps_def getP_def quiet_gcall_def split: prod.splits) (metis snd_conv)

lemma keeps_someP: "quiet_gcall written call \<Longrightarrow> keeps (\<lambda>w. written w = c) (someP msg call)"
  by (auto simp: keeps_def someP_def quiet_gcall_def split: prod.splits option.splits) (metis snd_conv)+

lemma contract_quiet:
  assumes "stream_contract gn written"
  shows "quiet_gcall written (libmsi_query_new gn db sql)" "quiet_gcall written (libmsi_record_new gn n)"
    "quiet_gcall written (libmsi_record_set gn rec i v)" "quiet_gcall written (libmsi_query_execute gn q rec)"
    "quiet_gcall written (libmsi_query_fetch gn q)" "quiet_gcall written (libmsi_record_get_stream gn rec i)"
    "quiet_gcall written (g_file_replace gn path)" "quiet_gcall written (g_output_stream_close gn out)"
    "quiet_gcall written (g_input_stream_read gn input n)"
  using assms by (simp_all add: stream_contract_def)

lemma keeps_prepare_query:
  assumes "stream_contract gn written"
  shows "keeps (\<lambda>w. written w = c) (prepare_query gn db sql params)"
proof -
  have "keeps (\<lambda>w. written w = c) (set_parameters gn rec i params)" for rec i params
    by (induction params arbitrary: i) (auto intro!: keeps_rules keeps_getP contract_quiet [OF assms])
  then show ?thesis
    unfolding prepare_query_def parameters_def
    by (intro keeps_rules keeps_gcalls keeps_someP contract_quiet [OF assms])
qed

lemma stream_loop_bound:
  assumes "stream_loop gn key input out limit copied w = Some rw"
  shows "stream_contract gn written \<longrightarrow> copied \<le> limit \<longrightarrow>
    written (snd rw) + unat copied \<le> written w + unat limit \<and>
    (\<forall>n. fst rw = Inr n \<longrightarrow> written (snd rw) + unat copied = written w + unat n)"
proof (rule stream_loop.raw_induct [where P = "\<lambda>gn key input out limit copied w rw.
    stream_contract gn written \<longrightarrow> copied \<le> limit \<longrightarrow>
    written (snd rw) + unat copied \<le> written w + unat limit \<and>
    (\<forall>n. fst rw = Inr n \<longrightarrow> written (snd rw) + unat copied = written w + unat n)", OF _ assms], goal_cases)
  case (1 f gn key input out limit copied w rw)
  show ?case
  proof (intro impI)
    assume k: "stream_contract gn written" and le: "copied \<le> limit"
    have le': "unat copied \<le> unat limit" using le by (simp add: word_le_nat_alt)
    obtain x w1 where r: "g_input_stream_read gn input 65536 w = (x, w1)" by fastforce
    have w1: "written w1 = written w" using contract_quiet(9) [OF k, of input 65536] r by (metis quiet_gcall_def snd_conv)
    show "written (snd rw) + unat copied \<le> written w + unat limit \<and>
      (\<forall>n. fst rw = Inr n \<longrightarrow> written (snd rw) + unat copied = written w + unat n)"
    proof (cases x)
      case (Inl e)
      with 1(2) r w1 le' show ?thesis by auto
    next
      case (Inr buffer)
      have len: "length buffer \<le> 65536"
        using k [unfolded stream_contract_def] r Inr by (metis (no_types, lifting) fst_conv sum.case(2))
      have n: "unat (of_nat (length buffer) :: 64 word) = length buffer"
        using len by (simp add: unat_of_nat)
      show ?thesis
      proof (cases "buffer = [] \<or> limit - copied < of_nat (length buffer)")
        case True
        with 1(2) r Inr w1 le' show ?thesis by (auto split: if_splits)
      next
        case False
        obtain y w2 where wr: "g_output_stream_write_all gn out buffer w1 = (y, w2)" by fastforce
        have "unat (limit - copied) = unat limit - unat copied" by (rule unat_sub [OF le])
        with False n have "length buffer \<le> unat limit - unat copied" by (simp add: not_less word_le_nat_alt)
        with le' have room: "unat copied + length buffer \<le> unat limit" by linarith
        then have s: "unat (copied + of_nat (length buffer)) = unat copied + length buffer"
          using unsigned_less [of limit, where ?'a = nat] by (simp add: unat_word_ariths n)
        have c: "case y of Inl _ \<Rightarrow> written w2 \<le> written w1 + length buffer | Inr _ \<Rightarrow> written w2 = written w1 + length buffer"
          using k [unfolded stream_contract_def] wr by (auto split: sum.splits prod.splits) (metis (no_types, lifting) case_prod_conv sum.case)+
        show ?thesis
        proof (cases y)
          case (Inl e)
          with 1(2) r Inr False wr c w1 room show ?thesis by auto
        next
          case y: (Inr u)
          from 1(2) r Inr False wr y have "f gn key input out limit (copied + of_nat (length buffer)) w2 = Some rw" by simp
          from 1(1) [OF this] k room s
          have "written (snd rw) + (unat copied + length buffer) \<le> written w2 + unat limit"
            "fst rw = Inr n \<longrightarrow> written (snd rw) + (unat copied + length buffer) = written w2 + unat n" for n
            by (simp_all add: word_le_nat_alt)
          with c y w1 show ?thesis by auto
        qed
      qed
    qed
  qed
qed

text \<open>A program that writes at most \<open>L\<close> bytes, and exactly the number it returns\<close>

definition extracts :: "('w \<Rightarrow> nat) \<Rightarrow> nat \<Rightarrow> nat \<Rightarrow> ('w, 64 word) prog \<Rightarrow> bool" where
  "extracts written c L m \<longleftrightarrow>
     (\<forall>w r w'. written w = c \<longrightarrow> m w = Some (r, w') \<longrightarrow>
        written w' \<le> c + L \<and> (\<forall>n. r = Inr n \<longrightarrow> written w' = c + unat n))"

lemma extractsD:
  "extracts written c L m \<Longrightarrow> written w = c \<Longrightarrow> m w = Some (r, w') \<Longrightarrow>
    written w' \<le> c + L \<and> (\<forall>n. r = Inr n \<longrightarrow> written w' = c + unat n)"
  by (simp add: extracts_def)

lemma extracts_bind:
  assumes "keeps (\<lambda>w. written w = c) m" "\<And>x. extracts written c L (f x)"
  shows "extracts written c L (bindP m f)"
  unfolding extracts_def
proof (intro allI impI)
  fix w r w' assume w: "written w = c" and run: "bindP m f w = Some (r, w')"
  from run obtain x u where m: "m w = Some (x, u)" by (cases "m w") (auto simp: bindP_def)
  have u: "written u = c" by (rule keepsD [OF assms(1) w m])
  show "written w' \<le> c + L \<and> (\<forall>n. r = Inr n \<longrightarrow> written w' = c + unat n)"
  proof (cases x)
    case (Inl e)
    with run m u show ?thesis by (auto simp: bindP_def)
  next
    case (Inr y)
    with run m have "f y u = Some (r, w')" by (simp add: bindP_def)
    with assms(2) [of y] u show ?thesis unfolding extracts_def by blast
  qed
qed

lemma extracts_throw: "extracts written c L (throwP msg)"
  by (simp add: extracts_def)

lemma extracts_loop:
  assumes k: "stream_contract gn written" and post: "\<And>n c. keeps (\<lambda>w. written w = c) (post n)"
    and val: "\<And>n w r w'. post n w = Some (Inr r, w') \<Longrightarrow> r = n"
  shows "extracts written c (unat limit) (bindP (stream_loop gn key input out limit 0) post)"
  unfolding extracts_def
proof (intro allI impI)
  fix w r w' assume w: "written w = c" and run: "bindP (stream_loop gn key input out limit 0) post w = Some (r, w')"
  from run obtain x u where m: "stream_loop gn key input out limit 0 w = Some (x, u)"
    by (cases "stream_loop gn key input out limit 0 w") (auto simp: bindP_def)
  from stream_loop_bound [OF m, of written] k w
  have u: "written u \<le> c + unat limit" "\<And>n. x = Inr n \<Longrightarrow> written u = c + unat n" by simp_all
  show "written w' \<le> c + unat limit \<and> (\<forall>n. r = Inr n \<longrightarrow> written w' = c + unat n)"
  proof (cases x)
    case (Inl e)
    with run m u show ?thesis by (auto simp: bindP_def)
  next
    case (Inr n)
    with run m have p: "post n u = Some (r, w')" by (simp add: bindP_def)
    have "written w' = written u" using keepsD [OF post [of "written u" n] _ p] by simp
    with u Inr val p show ?thesis by auto
  qed
qed

text \<open>
  What is relied on for the extraction of a cabinet: setting the extract name of a file changes
  nothing but that name.
\<close>

definition extract_name_contract :: "'w gnome \<Rightarrow> (nat \<Rightarrow> 'w \<Rightarrow> string option) \<Rightarrow> bool" where
  "extract_name_contract gn ename \<longleftrightarrow>
     (\<forall>f p w. let w' = gcab_file_set_extract_name gn f p w in
        (\<forall>g. gcab_file_get_name gn g w' = gcab_file_get_name gn g w \<and> gcab_file_get_size gn g w' = gcab_file_get_size gn g w \<and>
             ename g w' = (if g = f then Some p else ename g w)) \<and>
        (\<forall>d. gcab_folder_get_files gn d w' = gcab_folder_get_files gn d w))"

text \<open>A file of the cabinet that will be extracted as the member it is\<close>

definition claimed :: "'w gnome \<Rightarrow> (nat \<Rightarrow> 'w \<Rightarrow> string option) \<Rightarrow> CabinetMember list \<Rightarrow> 'w \<Rightarrow> nat \<Rightarrow> bool" where
  "claimed gn ename members w f \<longleftrightarrow>
     (\<exists>m \<in> set members. m_name m = gcab_file_get_name gn f w \<and> m_size m = gcab_file_get_size gn f w \<and>
        ename f w = Some (m_path m))"

text \<open>The files seen so far, and what is still expected\<close>

definition claiming :: "'w gnome \<Rightarrow> (nat \<Rightarrow> 'w \<Rightarrow> string option) \<Rightarrow> CabinetMember list \<Rightarrow> nat list \<Rightarrow>
    (string \<times> CabinetMember) list \<Rightarrow> nat \<Rightarrow> 'w \<Rightarrow> bool" where
  "claiming gn ename members done_files expected cnt w \<longleftrightarrow>
     cnt = length done_files \<and> distinct (map (\<lambda>f. gcab_file_get_name gn f w) done_files) \<and>
     (\<forall>f \<in> set done_files. claimed gn ename members w f) \<and>
     (\<forall>(name, m) \<in> set expected. m \<in> set members \<and> m_name m = name \<and>
        name \<notin> set (map (\<lambda>f. gcab_file_get_name gn f w) done_files))"

lemma claim_files_claiming:
  assumes c: "extract_name_contract gn ename"
  shows "claim_files gn path fs expected cnt w = Some (Inr (expected', cnt'), w') \<Longrightarrow>
    claiming gn ename members done_files expected cnt w \<Longrightarrow>
    claiming gn ename members (done_files @ fs) expected' cnt' w' \<and>
    (\<forall>d. gcab_folder_get_files gn d w' = gcab_folder_get_files gn d w)"
proof (induction fs arbitrary: expected cnt w done_files)
  case Nil
  then show ?case by (auto simp: claiming_def)
next
  case (Cons f fs)
  let ?name = "gcab_file_get_name gn f w"
  from Cons.prems(1) obtain m where m: "map_of expected ?name = Some m" "gcab_file_get_size gn f w = m_size m"
    and rest: "claim_files gn path fs (filter (\<lambda>e. fst e \<noteq> ?name) expected) (cnt + 1)
      (gcab_file_set_extract_name gn f (m_path m) w) = Some (Inr (expected', cnt'), w')"
    by (auto simp: bindP_def seeP_def split: option.splits if_splits)
  let ?w = "gcab_file_set_extract_name gn f (m_path m) w"
  have same: "gcab_file_get_name gn g ?w = gcab_file_get_name gn g w" "gcab_file_get_size gn g ?w = gcab_file_get_size gn g w"
    "ename g ?w = (if g = f then Some (m_path m) else ename g w)"
    "gcab_folder_get_files gn d ?w = gcab_folder_get_files gn d w" for g d
    using c by (simp_all add: extract_name_contract_def Let_def)
  have em: "(?name, m) \<in> set expected" by (rule map_of_SomeD [OF m(1)])
  then have e: "m \<in> set members" "m_name m = ?name" "?name \<notin> set (map (\<lambda>g. gcab_file_get_name gn g w) done_files)"
    using Cons.prems(2) by (auto simp: claiming_def)
  then have "f \<notin> set done_files" by auto
  then have "claiming gn ename members (done_files @ [f]) (filter (\<lambda>e. fst e \<noteq> ?name) expected) (cnt + 1) ?w"
    using Cons.prems(2) e m(2) unfolding claiming_def claimed_def same by (auto split: if_splits) (metis+)?
  from Cons.IH [OF rest this] same show ?case by simp
qed

lemma claim_folders_claiming:
  assumes c: "extract_name_contract gn ename"
  shows "claim_folders gn path ds expected cnt w = Some (Inr (expected', cnt'), w') \<Longrightarrow>
    claiming gn ename members done_files expected cnt w \<Longrightarrow>
    claiming gn ename members (done_files @ concat (map (\<lambda>d. gcab_folder_get_files gn d w) ds)) expected' cnt' w'"
proof (induction ds arbitrary: expected cnt w done_files)
  case Nil
  then show ?case by simp
next
  case (Cons d ds)
  from Cons.prems(1) obtain e1 c1 w1 where f: "claim_files gn path (gcab_folder_get_files gn d w) expected cnt w = Some (Inr (e1, c1), w1)"
    and r: "claim_folders gn path ds e1 c1 w1 = Some (Inr (expected', cnt'), w')"
    by (auto simp: bindP_Inr_iff seeP_def split: prod.splits)
  from claim_files_claiming [OF c f Cons.prems(2)] Cons.IH [OF r, of "done_files @ gcab_folder_get_files gn d w"] show ?case by simp
qed

lemma expect_members:
  "\<forall>(name, m) \<in> set (fold expect_member ms expected). m \<in> set ms \<and> m_name m = name \<or> (name, m) \<in> set expected"
proof (induction ms arbitrary: expected)
  case (Cons m ms)
  from Cons.IH [of "expect_member m expected"] show ?case
    by (auto simp: expect_member_def split: if_splits)
qed auto

lemma expect_members_length: "length (fold expect_member ms expected) \<le> length expected + length ms"
proof (induction ms arbitrary: expected)
  case (Cons m ms)
  from Cons.IH [of "expect_member m expected"] show ?case by (auto simp: expect_member_def split: if_splits)
qed simp

lemma claiming_start: "claiming gn ename members [] (fold expect_member members []) 0 w"
  using expect_members [of members "[]"] by (auto simp: claiming_def)

text \<open>The blocks that are fed to the checksum make up the file\<close>

lemma hash_feed_content:
  assumes rd: "\<And>offset n w. P w \<Longrightarrow> returnsP (rd offset n) (\<lambda>r w'. P w' \<and>
      (\<forall>bs. r = Inr bs \<longrightarrow> bs = take n (drop offset content))) w" and "P w" "offset \<le> length content"
  shows "returnsP (hash_feed rd (length content) offset fed)
    (\<lambda>r w'. P w' \<and> (\<forall>bs. r = Inr bs \<longrightarrow> bs = fed @ drop offset content)) w"
  using assms(2,3)
proof (induction "length content - offset" arbitrary: offset fed w rule: less_induct)
  case less
  show ?case
  proof (cases "offset < length content")
    case False
    with less.prems show ?thesis by (subst hash_feed.simps) (simp add: returnsP_def)
  next
    case True
    let ?n = "min 65536 (length content - offset)"
    have "returnsP (hash_feed rd (length content) (offset + ?n) (fed @ take ?n (drop offset content)))
        (\<lambda>r w'. P w' \<and> (\<forall>bs. r = Inr bs \<longrightarrow> bs = fed @ drop offset content)) w'" if "P w'" for w'
    proof (rule returnsP_weaken)
      show "returnsP (hash_feed rd (length content) (offset + ?n) (fed @ take ?n (drop offset content)))
          (\<lambda>r w'. P w' \<and> (\<forall>bs. r = Inr bs \<longrightarrow> bs = (fed @ take ?n (drop offset content)) @ drop (offset + ?n) content)) w'"
        by (rule less.hyps) (use True that in auto)
      have "take ?n (drop offset content) @ drop (offset + ?n) content = drop offset content"
        by (metis add.commute append_take_drop_id drop_drop)
      then show "P w'' \<and> (\<forall>bs. r = Inr bs \<longrightarrow> bs = (fed @ take ?n (drop offset content)) @ drop (offset + ?n) content) \<Longrightarrow>
          P w'' \<and> (\<forall>bs. r = Inr bs \<longrightarrow> bs = fed @ drop offset content)" for r :: "bytes result" and w''
        by simp
    qed
    then show ?thesis
      using True unfolding hash_feed.simps [of rd "length content" offset] Let_def
      by (auto intro!: returnsP_bindI [OF rd [OF less.prems(1)]])
  qed
qed

definition file_hash :: "(bytes \<Rightarrow> bytes) \<Rightarrow> bytes \<Rightarrow> int list" where
  "file_hash md5 content = (if content = [] then [0, 0, 0, 0] else map (dword_at (md5 content)) [0, 1, 2, 3])"

lemma extracts_tail:
  assumes "stream_contract gn written"
  shows "extracts written c (unat limit) (bindP (stream_loop gn key input out limit 0) (\<lambda>copied.
    bindP (gcheck op1 (g_output_stream_close gn out)) (\<lambda>_. bindP (gcheck op2 (libmsi_query_fetch gn view)) (\<lambda>duplicate.
    bindP (checkP (duplicate = None) msg) (\<lambda>_. retP copied)))))"
  by (rule extracts_loop [OF assms], intro keeps_bind keeps_basic keeps_gcalls contract_quiet [OF assms])
    (auto simp: bindP_Inr_iff)

lemma extracts_stream:
  assumes k: "stream_contract gn written"
  shows "extracts written c (unat limit) (msi_extract_stream gn db sql key path limit)"
  unfolding msi_extract_stream_def open_output_def
  apply (rule extracts_bind [OF keeps_prepare_query [OF k]])
  apply (rule extracts_bind [OF keeps_gcalls [OF contract_quiet(5) [OF k]]])
  subgoal for view r
    apply (cases r)
    subgoal by (simp only: option.case extracts_throw)
    subgoal
      apply (simp only: option.case)
      apply (rule extracts_bind [OF keeps_someP [OF contract_quiet(6) [OF k]]])
      apply (rule extracts_bind [OF keeps_gcalls [OF contract_quiet(7) [OF k]]])
      by (rule extracts_tail [OF k])
    done
  done

section \<open>Properties\<close>

text \<open>
  C37: the extraction of a stream is bounded. Whatever the database contains, no more than the given
  limit is written to the file, also when the extraction fails, and a normal return gives the number of
  bytes written, without wrap-around in its 64-bit counter.
\<close>

theorem msi_extract_stream_bounded:
  assumes "stream_contract gn written" "msi_extract_stream gn db sql key path limit w = Some (r, w')"
  shows "written w' \<le> written w + unat limit \<and> (case r of Inl e \<Rightarrow> True | Inr n \<Rightarrow> written w' = written w + unat n)"
  using extractsD [OF extracts_stream [OF assms(1)] refl assms(2)] by (cases r) simp_all

text \<open>
  C38: a cabinet is extracted only as it was inspected. When the extraction returns, the library was asked to
  extract a cabinet whose files are exactly the expected members: as many, with distinct names, each
  with the name and the size of a member and set to be written to the generated path of that member,
  never to a path made from its name.
\<close>

theorem gcab_extract_exact:
  assumes c: "extract_name_contract gn ename" and run: "gcab_extract gn path members w = Some (Inr (), w')"
  shows "\<exists>cab u v fs. fs = concat (map (\<lambda>d. gcab_folder_get_files gn d u) (gcab_cabinet_get_folders gn cab u)) \<and>
    gcab_cabinet_extract_simple gn cab ''/'' v = (Inr (), w') \<and>
    length fs = length members \<and> distinct (map (\<lambda>f. gcab_file_get_name gn f v) fs) \<and>
    (\<forall>f \<in> set fs. \<exists>m \<in> set members. m_name m = gcab_file_get_name gn f v \<and> m_size m = gcab_file_get_size gn f v \<and>
       ename f v = Some (m_path m))"
proof -
  from run obtain cab u v cnt where f: "claim_folders gn path (gcab_cabinet_get_folders gn cab u) (fold expect_member members []) 0 u =
      Some (Inr ([], cnt), v)" and n: "cnt = length members"
    and x: "gcheck (''extract cabinet '' @ path) (gcab_cabinet_extract_simple gn cab ''/'') v = Some (Inr (), w')"
    unfolding gcab_extract_def by (auto simp: bindP_Inr_iff seeP_def checkE_def split: prod.splits if_splits)
  let ?fs = "concat (map (\<lambda>d. gcab_folder_get_files gn d u) (gcab_cabinet_get_folders gn cab u))"
  have "claiming gn ename members ?fs [] cnt v"
    using claim_folders_claiming [OF c f claiming_start] by simp
  moreover have "gcab_cabinet_extract_simple gn cab ''/'' v = (Inr (), w')"
    using x by (auto simp: gcheck_def split: prod.splits sum.splits)
  ultimately show ?thesis using n unfolding claiming_def claimed_def
    by (intro exI [of _ cab] exI [of _ u] exI [of _ v] exI [of _ ?fs]) auto
qed

text \<open>
  C39: the hash that is stored for a file is that of the whole file, although it is read in blocks and
  through partial reads: four signed little-endian numbers of its checksum, and zeros for an empty file. It
  always returns, and changes no file.
\<close>

theorem gn_file_hash_content:
  assumes "fs_contract sys fs" "read_contract sys fs" "files fs w path = Some content"
  shows "returnsP (gn_file_hash sys md5 path)
    (\<lambda>r w'. files fs w' = files fs w \<and> (case r of Inl e \<Rightarrow> True | Inr h \<Rightarrow> h = file_hash md5 content)) w"
  unfolding gn_file_hash_def
proof (rule with_file_source [OF assms, where body = "hash_body md5" and P = "case_sum (\<lambda>e. True) (\<lambda>h. h = file_hash md5 content)"])
  fix fd w' assume o: "opened fs (files fs w) fd path w'"
  have rd: "returnsP (read_at sys fd path offset n) (\<lambda>r u. opened fs (files fs w) fd path u \<and>
      (\<forall>bs. r = Inr bs \<longrightarrow> bs = take n (drop offset content))) u" if "opened fs (files fs w) fd path u" for offset n u
    unfolding read_at_def by (rule returnsP_weaken [OF read_at_loop_content [where F = "files fs w", OF assms(2,3) that]]) auto
  have "returnsP (hash_feed (read_at sys fd path) (length content) 0 []) (\<lambda>r w''. opened fs (files fs w) fd path w'' \<and>
      (\<forall>bs. r = Inr bs \<longrightarrow> bs = content)) w'"
    using hash_feed_content [where P = "opened fs (files fs w) fd path", OF rd o, of 0 "[]"] by simp
  then show "returnsP (hash_body md5 (read_at sys fd path) (length content)) (\<lambda>r w''. opened fs (files fs w) fd path w'' \<and>
      case_sum (\<lambda>e. True) (\<lambda>h. h = file_hash md5 content) r) w'"
    using o by (cases "content = []") (auto simp: hash_body_def file_hash_def wp elim!: returnsP_weaken split: sum.splits)
qed simp_all

section \<open>Witnesses\<close>

text \<open>
  A sample library: the world holds what is left of the stream, the number of bytes written, the
  number of fetches, and the extract names. The query has one row, the cabinet two files.
\<close>

type_synonym gn_world = "bytes \<times> nat \<times> nat \<times> (nat \<rightharpoonup> string)"

definition sample_gnome :: "gn_world gnome" where
  "sample_gnome =
     \<lparr>msi_object = (\<lambda>_. (1, ''a.msi'')), set_msi_object = (\<lambda>_ w. w), g_object_unref = (\<lambda>_ w. w),
      libmsi_database_new = (\<lambda>_ w. (Inr 1, w)), libmsi_database_commit = (\<lambda>_ w. (Inr (), w)),
      libmsi_record_new = (\<lambda>_ w. (Some 2, w)), libmsi_record_set = (\<lambda>_ _ _ w. (True, w)),
      libmsi_record_get_field_count = (\<lambda>_ _. 1), libmsi_record_get_string = (\<lambda>_ _ w. (None, w)),
      libmsi_record_get_stream = (\<lambda>_ _ w. (Some 3, w)), libmsi_query_new = (\<lambda>_ _ w. (Inr 4, w)),
      libmsi_query_execute = (\<lambda>_ _ w. (Inr (), w)),
      libmsi_query_fetch = (\<lambda>_ (inp, n, k, e). (Inr (if k = 0 then Some 5 else None), (inp, n, k + 1, e))),
      libmsi_summary_info_new = (\<lambda>_ _ w. (Inr 6, w)), libmsi_summary_source = (\<lambda>_ w. (Inr 0, w)),
      libmsi_summary_uuid = (\<lambda>_ w. (Inr [], w)), libmsi_summary_set_uuid = (\<lambda>_ _ w. (Inr (), w)),
      libmsi_summary_info_persist = (\<lambda>_ w. (Inr (), w)), g_uuid_string_random = (\<lambda>w. ([], w)), g_ascii_strup = (\<lambda>s. s),
      g_file_read = (\<lambda>_ w. (Inr 7, w)), g_file_replace = (\<lambda>_ w. (Inr 8, w)),
      g_input_stream_read = (\<lambda>_ m (inp, n, k, e). (Inr (take m inp), (drop m inp, n, k, e))),
      g_output_stream_write_all = (\<lambda>_ d (inp, n, k, e). (Inr (), (inp, n + length d, k, e))),
      g_output_stream_close = (\<lambda>_ w. (Inr (), w)),
      gcab_cabinet_new = (\<lambda>w. (9, w)), gcab_cabinet_add_allowed_compression = (\<lambda>_ _ w. w),
      gcab_cabinet_load = (\<lambda>_ _ w. (Inr (), w)), gcab_cabinet_get_folders = (\<lambda>_ _. [10]),
      gcab_folder_get_files = (\<lambda>_ _. [11, 12]),
      gcab_file_get_name = (\<lambda>f _. if f = 11 then ''a.exe'' else ''b.dll''), gcab_file_get_size = (\<lambda>f _. if f = 11 then 3 else 4),
      gcab_file_set_extract_name = (\<lambda>f p (inp, n, k, e). (inp, n, k, e(f \<mapsto> p))),
      gcab_cabinet_extract_simple = (\<lambda>_ _ w. (Inr (), w)), gcab_folder_new = (\<lambda>_ w. (13, w)),
      gcab_file_new_with_file = (\<lambda>_ _ w. (Some 14, w)), gcab_folder_add_file = (\<lambda>_ _ w. (Inr (), w)),
      gcab_file_set_attributes = (\<lambda>_ _ w. w), g_date_time_new_utc = (\<lambda>_ w. (None, w)), gcab_file_set_date_time = (\<lambda>_ _ w. w),
      gcab_cabinet_add_folder = (\<lambda>_ _ w. (Inr (), w)), gcab_cabinet_write_simple = (\<lambda>_ _ w. (Inr (), w)),
      gn_md5 = (\<lambda>c. replicate 12 0 @ [0xFE, 0xFF, 0xFF, 0xFF])\<rparr>"

abbreviation sample_written :: "gn_world \<Rightarrow> nat" where
  "sample_written \<equiv> (\<lambda>(inp, n, k, e). n)"

abbreviation sample_ename :: "nat \<Rightarrow> gn_world \<Rightarrow> string option" where
  "sample_ename \<equiv> (\<lambda>f (inp, n, k, e). e f)"

lemma sample_stream_contract: "stream_contract sample_gnome sample_written"
  by (simp add: stream_contract_def quiet_gcall_def sample_gnome_def split_beta)

lemma sample_name_contract: "extract_name_contract sample_gnome sample_ename"
  by (simp add: extract_name_contract_def sample_gnome_def split_beta)

lemma sample_extract:
  "msi_extract_stream sample_gnome 1 ''q'' ''k'' ''/t/f'' 5 ([1, 2, 3], 0, 0, Map.empty) = Some (Inr 3, ([], 3, 2, Map.empty))"
  by (simp add: msi_extract_stream_def prepare_query_def parameters_def bindP_def gcheck_def someP_def getP_def open_output_def
      sample_gnome_def stream_loop.simps)

theorem msi_extract_stream_bounded_witness:
  "msi_extract_stream sample_gnome 1 ''q'' ''k'' ''/t/f'' 5 ([1, 2, 3], 0, 0, Map.empty) = Some (Inr 3, ([], 3, 2, Map.empty)) \<and>
   sample_written ([], 3, 2, Map.empty :: nat \<rightharpoonup> string) \<le> 0 + unat (5 :: 64 word)"
  using msi_extract_stream_bounded [OF sample_stream_contract sample_extract] sample_extract by simp

abbreviation sample_members :: "CabinetMember list" where
  "sample_members \<equiv>
     [\<lparr>m_name = ''b.dll'', m_path = ''/t/0'', m_size = 4, m_date = 0, m_time = 0, m_attributes = 0\<rparr>,
      \<lparr>m_name = ''a.exe'', m_path = ''/t/1'', m_size = 3, m_date = 0, m_time = 0, m_attributes = 0\<rparr>]"

lemma sample_gcab_extract:
  "gcab_extract sample_gnome ''/t/c.cab'' sample_members ([], 0, 0, Map.empty) = Some (Inr (), ([], 0, 0, [11 \<mapsto> ''/t/1'', 12 \<mapsto> ''/t/0'']))"
  by (simp add: gcab_extract_def bindP_def gcheck_def getP_def seeP_def open_input_def sample_gnome_def expect_member_def)

theorem gcab_extract_exact_witness:
  "\<exists>v fs. length fs = 2 \<and> distinct (map (\<lambda>f. gcab_file_get_name sample_gnome f v) fs) \<and>
     gcab_cabinet_extract_simple sample_gnome 9 ''/'' v = (Inr (), ([], 0, 0, [11 \<mapsto> ''/t/1'', 12 \<mapsto> ''/t/0'']))"
proof -
  have cab: "gcab_cabinet_extract_simple sample_gnome cab ''/'' v = (Inr (), v)" for cab v by (simp add: sample_gnome_def)
  obtain v fs where "length fs = length sample_members" "distinct (map (\<lambda>f. gcab_file_get_name sample_gnome f v) fs)"
    "v = ([], 0, 0, [11 \<mapsto> ''/t/1'', 12 \<mapsto> ''/t/0''])"
    using gcab_extract_exact [OF sample_name_contract sample_gcab_extract] unfolding cab by blast
  then show ?thesis by (intro exI [of _ v] exI [of _ fs]) (simp add: cab)
qed

theorem gn_file_hash_content_witness:
  "returnsP (gn_file_hash sample_sys (\<lambda>c. replicate 12 0 @ [0xFE, 0xFF, 0xFF, 0xFF]) ''a.exe'')
    (\<lambda>r w'. files sample_view w' = files sample_view ([''a.exe'' \<mapsto> [1, 2]], Map.empty) \<and>
       (case r of Inl e \<Rightarrow> True | Inr h \<Rightarrow> h = [0, 0, 0, - 2])) ([''a.exe'' \<mapsto> [1, 2]], Map.empty)"
proof -
  have h: "file_hash (\<lambda>c. replicate 12 0 @ [0xFE, 0xFF, 0xFF, 0xFF]) [1, 2] = [0, 0, 0, - 2]" by code_simp
  have "files sample_view ([''a.exe'' \<mapsto> [1, 2]], Map.empty) ''a.exe'' = Some [1, 2]" by (simp add: sample_view_def)
  from gn_file_hash_content [OF sample_fs_contract sample_read_contract this, of "\<lambda>c. replicate 12 0 @ [0xFE, 0xFF, 0xFF, 0xFF]"]
  show ?thesis unfolding h .
qed

end
