(* ===== verification/Signing.thy ===== *)
theory Signing
  imports Pe Posix_Shell Azure Msi_Recursive
begin

text \<open>
  The signing of one file, from \<^verbatim>\<open>src/src/signing.cpp\<close>: the identification of the
  format, the calls of the companion \<^verbatim>\<open>osslsigncode\<close>, the staged signing with its
  final checks, and the replacement of the input. The callbacks of the caller are arguments:
  \<open>sign_digest\<close> obtains a signature, \<open>log\<close> writes a line.
\<close>

section \<open>Paths\<close>

text \<open>
  What the source uses of \<^verbatim>\<open>std::filesystem::path\<close> on POSIX systems: the extension of
  the last component, the parent, and the composition with a relative name
\<close>

definition filename :: "string \<Rightarrow> string" where
  "filename p = rev (takeWhile (\<lambda>c. c \<noteq> CHR ''/'') (rev p))"

definition path_extension :: "string \<Rightarrow> string" where
  "path_extension p =
     (let f = filename p; suffix = rev (takeWhile (\<lambda>c. c \<noteq> CHR ''.'') (rev f)) in
      if f = ''.'' \<or> f = ''..'' \<or> length f \<le> length suffix + 1 then [] else CHR ''.'' # suffix)"

definition parent_path :: "string \<Rightarrow> string" where
  "parent_path p =
     (let pre = rev (dropWhile (\<lambda>c. c \<noteq> CHR ''/'') (rev p));
          stripped = rev (dropWhile (\<lambda>c. c = CHR ''/'') (rev pre))
      in if stripped = [] then pre else stripped)"

definition join_path :: "string \<Rightarrow> string \<Rightarrow> string" where
  "join_path dir name = (if dir = [] then name else if last dir = CHR ''/'' then dir @ name else dir @ ''/'' @ name)"

section \<open>Types\<close>

datatype Kind = Kind_Pe | Kind_Msi | Kind_Msix

record SigningOptions =
  so_osslsigncode :: string
  so_timestamp_url :: string
  so_dump_cms :: string
  so_ca_bundle :: string
  so_no_timestamp :: bool
  so_msi_dse :: bool
  so_recursive :: bool
  so_insecure :: bool

type_synonym 'w signer = "bytes \<Rightarrow> ('w, AzureSignResult) prog"
type_synonym 'w logger = "string \<Rightarrow> 'w \<Rightarrow> 'w"

section \<open>Helpers\<close>

definition extension :: "string \<Rightarrow> string" where
  "extension path = map tolower (path_extension path)"

definition read_blob :: "'w sys \<Rightarrow> string \<Rightarrow> ('w, bytes) prog" where
  "read_blob sys path =
     with_file sys path (\<lambda>fd.
       bindP (file_size sys fd path) (\<lambda>n.
       bindP (checkP (\<not> MAX_CMS < n) (''signature data exceeds 16 MiB: '' @ path)) (\<lambda>_.
       if n \<noteq> 0 then read_at sys fd path 0 n else retP [])))"

definition write_blob :: "'w sys \<Rightarrow> string \<Rightarrow> bytes \<Rightarrow> ('w, unit) prog" where
  "write_blob sys path bs = write_whole_file sys path bs"

definition cfb_magic :: bytes where
  "cfb_magic = [0xd0, 0xcf, 0x11, 0xe0, 0xa1, 0xb1, 0x1a, 0xe1]"

definition identify_magic :: "string \<Rightarrow> bytes \<Rightarrow> Kind result" where
  "identify_magic ext magic =
     (if magic = cfb_magic then
        (if ext \<noteq> ''.msi'' then throw ''compound file is not a supported .msi package'' else Inr Kind_Msi)
      else if ext = ''.msi'' then throw ''not an MSI compound file''
      else if take 2 magic = [0x4D, 0x5A] then Inr Kind_Pe
      else if take 4 magic = [0x50, 0x4B, 3, 4] \<and>
              (ext = ''.msix'' \<or> ext = ''.msixbundle'' \<or> ext = ''.appx'' \<or> ext = ''.appxbundle'')
      then Inr Kind_Msix
      else throw ''unsupported file format; expected PE, MSI, MSIX or MSIX bundle'')"

definition identify :: "'w sys \<Rightarrow> string \<Rightarrow> ('w, Kind) prog" where
  "identify sys path =
     with_file sys path (\<lambda>fd.
       bindP (read_at sys fd path 0 8) (\<lambda>magic. liftP (identify_magic (extension path) magic)))"

section \<open>The companion\<close>

definition invoke :: "'w shell \<Rightarrow> SigningOptions \<Rightarrow> string list \<Rightarrow> ('w, ProcessResult) prog" where
  "invoke sh options args = run_process sh (so_osslsigncode options) args"

definition checked :: "'w shell \<Rightarrow> SigningOptions \<Rightarrow> string list \<Rightarrow> ('w, unit) prog" where
  "checked sh options args =
     bindP (invoke sh options args) (\<lambda>result.
     checkP (exit_code result = 0)
       (''osslsigncode '' @ hd args @ '' failed (exit '' @ to_string_int (exit_code result) @ ''):'' @ [CHR 0x0A] @
        captured result))"

definition missing_text :: "Kind \<Rightarrow> string" where
  "missing_text kind =
     (case kind of Kind_Pe \<Rightarrow> ''No signature found'' | Kind_Msi \<Rightarrow> ''MSI file has no signature''
      | Kind_Msix \<Rightarrow> ''AppxSignature.p7x does not exist'')"

definition extract_existing :: "'w shell \<Rightarrow> string \<Rightarrow> string \<Rightarrow> Kind \<Rightarrow> SigningOptions \<Rightarrow> ('w, bool) prog" where
  "extract_existing sh path out kind options =
     bindP (invoke sh options [''extract-signature'', ''-in'', path, ''-out'', out]) (\<lambda>result.
     if exit_code result = 0 then
       bindP (read_blob (sh_sys sh) out) (\<lambda>blob.
       bindP (liftP (cms_has_signer blob)) (\<lambda>has_signer.
       bindP (checkP has_signer (''existing signature contains no signer: '' @ path)) (\<lambda>_.
       retP True)))
     else
       bindP (checkP (find_str (captured result) (missing_text kind) 0 \<noteq> None)
                (''cannot inspect existing signature: '' @ path @ [CHR 0x0A] @ captured result)) (\<lambda>_.
       retP False))"

section \<open>Staged signing\<close>

definition format_args :: "Kind \<Rightarrow> SigningOptions \<Rightarrow> string list \<Rightarrow> string list" where
  "format_args kind options args =
     args @ [''-h'', ''sha256''] @ (if kind = Kind_Msi \<and> so_msi_dse options then [''-add-msi-dse''] else [])"

text \<open>The input without its signature\<close>

definition staged_source :: "'w shell \<Rightarrow> string \<Rightarrow> string \<Rightarrow> Kind \<Rightarrow> SigningOptions \<Rightarrow> ('w, string) prog" where
  "staged_source sh work path kind options =
     (let existing = work @ ''/existing.der''; unsigned_path = work @ ''/unsigned'' @ extension path in
      bindP (extract_existing sh path existing kind options) (\<lambda>signed_input.
      if signed_input then
        bindP (checked sh options [''remove-signature'', ''-in'', path, ''-out'', unsigned_path]) (\<lambda>_.
        retP unsigned_path)
      else retP path))"

text \<open>The content to sign, by the companion\<close>

definition extract_data :: "'w shell \<Rightarrow> Kind \<Rightarrow> SigningOptions \<Rightarrow> string \<Rightarrow> string \<Rightarrow> ('w, bytes) prog" where
  "extract_data sh kind options source out =
     bindP (checked sh options (format_args kind options [''extract-data''] @ [''-in'', source, ''-out'', out])) (\<lambda>_.
     bindP (read_blob (sh_sys sh) out) (\<lambda>blob.
     liftP (cms_extract_indirect_data blob)))"

definition make_signature :: "'w shell \<Rightarrow> 'w signer \<Rightarrow> 'w logger \<Rightarrow> bytes \<Rightarrow> ('w, bytes) prog" where
  "make_signature sh sign_digest log indirect_data =
     bindP (liftP (cms_auth_attrs_hash (sh_sha256 sh) indirect_data)) (\<lambda>digest.
     bindP (doP (log (''Signing via Azure...'' @ [CHR 0x0A]))) (\<lambda>_.
     bindP (sign_digest digest) (\<lambda>result.
     liftP (cms_build_authenticode (sh_sha256 sh) indirect_data (signature result) (cert_chain_der result)))))"

definition timestamp_args :: "SigningOptions \<Rightarrow> string \<Rightarrow> string \<Rightarrow> string list" where
  "timestamp_args options from to =
     [''-ts'', so_timestamp_url options, ''-in'', from, ''-out'', to] @
     (if so_insecure options then [''-noverifypeer''] else []) @
     (if so_ca_bundle options \<noteq> [] then [''-HTTPS-CAfile'', so_ca_bundle options] else [])"

definition add_timestamp ::
  "'w shell \<Rightarrow> string \<Rightarrow> string \<Rightarrow> Kind \<Rightarrow> SigningOptions \<Rightarrow> 'w logger \<Rightarrow> string \<Rightarrow> ('w, string) prog" where
  "add_timestamp sh work path kind options log out =
     (if so_no_timestamp options then retP out
      else
        let timestamped = work @ ''/timestamped'' @ extension path in
        bindP (doP (log (''Requesting timestamp from '' @ so_timestamp_url options @ '' ...'' @ [CHR 0x0A]))) (\<lambda>_.
        bindP (checked sh options (format_args kind options [''add''] @ timestamp_args options out timestamped)) (\<lambda>_.
        retP timestamped)))"

text \<open>The final checks: the CMS in the output has a signer, and its content and the file's are the signed one\<close>

definition verify_output ::
  "'w shell \<Rightarrow> string \<Rightarrow> Kind \<Rightarrow> SigningOptions \<Rightarrow> string \<Rightarrow> bytes \<Rightarrow> ('w, bytes) prog" where
  "verify_output sh work kind options out indirect_data =
     (let final_cms_path = work @ ''/final.der'' in
      bindP (checked sh options [''extract-signature'', ''-in'', out, ''-out'', final_cms_path]) (\<lambda>_.
      bindP (read_blob (sh_sys sh) final_cms_path) (\<lambda>final_cms.
      bindP (liftP (cms_has_signer final_cms)) (\<lambda>has_signer.
      bindP (checkP has_signer ''completed signature contains no signer'') (\<lambda>_.
      bindP (liftP (cms_extract_indirect_data final_cms)) (\<lambda>final_data.
      bindP (checkP (final_data = indirect_data) ''completed signature changed the indirect data'') (\<lambda>_.
      bindP (extract_data sh kind options out (work @ ''/rechecked.der'')) (\<lambda>rechecked.
      bindP (checkP (rechecked = indirect_data) ''completed file no longer matches its signature'') (\<lambda>_.
      retP final_cms)))))))))"

definition sign_staged ::
  "'w shell \<Rightarrow> string \<Rightarrow> Kind \<Rightarrow> SigningOptions \<Rightarrow> 'w signer \<Rightarrow> 'w logger \<Rightarrow> ('w, unit) prog" where
  "sign_staged sh path kind options sign_digest log =
     with_temp_dir sh (parent_path path) (\<lambda>work.
     bindP (staged_source sh work path kind options) (\<lambda>source.
     bindP (extract_data sh kind options source (work @ ''/content.der'')) (\<lambda>indirect_data.
     bindP (make_signature sh sign_digest log indirect_data) (\<lambda>cms.
     let signature_path = work @ ''/signature.der''; out = work @ ''/signed'' @ extension path in
     bindP (write_blob (sh_sys sh) signature_path cms) (\<lambda>_.
     bindP (checked sh options (format_args kind options [''attach-signature''] @
              [''-sigin'', signature_path, ''-in'', source, ''-out'', out])) (\<lambda>_.
     bindP (add_timestamp sh work path kind options log out) (\<lambda>out.
     bindP (verify_output sh work kind options out indirect_data) (\<lambda>final_cms.
     bindP (if so_dump_cms options \<noteq> [] then write_blob (sh_sys sh) (so_dump_cms options) final_cms else retP ()) (\<lambda>_.
     atomic_replace_file (sh_sys sh) (parent_path path) out path)))))))))"

section \<open>Entry points\<close>

primrec check_commands :: "string \<Rightarrow> string list \<Rightarrow> unit result" where
  "check_commands help [] = Inr ()"
| "check_commands help (c # cs) =
     (if find_str help c 0 = None then throw (''incompatible osslsigncode; missing '' @ c)
      else check_commands help cs)"

definition locate_osslsigncode :: "'w shell \<Rightarrow> string \<Rightarrow> ('w, string) prog" where
  "locate_osslsigncode sh explicit_path =
     (if explicit_path \<noteq> [] then (\<lambda>w. Some (find_executable sh explicit_path w))
      else
        bindP (executable_path sh) (\<lambda>self.
        let name = ''osslsigncode'' @ (if path_extension self = ''.exe'' then ''.exe'' else []) in
        catchP (\<lambda>w. Some (find_executable sh (join_path (parent_path self) name) w))
          (\<lambda>_ w. Some (find_executable sh name w))))"

definition resolve_osslsigncode :: "'w shell \<Rightarrow> string \<Rightarrow> ('w, string) prog" where
  "resolve_osslsigncode sh explicit_path =
     bindP (locate_osslsigncode sh explicit_path) (\<lambda>resolved.
     bindP (run_process sh resolved [''--help'']) (\<lambda>help.
     bindP (checkP (exit_code help = 0) (''cannot query osslsigncode: '' @ captured help)) (\<lambda>_.
     bindP (liftP (check_commands (captured help)
              [''extract-data'', ''attach-signature'', ''extract-signature'', ''remove-signature'', ''-ts''])) (\<lambda>_.
     retP resolved))))"

definition sign_payload_callback ::
  "'w shell \<Rightarrow> SigningOptions \<Rightarrow> 'w signer \<Rightarrow> 'w logger \<Rightarrow> string \<Rightarrow> string \<Rightarrow> ('w, bool) prog" where
  "sign_payload_callback sh options sign_digest log payload display_name =
     bindP (pe_has_signature (sh_sys sh) payload) (\<lambda>signed.
     if signed then
       bindP (doP (log (''Preserved signed payload: '' @ display_name @ [CHR 0x0A]))) (\<lambda>_. retP False)
     else
       bindP (doP (log (''Signing payload: '' @ display_name @ [CHR 0x0A]))) (\<lambda>_.
       bindP (sign_staged sh payload Kind_Pe (options\<lparr>so_dump_cms := [], so_recursive := False\<rparr>) sign_digest log) (\<lambda>_.
       retP True)))"

definition rewrite_staged ::
  "'w shell \<Rightarrow> 'w msi_lib \<Rightarrow> string \<Rightarrow> SigningOptions \<Rightarrow> 'w signer \<Rightarrow> 'w logger \<Rightarrow> ('w, unit) prog" where
  "rewrite_staged sh lib staged options sign_digest log =
     bindP (rewrite_msi_payload sh lib staged (sign_payload_callback sh options sign_digest log)) (\<lambda>counts.
     doP (log (''MSI payloads: '' @ to_string_nat (signed_files counts) @ '' signed, '' @
               to_string_nat (preserved_files counts) @ '' preserved'' @ [CHR 0x0A])))"

definition sign_in_workspace ::
  "'w shell \<Rightarrow> 'w msi_lib \<Rightarrow> string \<Rightarrow> Kind \<Rightarrow> SigningOptions \<Rightarrow> 'w signer \<Rightarrow> 'w logger \<Rightarrow> string \<Rightarrow> ('w, unit) prog" where
  "sign_in_workspace sh lib path kind options sign_digest log work =
     (let staged = work @ ''/input'' @ extension path in
      bindP (copy_file (sh_sys sh) path staged) (\<lambda>_.
      bindP (if kind = Kind_Msi \<and> so_recursive options then rewrite_staged sh lib staged options sign_digest log
             else retP ()) (\<lambda>_.
      bindP (sign_staged sh staged kind options sign_digest log) (\<lambda>_.
      bindP (atomic_replace_file (sh_sys sh) (parent_path path) staged path) (\<lambda>_.
      doP (log (''Signed '' @ path @ '' successfully.'' @ [CHR 0x0A])))))))"

definition sign_file ::
  "'w shell \<Rightarrow> 'w msi_lib \<Rightarrow> string \<Rightarrow> SigningOptions \<Rightarrow> 'w signer \<Rightarrow> 'w logger \<Rightarrow> ('w, unit) prog" where
  "sign_file sh lib path options sign_digest log =
     bindP (if so_dump_cms options \<noteq> [] then same_file (sh_sys sh) path (so_dump_cms options) else retP False) (\<lambda>same.
     bindP (checkP (\<not> same) ''--dump-cms must not refer to the input file'') (\<lambda>_.
     bindP (identify (sh_sys sh) path) (\<lambda>kind.
     bindP (if kind = Kind_Pe then pe_has_signature (sh_sys sh) path else retP False) (\<lambda>_.
     let parent = parent_path path in
     with_temp_dir sh (if parent = [] then ''.'' else parent)
       (sign_in_workspace sh lib path kind options sign_digest log)))))"

end
