(* ===== verification/Signing_Frame.thy ===== *)
theory Signing_Frame
  imports Signing
begin

text \<open>
  What signing leaves alone. The documented effect of the system calls, of the temporary
  directories and of the companion on the files is stated as a contract; from it, each step of
  \<^verbatim>\<open>sign_file\<close> but the last keeps the contents of the input.
\<close>

section \<open>The contract\<close>

definition under :: "string \<Rightarrow> string \<Rightarrow> bool" where
  "under dir p \<longleftrightarrow> starts_with p (dir @ ''/'')"

text \<open>Removing or reading a file does not touch another one, and an existing file has one identity\<close>

definition unlink_contract :: "'w sys \<Rightarrow> 'w fs_view \<Rightarrow> bool" where
  "unlink_contract sys fs \<longleftrightarrow>
     (\<forall>p q w. q \<noteq> p \<longrightarrow> files fs (snd (sys_unlink sys p w)) q = files fs w q) \<and>
     (\<forall>fd n w. handle fs (snd (sys_read sys fd n w)) = handle fs w)"

definition missing :: "errno + stat_buf \<Rightarrow> bool" where
  "missing r \<longleftrightarrow> r = Inl ENOENT \<or> r = Inl ENOTDIR"

definition stat_contract :: "'w sys \<Rightarrow> 'w fs_view \<Rightarrow> bool" where
  "stat_contract sys fs \<longleftrightarrow>
     (\<forall>p w. files fs w p \<noteq> None \<longrightarrow> \<not> missing (fst (sys_stat sys p w))) \<and>
     (\<forall>p w a b. fst (sys_stat sys p w) = Inr a \<longrightarrow> fst (sys_stat sys p (snd (sys_stat sys p w))) = Inr b \<longrightarrow>
        st_dev a = st_dev b \<and> st_ino a = st_ino b)"

text \<open>A new temporary directory is empty; removing it removes nothing outside\<close>

definition temp_contract :: "'w shell \<Rightarrow> 'w fs_view \<Rightarrow> bool" where
  "temp_contract sh fs \<longleftrightarrow>
     (\<forall>pat w d p. fst (mkdtemp sh pat w) = Inr d \<longrightarrow> under d p \<longrightarrow> files fs w p = None) \<and>
     (\<forall>pat. quiet_call fs (mkdtemp sh pat)) \<and>
     (\<forall>w. files fs (snd (temp_directory_path sh w)) = files fs w) \<and>
     (\<forall>d p w. \<not> under d p \<longrightarrow> files fs (remove_all sh d w) p = files fs w p)"

text \<open>
  The companion writes only the files named by its option \<^verbatim>\<open>-out\<close>. \<open>out_args\<close> reads
  its command line, in which the options listed take a value; \<open>running\<close> is what a started process
  may write until it has been waited for.
\<close>

fun out_args :: "string list \<Rightarrow> string set" where
  "out_args [] = {}"
| "out_args [a] = {}"
| "out_args (a # b # args) =
     (if a = ''-out'' then insert b (out_args args)
      else if a \<in> {''-in'', ''-h'', ''-ts'', ''-sigin'', ''-HTTPS-CAfile''} then out_args args
      else out_args (b # args))"

definition child_step :: "'w fs_view \<Rightarrow> ('w \<Rightarrow> string set) \<Rightarrow> 'w \<Rightarrow> 'w \<Rightarrow> bool" where
  "child_step fs running w w' \<longleftrightarrow> running w' = running w \<and> (\<forall>p. p \<notin> running w \<longrightarrow> files fs w' p = files fs w p)"

definition companion_contract :: "'w shell \<Rightarrow> 'w fs_view \<Rightarrow> ('w \<Rightarrow> string set) \<Rightarrow> bool" where
  "companion_contract sh fs running \<longleftrightarrow>
     quiet_call fs (sh_pipe sh) \<and> (\<forall>fd. quiet_call fs (dupfd3 sh fd)) \<and> quiet_call fs (actions_init sh) \<and>
     (\<forall>a. quiet_call fs (actions_add sh a)) \<and> quiet_call fs (attr_init sh) \<and>
     (\<forall>exe acts args env. quiet_call fs (posix_spawn sh exe acts args env)) \<and>
     (\<forall>exe acts args env w. running (snd (posix_spawn sh exe acts args env w)) \<subseteq> out_args (tl args)) \<and>
     (\<forall>fd w. running (snd (sys_close (sh_sys sh) fd w)) = running w) \<and>
     (\<forall>fd n w. child_step fs running w (snd (child_read sh fd n w))) \<and>
     (\<forall>w. child_step fs running w (child_kill sh w)) \<and>
     (\<forall>w. child_step fs running w (snd (child_wait sh w)))"

definition host_contract :: "'w shell \<Rightarrow> 'w fs_view \<Rightarrow> ('w \<Rightarrow> string set) \<Rightarrow> bool" where
  "host_contract sh fs running \<longleftrightarrow>
     fs_contract (sh_sys sh) fs \<and> unlink_contract (sh_sys sh) fs \<and> stat_contract (sh_sys sh) fs \<and>
     temp_contract sh fs \<and> companion_contract sh fs running"

section \<open>File operations\<close>

abbreviation holds :: "'w fs_view \<Rightarrow> string \<Rightarrow> bytes \<Rightarrow> 'w \<Rightarrow> bool" where
  "holds fs T c \<equiv> (\<lambda>w. files fs w T = Some c)"

lemma keeps_callP: "quiet_call fs call \<Longrightarrow> keeps (holds fs T c) (callP call msg)"
  by (auto simp: keeps_def callP_def quiet_call_def split: prod.splits sum.splits) (metis snd_conv)+

lemma keeps_ignoreP: "quiet_call fs call \<Longrightarrow> keeps (holds fs T c) (ignoreP call)"
  by (auto simp: keeps_def ignoreP_def quiet_call_def)

lemma keeps_scopedP:
  "quiet_call fs (sys_close sys fd) \<Longrightarrow> keeps (holds fs T c) m \<Longrightarrow> keeps (holds fs T c) (scopedP sys fd m)"
  by (auto simp: keeps_def scopedP_def quiet_call_def split: option.splits)

lemma quiet_open:
  assumes "fs_contract sys fs" "\<forall>m. mode \<noteq> Open_CREAT_TRUNC m \<and> mode \<noteq> Open_CREAT_EXCL m"
  shows "quiet_call fs (sys_open sys mode p)"
  unfolding quiet_call_def
proof
  fix w
  obtain r w' where o: "sys_open sys mode p w = (r, w')" by fastforce
  from assms(1) [unfolded fs_contract_def, THEN conjunct1, unfolded open_contract_def, rule_format,
      where m = mode and p = p and w = w, unfolded o] assms(2)
  have "files fs w' = files fs w" by (cases r; cases mode) auto
  with o show "files fs (snd (sys_open sys mode p w)) = files fs w" by simp
qed

lemma quietD:
  assumes "fs_contract sys fs"
  shows "quiet_call fs (sys_close sys fd)" "quiet_call fs (sys_fsync sys fd)" "quiet_call fs (sys_fstat sys fd)"
    "quiet_call fs (sys_fchmod sys fd m)" "quiet_call fs (sys_stat sys p)" "quiet_call fs (sys_pread sys fd off n)"
    "quiet_call fs (sys_read sys fd n)" "quiet_call fs (sys_open sys Open_RDWR p)" "quiet_call fs (sys_open sys Open_RDONLY p)"
  using assms quiet_open [OF assms] by (simp_all add: fs_contract_def quiet_contract_def)

lemma keeps_read_at:
  assumes "fs_contract sys fs"
  shows "keeps (holds fs T c) (read_at sys fd path offset n)"
proof -
  have "fs_contract sys fs \<longrightarrow> holds fs T c w \<longrightarrow> holds fs T c (snd rw)"
    if "read_at_loop sys fd path offset n buf w = Some rw" for offset n buf w rw
  proof (rule read_at_loop.raw_induct [where P = "\<lambda>sys fd path offset n buf w rw. fs_contract sys fs \<longrightarrow>
      holds fs T c w \<longrightarrow> holds fs T c (snd rw)", OF _ that], goal_cases)
    case (1 f sys fd path offset n buf w rw)
    obtain r w1 where p: "sys_pread sys fd offset n w = (r, w1)" by fastforce
    have "holds fs T c w1" if "fs_contract sys fs" "holds fs T c w"
      using quiet_callD [OF quietD(6) [OF that(1)] p] that(2) by simp
    with 1 p show ?case by (auto split: if_splits sum.splits)
  qed
  with assms show ?thesis by (fastforce simp: keeps_def read_at_def)
qed

lemma keeps_with_file:
  "fs_contract sys fs \<Longrightarrow> (\<And>fd. keeps (holds fs T c) (f fd)) \<Longrightarrow> keeps (holds fs T c) (with_file sys path f)"
  unfolding with_file_def by (intro keeps_bind keeps_callP keeps_scopedP quietD)

lemma keeps_file_size: "fs_contract sys fs \<Longrightarrow> keeps (holds fs T c) (file_size sys fd path)"
  unfolding file_size_def by (intro keeps_rules keeps_callP quietD)

lemma open_create:
  assumes "fs_contract sys fs" "mode = Open_CREAT_TRUNC m \<or> mode = Open_CREAT_EXCL m" "sys_open sys mode p w = (r, w')"
  shows "case r of Inl _ \<Rightarrow> files fs w' = files fs w
    | Inr fd \<Rightarrow> handle fs w' fd = Some p \<and> files fs w' = (files fs w)(p \<mapsto> [])"
  using assms(1) [unfolded fs_contract_def, THEN conjunct1, unfolded open_contract_def, rule_format,
      where m = mode and p = p and w = w, unfolded assms(3)] assms(2)
  by (auto split: sum.splits)

lemma keeps_write_whole_file:
  assumes "fs_contract sys fs" "path \<noteq> T"
  shows "keeps (holds fs T c) (write_whole_file sys path data)"
  unfolding write_whole_file_def
proof (rule keeps_returns, rule returnsP_bindI)
  fix w assume T: "holds fs T c w"
  obtain r w1 where o: "sys_open sys (Open_CREAT_TRUNC 0x1A4) path w = (r, w1)" by fastforce
  from open_create [OF assms(1) _ o] T assms(2)
  show "returnsP (callP (sys_open sys (Open_CREAT_TRUNC 0x1A4) path) (errno_msg sys ''open(write)'' path))
      (\<lambda>r w'. holds fs T c w' \<and> (\<forall>fd. r = Inr fd \<longrightarrow> handle fs w' fd = Some path \<and> files fs w' path = Some [])) w"
    by (auto simp: wp o split: sum.splits)
next
  fix fd w assume "holds fs T c w \<and> (\<forall>k. Inr fd = Inr k \<longrightarrow> handle fs w k = Some path \<and> files fs w path = Some [])"
  then have h: "handle fs w fd = Some path" "files fs w path = Some []" and T: "holds fs T c w" by auto
  have c: "write_contract sys fs" "quiet_contract sys fs" using assms(1) by (simp_all add: fs_contract_def)
  show "returnsP (bindP (write_loop sys fd path data) (\<lambda>_. callP (sys_close sys fd) (errno_msg sys ''close'' path)))
      (\<lambda>r. holds fs T c) w"
  proof (rule returnsP_bindI [OF write_loop_appends [OF c h]])
    show "returnsP (callP (sys_close sys fd) (errno_msg sys ''close'' path)) (\<lambda>r. holds fs T c) w'"
      if "case Inr x of Inl _ \<Rightarrow> \<exists>c'. files fs w' = (files fs w)(path \<mapsto> c')
        | Inr _ \<Rightarrow> files fs w' = (files fs w)(path \<mapsto> [] @ data)" for x :: unit and w'
      by (rule returnsP_weaken [OF returnsP_callP_quiet [OF quietD(1) [OF assms(1)] refl]])
        (use that T assms(2) in auto)
  qed (use T assms(2) in auto)
qed auto

text \<open>Copying: while the loops run, the target descriptor stays on the new file\<close>

definition copying :: "'w fs_view \<Rightarrow> string \<Rightarrow> bytes \<Rightarrow> nat \<Rightarrow> string \<Rightarrow> 'w \<Rightarrow> bool" where
  "copying fs T c target to w \<longleftrightarrow> files fs w T = Some c \<and> handle fs w target = Some to \<and> files fs w to \<noteq> None"

lemma copy_write_loop_copying:
  assumes "copy_write_loop sys target to data w = Some rw"
  shows "write_contract sys fs \<and> to \<noteq> T \<longrightarrow> copying fs T c target to w \<longrightarrow> copying fs T c target to (snd rw)"
proof (rule copy_write_loop.raw_induct [where P = "\<lambda>sys target to data w rw. write_contract sys fs \<and> to \<noteq> T \<longrightarrow>
    copying fs T c target to w \<longrightarrow> copying fs T c target to (snd rw)", OF _ assms], goal_cases)
  case (1 f sys target to data w rw)
  obtain r w1 where s: "sys_write sys target data w = (r, w1)" by fastforce
  have "copying fs T c target to w1"
    if a: "write_contract sys fs" "to \<noteq> T" "copying fs T c target to w" "data \<noteq> []"
  proof -
    obtain d where "files fs w to = Some d" "handle fs w target = Some to" "files fs w T = Some c"
      using a(3) by (auto simp: copying_def)
    with a(1) [unfolded write_contract_def, rule_format, of w target to d data, unfolded s] a(2,4)
    show ?thesis by (auto simp: copying_def split: sum.splits)
  qed
  with 1 s show ?case by (auto split: if_splits sum.splits)
qed

lemma copy_loop_copying:
  assumes "copy_loop sys source target from to w = Some rw"
  shows "fs_contract sys fs \<and> unlink_contract sys fs \<and> to \<noteq> T \<longrightarrow> copying fs T c target to w \<longrightarrow> copying fs T c target to (snd rw)"
proof (rule copy_loop.raw_induct [where P = "\<lambda>sys source target from to w rw.
    fs_contract sys fs \<and> unlink_contract sys fs \<and> to \<noteq> T \<longrightarrow>
    copying fs T c target to w \<longrightarrow> copying fs T c target to (snd rw)", OF _ assms], goal_cases)
  case (1 f sys source target src to w rw)
  obtain r w1 where s: "sys_read sys source 65536 w = (r, w1)" by fastforce
  show ?case
  proof (intro impI)
    assume a: "fs_contract sys fs \<and> unlink_contract sys fs \<and> to \<noteq> T" and k: "copying fs T c target to w"
    have "files fs w1 = files fs w" using quiet_callD [OF quietD(7) s] a by blast
    moreover have "handle fs w1 = handle fs w"
      using a unfolding unlink_contract_def by (metis s snd_conv)
    ultimately have k1: "copying fs T c target to w1" using k by (simp add: copying_def)
    have step: "copying fs T c target to w2" if "copy_write_loop sys target to buf w1 = Some (q, w2)" for buf q w2
      using copy_write_loop_copying [OF that] a k1 by (simp add: fs_contract_def)
    have again: "copying fs T c target to (snd rw)"
      if "f sys source target src to w2 = Some rw" "copying fs T c target to w2" for w2
      using 1(1) [OF that(1)] that(2) a by simp
    show "copying fs T c target to (snd rw)"
      using 1(2) s k1 by (auto split: if_splits sum.splits option.splits) (blast intro: again step)+
  qed
qed

lemma keeps_copy_file:
  assumes "fs_contract sys fs" "unlink_contract sys fs" "to \<noteq> T"
  shows "keeps (holds fs T c) (copy_file sys src to)"
proof -
  have q: "files fs (snd (sys_close sys fd w)) = files fs w" "files fs (snd (sys_unlink sys to w)) T = files fs w T" for fd w
    using quietD(1) [OF assms(1)] assms(2,3) by (auto simp: quiet_call_def unlink_contract_def)
  have body: "files fs w' T = Some c" if b: "copy_body sys source target st src to w = Some (r, w')"
    and k: "copying fs T c target to w" for source target st w r w'
  proof -
    have inner: "files fs u T = Some c"
      if i: "bindP (copy_loop sys source target src to) (\<lambda>_. callP (sys_fchmod sys target m) msg) w = Some (q, u)" for m msg q u
    proof -
      have l: "files fs v T = Some c" if "copy_loop sys source target src to w = Some (x, v)" for x v
        using copy_loop_copying [OF that] assms k by (simp add: copying_def)
      show ?thesis
        using i keepsD [OF keeps_callP [OF quietD(4) [OF assms(1)]], where w' = u] l
        unfolding bindP_Some_iff by blast
    qed
    have cl: "files fs v T = Some c" if "sys_close sys target u = (x, v)" "files fs u T = Some c" for u x v
      using that q(1) by (metis snd_conv)
    show ?thesis
      using b unfolding copy_body_def
      by (auto simp: q split: option.splits sum.splits prod.splits dest!: inner dest: cl)
  qed
  have opened: "files fs w' T = Some c" if "files fs w T = Some c"
    "bindP (callP (sys_open sys (Open_CREAT_EXCL m) to) msg) (\<lambda>target. copy_body sys source target st src to) w = Some (r, w')"
    for m msg source st w r w'
  proof -
    obtain x w1 where o: "sys_open sys (Open_CREAT_EXCL m) to w = (x, w1)" by fastforce
    from open_create [OF assms(1) _ o] that assms(3) body show ?thesis
      by (cases x) (auto simp: bindP_def callP_def o copying_def)
  qed
  then have created: "keeps (holds fs T c) (bindP (callP (sys_open sys (Open_CREAT_EXCL m) to) msg)
      (\<lambda>target. copy_body sys source target st src to))" for m msg source st
    unfolding keeps_def by blast
  show ?thesis
    unfolding copy_file_def
    by (rule created | rule keeps_bind keeps_callP keeps_scopedP keeps_basic quietD assms(1))+
qed

lemma keeps_atomic_replace:
  assumes "fs_contract sys fs" "staged \<noteq> T" "destination \<noteq> T"
  shows "keeps (holds fs T c) (atomic_replace_file sys parent staged destination)"
  by (rule keeps_returns, rule returnsP_weaken [OF atomic_replace_outcome [OF assms(1)]])
    (use assms(2,3) in \<open>auto split: sum.splits\<close>)

text \<open>The input is not the file the CMS is dumped to\<close>

lemma keeps_same_file:
  assumes "fs_contract sys fs"
  shows "keeps (holds fs T c) (same_file sys p q)"
proof -
  have i: "keeps (holds fs T c) (stat_identity sys p)" for p
    unfolding keeps_def
  proof (intro allI impI)
    fix w r w' assume h: "holds fs T c w" and s: "stat_identity sys p w = Some (r, w')"
    obtain x w1 where st: "sys_stat sys p w = (x, w1)" by fastforce
    with s have "w' = w1" by (auto simp: stat_identity_def split: sum.splits if_splits)
    with quiet_callD [OF quietD(5) [OF assms] st] h show "holds fs T c w'" by simp
  qed
  show ?thesis
    unfolding same_file_def by (rule keeps_bind [OF i]) (auto intro!: keeps_bind i keeps_basic split: option.split)
qed

lemma same_file_self:
  assumes "fs_contract sys fs" "stat_contract sys fs" "files fs w p \<noteq> None"
  shows "same_file sys p p w \<noteq> Some (Inr False, w')"
proof -
  obtain r w1 where s: "sys_stat sys p w = (r, w1)" by fastforce
  obtain r2 w2 where s2: "sys_stat sys p w1 = (r2, w2)" by fastforce
  have "files fs w1 p \<noteq> None" using quiet_callD [OF quietD(5) [OF assms(1)] s] assms(3) by simp
  note m = assms(2) [unfolded stat_contract_def, THEN conjunct1, rule_format]
    and i = assms(2) [unfolded stat_contract_def, THEN conjunct2, rule_format, of p w, unfolded s fst_conv snd_conv s2]
  from m [OF assms(3)] m [OF \<open>files fs w1 p \<noteq> None\<close>] have "\<not> missing r" "\<not> missing r2"
    by (simp_all add: s s2)
  have same: "st_dev a = st_dev b \<and> st_ino a = st_ino b" if "r = Inr a" "r2 = Inr b" for a b
    using i that by blast
  have one: "stat_identity sys p w = (case r of Inr a \<Rightarrow> Some (Inr (Some a), w1) | Inl e \<Rightarrow> Some (throw (errno_msg sys ''stat(identity)'' p e), w1))"
    using \<open>\<not> missing r\<close> by (auto simp: stat_identity_def s missing_def split: sum.splits)
  have two: "stat_identity sys p w1 = (case r2 of Inr b \<Rightarrow> Some (Inr (Some b), w2) | Inl e \<Rightarrow> Some (throw (errno_msg sys ''stat(identity)'' p e), w2))"
    using \<open>\<not> missing r2\<close> by (auto simp: stat_identity_def s2 missing_def split: sum.splits)
  show ?thesis
  proof (cases r)
    case (Inl e)
    with one show ?thesis by (simp add: same_file_def bindP_def)
  next
    case (Inr a)
    then show ?thesis
      using one two same [OF Inr] by (cases r2) (simp_all add: same_file_def bindP_def)
  qed
qed

section \<open>The companion\<close>

lemma find_executable_files:
  assumes "fs_contract (sh_sys sh) fs"
  shows "files fs (snd (find_executable sh name w)) = files fs w"
proof -
  have x: "files fs w' = files fs w" if "is_executable sh p w = (ok, w')" for p w ok w'
    using that quietD(5) [OF assms] quiet_callD
    by (fastforce simp: is_executable_def split: prod.splits sum.splits)
  have "files fs (snd (search_dirs sh name dirs w)) = files fs w" for dirs w
  proof (induction dirs arbitrary: w)
    case (Cons d dirs)
    obtain ok w1 where e: "is_executable sh (path_candidate d name) w = (ok, w1)" by fastforce
    with x [OF e] Cons show ?case by (cases ok) (simp_all add: Let_def)
  qed simp
  then show ?thesis
    unfolding find_executable_def path_loop_search by (auto split: prod.splits bool.splits dest: x)
qed

abbreviation guarded :: "'w fs_view \<Rightarrow> ('w \<Rightarrow> string set) \<Rightarrow> string \<Rightarrow> bytes \<Rightarrow> 'w \<Rightarrow> bool" where
  "guarded fs running T c \<equiv> (\<lambda>w. files fs w T = Some c \<and> T \<notin> running w)"

lemma guarded_step: "child_step fs running w w' \<Longrightarrow> guarded fs running T c w \<Longrightarrow> guarded fs running T c w'"
  by (auto simp: child_step_def)

lemma companionD:
  assumes "companion_contract sh fs running"
  shows "child_step fs running w (snd (child_read sh fd n w))" "child_step fs running w (child_kill sh w)"
    "child_step fs running w (snd (child_wait sh w))"
    "running (snd (posix_spawn sh exe acts args env w)) \<subseteq> out_args (tl args)"
    "running (snd (sys_close (sh_sys sh) fd w)) = running w"
    "quiet_call fs (sh_pipe sh)" "quiet_call fs (dupfd3 sh fd)" "quiet_call fs (actions_init sh)"
    "quiet_call fs (actions_add sh a)" "quiet_call fs (attr_init sh)" "quiet_call fs (posix_spawn sh exe acts args env)"
  using assms by (simp_all add: companion_contract_def)

lemma capture_loop_guarded:
  assumes "capture_loop sh fd out w = Some rw"
  shows "companion_contract sh fs running \<longrightarrow> guarded fs running T c w \<longrightarrow> guarded fs running T c (snd rw)"
proof (rule capture_loop.raw_induct [where P = "\<lambda>sh fd out w rw. companion_contract sh fs running \<longrightarrow>
    guarded fs running T c w \<longrightarrow> guarded fs running T c (snd rw)", OF _ assms], goal_cases)
  case (1 f sh fd out w rw)
  obtain r w1 where s: "child_read sh fd 16384 w = (r, w1)" by fastforce
  show ?case
  proof (intro impI)
    assume a: "companion_contract sh fs running" and g: "guarded fs running T c w"
    have g1: "guarded fs running T c w1"
      using guarded_step [OF companionD(1) [OF a, of w fd 16384] g] by (simp add: s)
    have k: "guarded fs running T c (child_kill sh w1)"
      by (rule guarded_step [OF companionD(2) [OF a] g1])
    have again: "guarded fs running T c (snd rw)" if "f sh fd x w1 = Some rw" for x
      using 1(1) [OF that] a g1 by blast
    show "guarded fs running T c (snd rw)"
      using 1(2) g1 k again by (auto simp: s split: if_splits sum.splits)
  qed
qed

lemma wait_loop_guarded:
  assumes "wait_loop sh executable w = Some rw"
  shows "companion_contract sh fs running \<longrightarrow> guarded fs running T c w \<longrightarrow> guarded fs running T c (snd rw)"
proof (rule wait_loop.raw_induct [where P = "\<lambda>sh executable w rw. companion_contract sh fs running \<longrightarrow>
    guarded fs running T c w \<longrightarrow> guarded fs running T c (snd rw)", OF _ assms], goal_cases)
  case (1 f sh executable w rw)
  obtain r w1 where s: "child_wait sh w = (r, w1)" by fastforce
  show ?case
  proof (intro impI)
    assume a: "companion_contract sh fs running" and g: "guarded fs running T c w"
    have g1: "guarded fs running T c w1"
      using guarded_step [OF companionD(3) [OF a, of w] g] by (simp add: s)
    have again: "guarded fs running T c (snd rw)" if "f sh executable w1 = Some rw"
      using 1(1) [OF that] a g1 by blast
    show "guarded fs running T c (snd rw)"
      using 1(2) g1 again by (auto simp: s split: if_splits sum.splits)
  qed
qed

lemma keeps_collect_result:
  assumes "companion_contract sh fs running"
  shows "keeps (guarded fs running T c) (collect_result sh executable fd)"
  unfolding keeps_def
proof (intro allI impI)
  fix w r w' assume g: "guarded fs running T c w" and e: "collect_result sh executable fd w = Some (r, w')"
  have w: "keeps (guarded fs running T c) (wait_loop sh executable)"
    using wait_loop_guarded assms by (fastforce simp: keeps_def)
  from e obtain out err w1 where l: "capture_loop sh fd [] w = Some ((out, err), w1)"
    and b: "bindP (wait_loop sh executable) (\<lambda>st. case err of
              Some e \<Rightarrow> throwP (''capture '' @ executable @ '': '' @ strerror (sh_sys sh) e)
            | None \<Rightarrow> retP \<lparr>exit_code = exit_of st, captured = out\<rparr>) w1 = Some (r, w')"
    by (auto simp: collect_result_def split: option.splits)
  have g1: "guarded fs running T c w1" using capture_loop_guarded [OF l] assms g by simp
  show "guarded fs running T c w'"
    by (rule keepsD [OF keeps_bind [OF w] g1 b]) (auto simp: keeps_def split: option.splits)
qed

lemma returnsP_closing:
  assumes "fs_contract sys fs" "returnsP m (\<lambda>r w'. holds fs T c w' \<and> (\<forall>x. r = Inr x \<longrightarrow> P x w')) w"
  shows "returnsP (closing sys fds m) (\<lambda>r w'. holds fs T c w' \<and> (\<forall>x. r = Inr x \<longrightarrow> P x w')) w"
proof -
  have f: "files fs (fold (\<lambda>fd u. snd (sys_close sys fd u)) fds u) = files fs u" for u
    using quietD(1) [OF assms(1)] by (induction fds arbitrary: u) (simp_all add: quiet_call_def)
  from assms(2) show ?thesis
    by (auto simp: returnsP_def closing_def f split: sum.splits)
qed

lemma returnsP_quiet:
  "quiet_call fs call \<Longrightarrow> holds fs T c w \<Longrightarrow> returnsP (callP call msg) (\<lambda>r w'. holds fs T c w' \<and> (\<forall>x. r = Inr x \<longrightarrow> True)) w"
  by (auto elim!: returnsP_weaken [OF returnsP_callP_quiet])

lemma add_actions_quiet:
  assumes "companion_contract sh fs running" "holds fs T c w"
  shows "returnsP (add_actions sh executable acts) (\<lambda>r. holds fs T c) w"
  using assms(2)
proof (induction acts arbitrary: w)
  case (Cons a acts)
  show ?case unfolding add_actions.simps
    by (rule returnsP_bindI [OF returnsP_quiet [OF companionD(9) [OF assms(1)] Cons.prems]]) (auto intro: Cons.IH)
qed (simp add: wp)

lemma start_child_running:
  assumes "companion_contract sh fs running" "holds fs T c w"
  shows "returnsP (start_child sh executable resolved args env r wr)
    (\<lambda>x w'. holds fs T c w' \<and> (x = Inr () \<longrightarrow> running w' \<subseteq> out_args args)) w"
proof -
  have sp: "returnsP (callP (posix_spawn sh resolved acts (resolved # args) env) msg)
      (\<lambda>x w'. holds fs T c w' \<and> (x = Inr () \<longrightarrow> running w' \<subseteq> out_args args)) u" if "holds fs T c u" for acts msg u
    using companionD(4) [OF assms(1), of resolved acts "resolved # args" env u]
      quiet_callD [OF companionD(11) [OF assms(1), of resolved acts "resolved # args" env], of u] that
    by (cases "posix_spawn sh resolved acts (resolved # args) env u") (auto simp: wp split: sum.splits)
  show ?thesis
    unfolding start_child_def Let_def
  proof (rule returnsP_bindI [OF returnsP_quiet [OF companionD(8) [OF assms(1)] assms(2)]])
    fix x w1 assume "holds fs T c w1 \<and> (\<forall>u. (Inr x :: unit result) = Inr u \<longrightarrow> True)"
    then have h: "holds fs T c w1" by simp
    show "returnsP (bindP (add_actions sh executable (spawn_actions r wr)) (\<lambda>_.
        bindP (callP (attr_init sh) (errno_msg (sh_sys sh) ''spawn actions'' executable)) (\<lambda>_.
        callP (posix_spawn sh resolved (spawn_actions r wr) (resolved # args) env) (errno_msg (sh_sys sh) ''execute'' executable))))
      (\<lambda>x w'. holds fs T c w' \<and> (x = Inr () \<longrightarrow> running w' \<subseteq> out_args args)) w1"
      by (rule returnsP_bindI [OF add_actions_quiet [OF assms(1) h]], simp,
          rule returnsP_bindI [OF returnsP_quiet [OF companionD(10) [OF assms(1)]]])
        (auto intro: sp)
  qed auto
qed

lemma spawn_child_running:
  assumes "fs_contract (sh_sys sh) fs" "companion_contract sh fs running" "holds fs T c w"
  shows "returnsP (spawn_child sh executable resolved args env)
    (\<lambda>x w'. holds fs T c w' \<and> (\<forall>fd. x = Inr fd \<longrightarrow> running w' \<subseteq> out_args args)) w"
proof -
  let ?Q = "\<lambda>x w'. holds fs T c w' \<and> (\<forall>fd. x = Inr fd \<longrightarrow> running w' \<subseteq> out_args args)"
  let ?H = "\<lambda>x w'. holds fs T c w' \<and> (\<forall>y. x = Inr y \<longrightarrow> True)"
  note cl = quietD(1) [OF assms(1)]
  have close: "returnsP (ignoreP (sys_close (sh_sys sh) fd)) (\<lambda>x. holds fs T c) u" if "holds fs T c u" for fd u
    using cl that by (simp add: wp quiet_call_def)
  have dup: "returnsP (closing (sh_sys sh) fds (callP (dupfd3 sh fd) msg)) ?H u" if "holds fs T c u" for fds fd msg u
    by (rule returnsP_closing [OF assms(1)], rule returnsP_quiet [OF companionD(7) [OF assms(2)] that])
  have start: "returnsP (closing (sh_sys sh) fds (start_child sh executable resolved args env r wr))
      (\<lambda>x w'. holds fs T c w' \<and> (\<forall>u. x = Inr u \<longrightarrow> running w' \<subseteq> out_args args)) u" if "holds fs T c u" for fds r wr u
    by (rule returnsP_closing [OF assms(1)], rule returnsP_weaken [OF start_child_running [OF assms(2) that]]) auto
  have fin: "returnsP (bindP (ignoreP (sys_close (sh_sys sh) wr)) (\<lambda>_. retP r)) ?Q u"
    if "holds fs T c u" "running u \<subseteq> out_args args" for r wr u
    using that cl companionD(5) [OF assms(2)] by (simp add: wp quiet_call_def)
  show ?thesis
    unfolding spawn_child_def Let_def
    by (rule returnsP_bindI [OF returnsP_quiet [OF companionD(6) [OF assms(2)] assms(3)]], simp, clarify,
        rule returnsP_bindI [OF dup], simp, simp,
        rule returnsP_bindI [OF close], simp, simp,
        rule returnsP_bindI [OF dup], simp, simp,
        rule returnsP_bindI [OF close], simp, simp,
        rule returnsP_bindI [OF start], simp, simp,
        rule fin) simp_all
qed

lemma keeps_run_process:
  assumes "fs_contract (sh_sys sh) fs" "companion_contract sh fs running" "T \<notin> out_args args"
  shows "keeps (holds fs T c) (run_process sh executable args)"
proof -
  have find: "keeps (holds fs T c) (\<lambda>w. Some (find_executable sh executable w))"
    using find_executable_files [OF assms(1)] by (auto simp: keeps_def) (metis snd_conv)
  have "holds fs T c w'"
    if h: "holds fs T c w" and r: "bindP (spawn_child sh executable resolved args env)
        (\<lambda>fd. scopedP (sh_sys sh) fd (collect_result sh executable fd)) w = Some (r, w')" for resolved env w r w'
  proof -
    from spawn_child_running [OF assms(1,2) h] obtain x w1
      where s: "spawn_child sh executable resolved args env w = Some (x, w1)" "holds fs T c w1"
        "\<forall>fd. x = Inr fd \<longrightarrow> running w1 \<subseteq> out_args args" unfolding returnsP_def by blast
    show ?thesis
    proof (cases x)
      case (Inl e)
      with r s show ?thesis by (simp add: bindP_def)
    next
      case (Inr fd)
      with r s(1) obtain w2 where c: "collect_result sh executable fd w1 = Some (r, w2)"
        "w' = snd (sys_close (sh_sys sh) fd w2)"
        by (auto simp: bindP_def scopedP_def split: option.splits)
      have "guarded fs running T c w1" using s Inr assms(3) by auto
      from keepsD [OF keeps_collect_result [OF assms(2)] this c(1)] c(2) quietD(1) [OF assms(1)]
      show ?thesis by (simp add: quiet_call_def)
    qed
  qed
  then have rest: "keeps (holds fs T c) (bindP (spawn_child sh executable resolved args env)
      (\<lambda>fd. scopedP (sh_sys sh) fd (collect_result sh executable fd)))" for resolved env
    unfolding keeps_def by blast
  show ?thesis
    unfolding run_process_def by (rule keeps_bind [OF find], rule keeps_bind [OF keeps_basic(4) rest])
qed

section \<open>Temporary directories\<close>

lemma temp_dir_fresh:
  assumes "temp_contract sh fs" "holds fs T c w"
  shows "returnsP (temp_dir sh parent) (\<lambda>r w'. holds fs T c w' \<and> (\<forall>d. r = Inr d \<longrightarrow> \<not> under d T)) w"
proof -
  have q: "quiet_call fs (mkdtemp sh pat)" and n: "fst (mkdtemp sh pat u) = Inr d \<Longrightarrow> under d p \<Longrightarrow> files fs u p = None"
    and g: "files fs (snd (temp_directory_path sh u)) = files fs u" for pat u d p
    using assms(1) by (simp_all add: temp_contract_def)
  have make: "returnsP (callP (mkdtemp sh pat) msg) (\<lambda>r w'. holds fs T c w' \<and> (\<forall>d. r = Inr d \<longrightarrow> \<not> under d T)) u"
    if "holds fs T c u" for pat msg u
  proof -
    obtain x v where m: "mkdtemp sh pat u = (x, v)" by fastforce
    have "holds fs T c v" using quiet_callD [OF q m] that by simp
    moreover have "\<not> under d T" if "x = Inr d" for d using n [of pat u d T] m that \<open>holds fs T c u\<close> by auto
    ultimately show ?thesis by (auto simp: wp m split: sum.splits)
  qed
  let ?base = "if parent = [] then (\<lambda>w. case temp_directory_path sh w of
                    (Inl msg, w') \<Rightarrow> Some (throw (''temporary directory: '' @ msg), w')
                  | (Inr base, w') \<Rightarrow> Some (Inr base, w')) else retP parent"
  have base: "returnsP ?base (\<lambda>r. holds fs T c) w"
    using g [of w] assms(2) by (auto simp: returnsP_def split: prod.splits sum.splits)
  show ?thesis
    unfolding temp_dir_def
  proof (rule returnsP_bindI [OF base])
    fix b u assume h: "holds fs T c u"
    have "returnsP (\<lambda>w. Some (absolute_path sh b w, w)) (\<lambda>r. holds fs T c) u" using h by (simp add: returnsP_def)
    then show "returnsP (bindP (\<lambda>w. Some (absolute_path sh b w, w)) (\<lambda>dir. let pattern = dir @ ''/.aas-sign-XXXXXX'' in
        callP (mkdtemp sh pattern) (errno_msg (sh_sys sh) ''mkdtemp'' pattern)))
      (\<lambda>r w'. holds fs T c w' \<and> (\<forall>d. r = Inr d \<longrightarrow> \<not> under d T)) u"
      by (rule returnsP_bindI) (auto simp: Let_def intro: make)
  qed auto
qed

lemma with_temp_dir_outcome:
  assumes "temp_contract sh fs" "holds fs T c w" "with_temp_dir sh parent f w = Some (r, w')"
  shows "holds fs T c w' \<or> (\<exists>d w1 w2. \<not> under d T \<and> holds fs T c w1 \<and> f d w1 = Some (r, w2) \<and>
    files fs w' T = files fs w2 T)"
proof -
  from temp_dir_fresh [OF assms(1,2), of parent] obtain x w1 where
    t: "temp_dir sh parent w = Some (x, w1)" "holds fs T c w1" "\<forall>d. x = Inr d \<longrightarrow> \<not> under d T"
    unfolding returnsP_def by blast
  show ?thesis
  proof (cases x)
    case (Inl err)
    with assms(3) t show ?thesis by (simp add: with_temp_dir_def bindP_def)
  next
    case (Inr d)
    with assms(3) t(1) obtain w2 where f: "f d w1 = Some (r, w2)" "w' = remove_all sh d w2"
      by (auto simp: with_temp_dir_def bindP_def split: option.splits)
    have "\<not> under d T" using t(3) Inr by simp
    with f t(2) assms(1) show ?thesis unfolding temp_contract_def by blast
  qed
qed

lemma keeps_with_temp_dir:
  assumes "temp_contract sh fs" "\<And>d. \<not> under d T \<Longrightarrow> keeps (holds fs T c) (f d)"
  shows "keeps (holds fs T c) (with_temp_dir sh parent f)"
  unfolding keeps_def by (metis with_temp_dir_outcome [OF assms(1)] keepsD [OF assms(2)])

lemma fails_with_temp_dir:
  assumes "temp_contract sh fs" "\<And>d. \<not> under d T \<Longrightarrow> fails_keeping (holds fs T c) (f d)"
  shows "fails_keeping (holds fs T c) (with_temp_dir sh parent f)"
  unfolding fails_keeping_def by (metis with_temp_dir_outcome [OF assms(1)] fails_keepingD [OF assms(2)])

section \<open>Signing\<close>

lemma keeps_pe_has_signature:
  assumes "fs_contract sys fs"
  shows "keeps (holds fs T c) (pe_has_signature sys path)"
proof -
  have check: "keeps I (check_certificate rd path offset len)" if "\<And>k n. keeps I (rd k n)"
    for I :: "'w \<Rightarrow> bool" and rd path offset len
    unfolding check_certificate_def Let_def by (intro keeps_rules that)
  have loop: "keeps I (cert_loop rd path offset len found)" if rd: "\<And>k n. keeps I (rd k n)"
    for I :: "'w \<Rightarrow> bool" and rd path offset len found
  proof (induction len arbitrary: offset found rule: less_induct)
    case (less len)
    show ?case
    proof (subst cert_loop.simps, intro keeps_if keeps_basic keeps_bind_result [OF check [OF rd]])
      fix n w w' assume "len \<noteq> 0" and c: "check_certificate rd path offset len w = Some (Inr n, w')"
      with check_certificate_bounds [OF c] align8_pos [of n]
      show "keeps I (cert_loop rd path (offset + n) (len - n) True)"
        "keeps I (cert_loop rd path (offset + align8 n) (len - align8 n) True)"
        by (auto intro!: less)
    qed
  qed
  show ?thesis
    unfolding pe_has_signature_def pe_image_signed_def pe_body_def Let_def
    by (intro keeps_with_file keeps_rules keeps_file_size keeps_read_at loop assms)
qed

lemma keeps_read_blob: "fs_contract sys fs \<Longrightarrow> keeps (holds fs T c) (read_blob sys path)"
  unfolding read_blob_def by (intro keeps_with_file keeps_rules keeps_file_size keeps_read_at)

lemma keeps_identify: "fs_contract sys fs \<Longrightarrow> keeps (holds fs T c) (identify sys path)"
  unfolding identify_def by (intro keeps_with_file keeps_rules keeps_read_at)

lemma under_neq: "\<not> under d T \<Longrightarrow> d @ CHR ''/'' # x \<noteq> T"
  by (auto simp: under_def starts_with_def)

lemma hostD:
  assumes "host_contract sh fs running"
  shows "fs_contract (sh_sys sh) fs" "unlink_contract (sh_sys sh) fs" "stat_contract (sh_sys sh) fs"
    "temp_contract sh fs" "companion_contract sh fs running"
  using assms by (simp_all add: host_contract_def)

text \<open>The callbacks touch no file\<close>

definition quiet_callbacks :: "'w fs_view \<Rightarrow> 'w signer \<Rightarrow> 'w logger \<Rightarrow> bool" where
  "quiet_callbacks fs sign_digest log \<longleftrightarrow>
     (\<forall>d w r w'. sign_digest d w = Some (r, w') \<longrightarrow> files fs w' = files fs w) \<and>
     (\<forall>s w. files fs (log s w) = files fs w)"

lemma keeps_callbacks:
  assumes "quiet_callbacks fs sign_digest log"
  shows "keeps (holds fs T c) (sign_digest d)" "keeps (holds fs T c) (doP (log s))"
  using assms by (auto simp: quiet_callbacks_def keeps_def)

lemma keeps_checked:
  assumes "host_contract sh fs running" "T \<notin> out_args args"
  shows "keeps (holds fs T c) (checked sh options args)"
  unfolding checked_def invoke_def
  by (intro keeps_rules keeps_run_process [OF hostD(1,5) [OF assms(1)]] assms(2))

lemma keeps_staged_source:
  assumes "host_contract sh fs running" "\<not> under work T"
  shows "keeps (holds fs T c) (staged_source sh work path kind options)"
  unfolding staged_source_def extract_existing_def invoke_def Let_def
  by (intro keeps_rules keeps_checked [OF assms(1)] keeps_run_process [OF hostD(1,5) [OF assms(1)]]
      keeps_read_blob [OF hostD(1) [OF assms(1)]])
    (use under_neq [OF assms(2)] in auto)

lemma keeps_extract_data:
  assumes "host_contract sh fs running" "out \<noteq> T"
  shows "keeps (holds fs T c) (extract_data sh kind options source out)"
  unfolding extract_data_def
  by (intro keeps_rules keeps_checked [OF assms(1)] keeps_read_blob [OF hostD(1) [OF assms(1)]])
    (use assms(2) in \<open>auto simp: format_args_def\<close>)

lemma keeps_make_signature:
  assumes "quiet_callbacks fs sign_digest log"
  shows "keeps (holds fs T c) (make_signature sh sign_digest log data)"
  unfolding make_signature_def by (intro keeps_rules keeps_callbacks [OF assms])

lemma keeps_add_timestamp:
  assumes "host_contract sh fs running" "quiet_callbacks fs sign_digest log" "\<not> under work T"
  shows "keeps (holds fs T c) (add_timestamp sh work path kind options log out)"
  unfolding add_timestamp_def Let_def
  by (intro keeps_rules keeps_checked [OF assms(1)] keeps_callbacks [OF assms(2)])
    (use under_neq [OF assms(3)] in \<open>auto simp: format_args_def timestamp_args_def\<close>)

lemma keeps_verify_output:
  assumes "host_contract sh fs running" "\<not> under work T"
  shows "keeps (holds fs T c) (verify_output sh work kind options out data)"
  unfolding verify_output_def Let_def
  by (intro keeps_rules keeps_checked [OF assms(1)] keeps_read_blob [OF hostD(1) [OF assms(1)]]
      keeps_extract_data [OF assms(1)])
    (use under_neq [OF assms(2)] in auto)

text \<open>The name of the output lies in the working directory\<close>

lemma add_timestamp_path:
  "add_timestamp sh work path kind options log (work @ ''/signed'' @ e) w = Some (Inr out, w') \<Longrightarrow> \<exists>x. out = work @ CHR ''/'' # x"
  by (auto simp: add_timestamp_def Let_def result_iff split: if_splits)

lemma keeps_sign_staged:
  assumes "host_contract sh fs running" "quiet_callbacks fs sign_digest log" "path \<noteq> T" "so_dump_cms options = [] \<or> so_dump_cms options \<noteq> T"
  shows "keeps (holds fs T c) (sign_staged sh path kind options sign_digest log)"
  unfolding sign_staged_def Let_def
proof (rule keeps_with_temp_dir [OF hostD(4) [OF assms(1)]])
  fix work assume "\<not> under work T"
  note n = under_neq [OF this]
  have attach: "T \<notin> out_args (format_args kind options [''attach-signature''] @
      [''-sigin'', work @ ''/signature.der'', ''-in'', source, ''-out'', work @ ''/signed'' @ extension path])" for source
    using n by (auto simp: format_args_def)
  have dump: "keeps (holds fs T c) (if so_dump_cms options \<noteq> [] then write_blob (sh_sys sh) (so_dump_cms options) final else retP ())" for final
    unfolding write_blob_def
    by (intro keeps_rules keeps_write_whole_file hostD [OF assms(1)]) (use assms(4) in simp)
  have repl: "keeps (holds fs T c) (atomic_replace_file (sh_sys sh) (parent_path path) out path)"
    if "add_timestamp sh work path kind options log (work @ ''/signed'' @ extension path) w = Some (Inr out, w')" for out w w'
    using add_timestamp_path [OF that] n by (auto intro!: keeps_atomic_replace hostD [OF assms(1)] assms(3))
  note steps = keeps_staged_source [OF assms(1) \<open>\<not> under work T\<close>] keeps_extract_data [OF assms(1)]
    keeps_make_signature [OF assms(2)] keeps_write_whole_file [OF hostD(1) [OF assms(1)]] keeps_checked [OF assms(1) attach]
    keeps_add_timestamp [OF assms(1,2) \<open>\<not> under work T\<close>] keeps_verify_output [OF assms(1) \<open>\<not> under work T\<close>]
  show "keeps (holds fs T c) (bindP (staged_source sh work path kind options) (\<lambda>source.
     bindP (extract_data sh kind options source (work @ ''/content.der'')) (\<lambda>indirect_data.
     bindP (make_signature sh sign_digest log indirect_data) (\<lambda>cms.
     bindP (write_blob (sh_sys sh) (work @ ''/signature.der'') cms) (\<lambda>_.
     bindP (checked sh options (format_args kind options [''attach-signature''] @
              [''-sigin'', work @ ''/signature.der'', ''-in'', source, ''-out'', work @ ''/signed'' @ extension path])) (\<lambda>_.
     bindP (add_timestamp sh work path kind options log (work @ ''/signed'' @ extension path)) (\<lambda>out.
     bindP (verify_output sh work kind options out indirect_data) (\<lambda>final_cms.
     bindP (if so_dump_cms options \<noteq> [] then write_blob (sh_sys sh) (so_dump_cms options) final_cms else retP ()) (\<lambda>_.
     atomic_replace_file (sh_sys sh) (parent_path path) out path)))))))))"
    unfolding write_blob_def
    by (intro keeps_bind_result steps dump [unfolded write_blob_def] repl | (use n in simp; fail))+
qed

lemma fails_sign_in_workspace:
  assumes "host_contract sh fs running" "quiet_callbacks fs sign_digest log"
    "so_dump_cms options = [] \<or> so_dump_cms options \<noteq> T" "\<not> so_recursive options" "\<not> under work T"
  shows "fails_keeping (holds fs T c) (sign_in_workspace sh lib T kind options sign_digest log work)"
proof -
  let ?staged = "work @ ''/input'' @ extension T"
  have n: "?staged \<noteq> T" using under_neq [OF assms(5)] by auto
  have repl: "fails_keeping (holds fs T c) (atomic_replace_file (sh_sys sh) (parent_path T) ?staged T)"
    unfolding fails_keeping_def
  proof (intro allI impI)
    fix w e w' assume h: "holds fs T c w" and r: "atomic_replace_file (sh_sys sh) (parent_path T) ?staged T w = Some (Inl e, w')"
    from atomic_replace_outcome [OF hostD(1) [OF assms(1)], of "parent_path T" ?staged T w] r h
    show "holds fs T c w'" by (simp add: returnsP_def)
  qed
  have "keeps (holds fs T c) (if kind = Kind_Msi \<and> so_recursive options
      then rewrite_staged sh lib ?staged options sign_digest log else retP ())"
    using assms(4) keeps_basic(1) [of "holds fs T c" "()"] by simp
  then show ?thesis
    unfolding sign_in_workspace_def Let_def
    by (intro fails_bind fails_last repl keeps_copy_file [OF hostD(1,2) [OF assms(1)] n]
        keeps_sign_staged [OF assms(1,2) n assms(3)])
qed

end
