(* ===== verification/Signing_Properties.thy ===== *)
theory Signing_Properties
  imports Signing_Frame
begin

text \<open>
  The properties of \<^verbatim>\<open>sign_file\<close>, of any host: a failed run leaves the input
  alone, and a successful one has put a verified signature in place. A concrete host, with a
  file system in memory and a companion that writes a CMS, shows that both can happen.
\<close>

section \<open>Inversion of a successful run\<close>

text \<open>What the service signed: the digest of the attributes of the content, assembled into a CMS\<close>

definition signed_content :: "'w shell \<Rightarrow> 'w signer \<Rightarrow> bytes \<Rightarrow> bytes \<Rightarrow> bool" where
  "signed_content sh sign_digest data cms \<longleftrightarrow>
     (\<exists>digest result w w'. cms_auth_attrs_hash (sh_sha256 sh) data = Inr digest \<and>
        sign_digest digest w = Some (Inr result, w') \<and>
        cms_build_authenticode (sh_sha256 sh) data (signature result) (cert_chain_der result) = Inr cms)"

text \<open>What the companion wrote to a file when it was run with some arguments, and succeeded\<close>

definition companion_reports :: "'w shell \<Rightarrow> SigningOptions \<Rightarrow> string list \<Rightarrow> string \<Rightarrow> bytes \<Rightarrow> bool" where
  "companion_reports sh options args out blob \<longleftrightarrow>
     (\<exists>w w' w''. checked sh options args w = Some (Inr (), w') \<and> read_blob (sh_sys sh) out w' = Some (Inr blob, w''))"

lemma with_temp_dir_Inr:
  assumes "with_temp_dir sh parent f w = Some (Inr r, w')"
  obtains dir u v where "f dir u = Some (Inr r, v)"
  using assms unfolding with_temp_dir_def bindP_Inr_iff
  by (auto split: option.splits prod.splits)

lemma make_signature_Inr:
  "make_signature sh sign_digest log data w = Some (Inr cms, w') \<Longrightarrow> signed_content sh sign_digest data cms"
  unfolding make_signature_def signed_content_def bindP_Inr_iff prog_Inr_iff by blast

lemma extract_data_Inr:
  assumes "extract_data sh kind options source out w = Some (Inr data, w')"
  obtains blob where "cms_extract_indirect_data blob = Inr data"
    "companion_reports sh options (format_args kind options [''extract-data''] @ [''-in'', source, ''-out'', out]) out blob"
  using assms unfolding extract_data_def companion_reports_def bindP_Inr_iff prog_Inr_iff
  by (metis (full_types) old.unit.exhaust)

lemma verify_output_Inr:
  assumes "verify_output sh work kind options out data w = Some (Inr final, w')"
  shows "cms_has_signer final = Inr True" "cms_extract_indirect_data final = Inr data"
    "companion_reports sh options [''extract-signature'', ''-in'', out, ''-out'', work @ ''/final.der''] (work @ ''/final.der'') final"
    "\<exists>u v. extract_data sh kind options out (work @ ''/rechecked.der'') u = Some (Inr data, v)"
  using assms unfolding verify_output_def Let_def companion_reports_def bindP_Inr_iff prog_Inr_iff
  by (metis (full_types) old.unit.exhaust)+

text \<open>
  The specification of a signed file: some content of it was signed by the service; the companion,
  asked for the signature of the new file, reported a CMS that has a signer and this content, and
  asked for the content of the new file, reported the same content again; and the new file was
  installed in the place of the old one.
\<close>

definition verified_file ::
  "'w shell \<Rightarrow> Kind \<Rightarrow> SigningOptions \<Rightarrow> 'w signer \<Rightarrow> string \<Rightarrow> string \<Rightarrow> bytes \<Rightarrow> bytes \<Rightarrow> bool" where
  "verified_file sh kind options sign_digest path out data final \<longleftrightarrow>
     (\<exists>cms. signed_content sh sign_digest data cms) \<and>
     (\<exists>f. companion_reports sh options [''extract-signature'', ''-in'', out, ''-out'', f] f final) \<and>
     cms_has_signer final = Inr True \<and> cms_extract_indirect_data final = Inr data \<and>
     (\<exists>f again. companion_reports sh options (format_args kind options [''extract-data''] @ [''-in'', out, ''-out'', f]) f again \<and>
        cms_extract_indirect_data again = Inr data) \<and>
     (\<exists>u v. atomic_replace_file (sh_sys sh) (parent_path path) out path u = Some (Inr (), v))"

lemma sign_staged_Inr:
  assumes "sign_staged sh path kind options sign_digest log w = Some (Inr (), w')"
  obtains out data final where "verified_file sh kind options sign_digest path out data final"
proof -
  obtain work u0 u where body: "bindP (staged_source sh work path kind options) (\<lambda>source.
     bindP (extract_data sh kind options source (work @ ''/content.der'')) (\<lambda>indirect_data.
     bindP (make_signature sh sign_digest log indirect_data) (\<lambda>cms.
     let signature_path = work @ ''/signature.der''; out = work @ ''/signed'' @ extension path in
     bindP (write_blob (sh_sys sh) signature_path cms) (\<lambda>_.
     bindP (checked sh options (format_args kind options [''attach-signature''] @
              [''-sigin'', signature_path, ''-in'', source, ''-out'', out])) (\<lambda>_.
     bindP (add_timestamp sh work path kind options log out) (\<lambda>out.
     bindP (verify_output sh work kind options out indirect_data) (\<lambda>final_cms.
     bindP (if so_dump_cms options \<noteq> [] then write_blob (sh_sys sh) (so_dump_cms options) final_cms else retP ()) (\<lambda>_.
     atomic_replace_file (sh_sys sh) (parent_path path) out path)))))))) u0 = Some (Inr (), u)"
    using assms unfolding sign_staged_def by (rule with_temp_dir_Inr)
  obtain data cms out final where
    sig: "\<exists>x y. make_signature sh sign_digest log data x = Some (Inr cms, y)" and
    ver: "\<exists>x y. verify_output sh work kind options out data x = Some (Inr final, y)" and
    rep: "\<exists>x y. atomic_replace_file (sh_sys sh) (parent_path path) out path x = Some (Inr (), y)"
    using body unfolding Let_def bindP_Inr_iff by blast
  obtain x y where v: "verify_output sh work kind options out data x = Some (Inr final, y)" using ver by blast
  obtain a b where "extract_data sh kind options out (work @ ''/rechecked.der'') a = Some (Inr data, b)"
    using verify_output_Inr(4) [OF v] by blast
  then obtain again where "cms_extract_indirect_data again = Inr data"
    "companion_reports sh options (format_args kind options [''extract-data''] @ [''-in'', out, ''-out'', work @ ''/rechecked.der''])
      (work @ ''/rechecked.der'') again"
    by (rule extract_data_Inr)
  moreover have "cms_has_signer final = Inr True" "cms_extract_indirect_data final = Inr data"
    "companion_reports sh options [''extract-signature'', ''-in'', out, ''-out'', work @ ''/final.der''] (work @ ''/final.der'') final"
    by (rule verify_output_Inr [OF v])+
  moreover have "signed_content sh sign_digest data cms" using sig by (elim exE) (rule make_signature_Inr)
  ultimately show thesis using that rep unfolding verified_file_def by meson
qed

lemma sign_file_Inr:
  assumes "sign_file sh lib path options sign_digest log w = Some (Inr (), w')"
  obtains kind staged u v u' v' where
    "sign_staged sh staged kind options sign_digest log u = Some (Inr (), v)"
    "atomic_replace_file (sh_sys sh) (parent_path path) staged path u' = Some (Inr (), v')"
proof -
  obtain kind x y where "with_temp_dir sh (if parent_path path = [] then ''.'' else parent_path path)
      (sign_in_workspace sh lib path kind options sign_digest log) x = Some (Inr (), y)"
    using assms unfolding sign_file_def Let_def bindP_Inr_iff by blast
  then obtain work a b where "sign_in_workspace sh lib path kind options sign_digest log work a = Some (Inr (), b)"
    by (rule with_temp_dir_Inr)
  then obtain staged n r c d c' d' where
    s: "sign_staged sh staged kind options sign_digest log c = Some (Inr n, d)" and
    r: "atomic_replace_file (sh_sys sh) (parent_path path) staged path c' = Some (Inr r, d')"
    unfolding sign_in_workspace_def Let_def bindP_Inr_iff by blast
  from that [OF s [unfolded unit_eq [of n]] r [unfolded unit_eq [of r]]] show thesis .
qed

text \<open>A file for which all of this has been done\<close>

definition established :: "'w shell \<Rightarrow> SigningOptions \<Rightarrow> 'w signer \<Rightarrow> string \<Rightarrow> bool" where
  "established sh options sign_digest path \<longleftrightarrow>
     (\<exists>kind staged out data final u v.
        verified_file sh kind options sign_digest staged out data final \<and>
        atomic_replace_file (sh_sys sh) (parent_path path) staged path u = Some (Inr (), v))"

lemma sign_file_establishes:
  assumes "sign_file sh lib path options sign_digest log w = Some (Inr (), w')"
  shows "established sh options sign_digest path"
proof -
  obtain kind staged u v u' v' where s: "sign_staged sh staged kind options sign_digest log u = Some (Inr (), v)"
    and r: "atomic_replace_file (sh_sys sh) (parent_path path) staged path u' = Some (Inr (), v')"
    by (rule sign_file_Inr [OF assms])
  obtain out data final where "verified_file sh kind options sign_digest staged out data final"
    by (rule sign_staged_Inr [OF s])
  with r show ?thesis unfolding established_def by blast
qed

section \<open>A concrete host\<close>

text \<open>
  A concrete host: the sample files, and a companion that writes the same CMS to its output file
  whatever it is asked. While it runs, the sample keeps the name of that file as descriptor 99.
\<close>

fun first_out :: "string list \<Rightarrow> string option" where
  "first_out [] = None"
| "first_out [a] = None"
| "first_out (a # b # args) =
     (if a = ''-out'' then Some b
      else if a \<in> {''-in'', ''-h'', ''-ts'', ''-sigin'', ''-HTTPS-CAfile''} then first_out args
      else first_out (b # args))"

lemma first_out: "first_out args = Some p \<Longrightarrow> p \<in> out_args args"
  by (induction args rule: first_out.induct) (auto split: if_splits)

definition demo_help :: string where
  "demo_help = ''extract-data attach-signature extract-signature remove-signature -ts''"

text \<open>What the signing service of the sample answers: the signature \<open>[1]\<close> and the sample certificate\<close>

definition demo_signed :: string where
  "demo_signed = ''status=Succeeded;signature=AQ;signingCertificate=TUFzd0NRSUJCVEFBTUFJeEFBPT0;''"

definition demo_read :: "bytes \<Rightarrow> demo_world \<Rightarrow> (errno + string) \<times> demo_world" where
  "demo_read cms w =
     (case w of ((fs, h), c, f) \<Rightarrow>
        if f then (Inr [], w)
        else (Inr demo_help, ((case h 99 of None \<Rightarrow> fs | Some p \<Rightarrow> fs(p \<mapsto> cms), h), c, True)))"

definition demo_mkdtemp :: "string \<Rightarrow> demo_world \<Rightarrow> (errno + string) \<times> demo_world" where
  "demo_mkdtemp p w = (if \<exists>q. under p q \<and> fst (fst w) q \<noteq> None then (Inl EEXIST, w) else (Inr p, w))"

definition demo_host :: "bytes \<Rightarrow> demo_world shell" where
  "demo_host cms = (demo_shell (demo_reply demo_signed) [])
     \<lparr>posix_spawn := (\<lambda>exe acts args env ((fs, h), c, f). (Inr (), ((fs, h(99 := first_out (tl args))), c, False))),
      child_read := (\<lambda>fd n. demo_read cms), mkdtemp := demo_mkdtemp, sh_sha256 := sample_sha\<rparr>"

definition demo_view :: "demo_world fs_view" where
  "demo_view = \<lparr>files = (\<lambda>w. fst (fst w)), handle = (\<lambda>w. snd (fst w)), patience = (\<lambda>_. 0)\<rparr>"

definition demo_running :: "demo_world \<Rightarrow> string set" where
  "demo_running w = set_option (snd (fst w) 99)"

lemma demo_fs_contract: "fs_contract demo_sys demo_view"
  unfolding fs_contract_def
proof (intro conjI)
  show "open_contract demo_sys demo_view"
    by (auto simp: open_contract_def demo_sys_def on_fst_def sample_sys_def demo_view_def sample_open_def
        split: open_mode.splits)
  show "write_contract demo_sys demo_view"
    by (auto simp: write_contract_def demo_sys_def on_fst_def sample_sys_def demo_view_def sample_write_def min_def)
  show "quiet_contract demo_sys demo_view"
    by (auto simp: quiet_contract_def quiet_call_def demo_sys_def on_fst_def sample_sys_def demo_view_def
        sample_stat_def sample_pread_def split: option.splits)
  show "rename_contract demo_sys demo_view"
    by (auto simp: rename_contract_def demo_sys_def on_fst_def sample_sys_def demo_view_def sample_rename_def)
qed

lemma demo_host_simps:
  "sh_sys (demo_host cms) = demo_sys" "sh_sha256 (demo_host cms) = sample_sha"
  by (simp_all add: demo_host_def demo_shell_def)

lemma demo_host_contract: "host_contract (demo_host cms) demo_view demo_running"
  unfolding host_contract_def demo_host_simps
proof (intro conjI demo_fs_contract)
  show "unlink_contract demo_sys demo_view"
    by (auto simp: unlink_contract_def demo_sys_def on_fst_def sample_sys_def demo_view_def)
  show "stat_contract demo_sys demo_view"
    by (auto simp: stat_contract_def missing_def demo_sys_def on_fst_def sample_sys_def demo_view_def sample_stat_def
        split: option.splits)
  show "temp_contract (demo_host cms) demo_view"
    by (auto simp: temp_contract_def quiet_call_def demo_host_def demo_shell_def demo_view_def demo_mkdtemp_def under_def
        split: if_splits)
  show "companion_contract (demo_host cms) demo_view demo_running"
    by (auto simp: companion_contract_def quiet_call_def child_step_def demo_host_def demo_shell_def demo_view_def
        demo_running_def demo_read_def demo_sys_def on_fst_def sample_sys_def dest: first_out
        split: if_splits option.splits)
qed

abbreviation demo_tool :: string where
  "demo_tool \<equiv> ''/usr/bin/osslsigncode''"

lemma demo_host_find:
  "fs demo_tool = Some x \<Longrightarrow> find_executable (demo_host cms) demo_tool ((fs, h), y) = (Inr demo_tool, ((fs, h), y))"
  by (simp add: find_executable_def is_executable_def demo_host_def demo_shell_def demo_sys_def on_fst_def
      sample_sys_def sample_stat_def S_ISREG_def starts_with_def)

lemma demo_help_short: "length demo_help \<le> 1048576" "demo_help \<noteq> []"
  by (simp_all add: demo_help_def)

lemma demo_host_run:
  assumes "fs demo_tool = Some x" "list_all (\<lambda>arg. CHR 0x00 \<notin> set arg) args"
  shows "run_process (demo_host cms) demo_tool args ((fs, h), c, f)
    = Some (Inr \<lparr>exit_code = 0, captured = demo_help\<rparr>,
        ((case first_out args of None \<Rightarrow> fs | Some p \<Rightarrow> fs(p \<mapsto> cms), h(99 := first_out args)), c, True))"
proof -
  let ?h = "h(99 := first_out args)"
  have sp: "spawn_child (demo_host cms) demo_tool demo_tool args env ((fs, h), c, f)
      = Some (Inr 7, ((fs, ?h), c, False))" for env
    by (simp add: spawn_child_def start_child_def spawn_actions_def closing_def callP_def ignoreP_def bindP_def
        demo_host_def demo_shell_def demo_sys_def sample_sys_def on_fst_def Let_def)
  have co: "collect_result (demo_host cms) demo_tool 7 ((fs, ?h), c, False)
      = Some (Inr \<lparr>exit_code = 0, captured = demo_help\<rparr>,
          ((case first_out args of None \<Rightarrow> fs | Some p \<Rightarrow> fs(p \<mapsto> cms), ?h), c, True))"
    by (simp add: collect_result_def demo_host_def demo_shell_def demo_read_def capture_loop.simps wait_loop.simps
        output_limit_def bindP_def exit_of_def demo_help_short)
  show ?thesis
    unfolding run_process_def
    by (simp add: bindP_def demo_host_find [of fs x cms h "(c, f)", OF assms(1)] assms(2) sp scopedP_def co demo_host_simps)
      (simp add: demo_sys_def sample_sys_def on_fst_def)
qed

lemma demo_host_checked:
  assumes "fs demo_tool = Some x" "first_out args = Some p" "list_all (\<lambda>arg. CHR 0x00 \<notin> set arg) args" "so_osslsigncode options = demo_tool"
  shows "checked (demo_host cms) options args ((fs, h), c, f) = Some (Inr (), ((fs(p \<mapsto> cms), h(99 \<mapsto> p)), c, True))"
  by (simp add: checked_def invoke_def bindP_def assms(4) demo_host_run [where fs = fs, OF assms(1,3)] assms(2))

lemma demo_pread:
  assumes "h fd = Some p" "fs p = Some d" "0 < n" "off + n \<le> length d"
  shows "read_at demo_sys fd path off n ((fs, h), y) = Some (Inr (take n (drop off d)), ((fs, h), y))"
proof -
  have l: "length (take n (drop off d)) = n" using assms(4) by simp
  then have "take n (drop off d) \<noteq> []" using assms(3) by auto
  moreover have "sys_pread demo_sys fd off n ((fs, h), y) = (Inr (take n (drop off d)), ((fs, h), y))"
    using assms(1,2) by (simp add: demo_sys_def on_fst_def sample_sys_def sample_pread_def)
  ultimately show ?thesis using assms(3) l unfolding read_at_def
    by (subst read_at_loop.simps) (simp add: read_at_loop.simps)
qed

lemma demo_with_file: "fs p = Some d \<Longrightarrow> with_file demo_sys p f ((fs, h), y) = f 5 ((fs, h(5 \<mapsto> p)), y)"
  by (auto simp: with_file_def bindP_def callP_def scopedP_def demo_sys_def on_fst_def sample_sys_def sample_open_def
      split: option.splits)

lemma demo_file_size: "h fd = Some p \<Longrightarrow> fs p = Some d \<Longrightarrow> file_size demo_sys fd path ((fs, h), y) = Some (Inr (length d), ((fs, h), y))"
  by (simp add: file_size_def bindP_def callP_def demo_sys_def on_fst_def sample_sys_def sample_stat_def)

lemma demo_read_blob:
  "fs p = Some d \<Longrightarrow> d \<noteq> [] \<Longrightarrow> length d \<le> 1000 \<Longrightarrow> read_blob demo_sys p ((fs, h), y) = Some (Inr d, ((fs, h(5 \<mapsto> p)), y))"
  by (simp add: read_blob_def demo_with_file demo_file_size bindP_def MAX_CMS_def demo_pread [where p = p and d = d])

lemma demo_write_blob: "write_blob demo_sys p d ((fs, h), y) = Some (Inr (), ((fs(p \<mapsto> d), h(3 \<mapsto> p)), y))"
proof -
  have "sys_open demo_sys (Open_CREAT_TRUNC 420) p ((fs, h), y) = (Inr 3, ((fs(p \<mapsto> []), h(3 \<mapsto> p)), y))"
    by (simp add: demo_sys_def on_fst_def sample_sys_def sample_open_def)
  moreover have "write_loop demo_sys 3 p d ((fs(p \<mapsto> []), h(3 \<mapsto> p)), y) = Some (Inr (), ((fs(p \<mapsto> d), h(3 \<mapsto> p)), y))"
    using demo_write_loop [of "h(3 \<mapsto> p)" 3 p "fs(p \<mapsto> [])" "[]" p d y] by simp
  moreover have "sys_close demo_sys fd w = (Inr (), w)" for fd and w :: "sample_fs \<times> 'a"
    by (simp add: demo_sys_def on_fst_def sample_sys_def)
  ultimately show ?thesis by (simp add: write_blob_def write_whole_file_def bindP_def callP_def)
qed

lemma demo_replace:
  assumes "fs staged = Some d" "fs dest = Some d'" "length staged \<noteq> length dest" "fs (if parent = [] then ''.'' else parent) = None"
    "staged \<noteq> (if parent = [] then ''.'' else parent)" "dest \<noteq> (if parent = [] then ''.'' else parent)"
  shows "atomic_replace_file demo_sys parent staged dest ((fs, h), y)
    = Some (Inr (), ((fs(staged := None, dest \<mapsto> d), h(5 \<mapsto> staged)), y))"
  using assms
  by (simp add: atomic_replace_file_def replace_body_def sync_directory_def bindP_def callP_def scopedP_def
      demo_sys_def on_fst_def sample_sys_def sample_open_def sample_stat_def sample_rename_def S_ISREG_def)

lemma demo_copy:
  assumes "fs src = Some d" "fs to = None"
  shows "copy_file demo_sys src to ((fs, h), y) = Some (Inr (), ((fs(to \<mapsto> []), h(5 \<mapsto> src, 4 \<mapsto> to)), y))"
  using assms
  by (auto simp: copy_file_def copy_body_def bindP_def callP_def scopedP_def copy_loop.simps
      demo_sys_def on_fst_def sample_sys_def sample_open_def sample_stat_def S_ISREG_def)

abbreviation demo_options :: SigningOptions where
  "demo_options \<equiv> \<lparr>so_osslsigncode = demo_tool, so_timestamp_url = ''u'', so_dump_cms = [], so_ca_bundle = [],
     so_no_timestamp = True, so_msi_dse = False, so_recursive = False, so_insecure = False\<rparr>"

abbreviation demo_signer :: "demo_world signer" where
  "demo_signer \<equiv> (\<lambda>_. retP \<lparr>signature = [1], cert_chain_der = sample_cert\<rparr>)"

abbreviation demo_log :: "demo_world logger" where
  "demo_log \<equiv> (\<lambda>_ w. w)"

abbreviation demo_package :: bytes where
  "demo_package \<equiv> [0x50, 0x4B, 3, 4, 0, 0, 0, 0]"

abbreviation demo_input :: demo_world where
  "demo_input \<equiv> demo_files [demo_tool \<mapsto> [], ''a.msix'' \<mapsto> demo_package]"

lemma demo_paths:
  "extension ''a.msix'' = ''.msix''" "parent_path ''a.msix'' = []"
  "extension ''./.aas-sign-XXXXXX/input.msix'' = ''.msix''"
  "parent_path ''./.aas-sign-XXXXXX/input.msix'' = ''./.aas-sign-XXXXXX''"
  by code_simp+

lemma demo_temp:
  assumes "\<not> (\<exists>q. under (parent @ ''/.aas-sign-XXXXXX'') q \<and> fs q \<noteq> None)" "parent \<noteq> []"
  shows "with_temp_dir (demo_host cms) parent f ((fs, h), y) =
    (case f (parent @ ''/.aas-sign-XXXXXX'') ((fs, h), y) of None \<Rightarrow> None
     | Some (r, w') \<Rightarrow> Some (r, remove_all (demo_host cms) (parent @ ''/.aas-sign-XXXXXX'') w'))"
proof -
  have "mkdtemp (demo_host cms) (parent @ ''/.aas-sign-XXXXXX'') ((fs, h), y) = (Inr (parent @ ''/.aas-sign-XXXXXX''), ((fs, h), y))"
    using assms(1) by (simp add: demo_host_def demo_mkdtemp_def)
  moreover have "absolute_path (demo_host cms) p w = Inr p" for p w by (simp add: demo_host_def demo_shell_def)
  ultimately show ?thesis using assms(2) by (simp add: with_temp_dir_def temp_dir_def bindP_def callP_def Let_def)
qed

lemma demo_remove_all:
  "remove_all (demo_host cms) d ((fs, h), y) = (((\<lambda>p. if starts_with p (d @ ''/'') then None else fs p), h), y)"
  by (simp add: demo_host_def demo_shell_def)

lemma demo_sign_staged:
  assumes "cms_build_authenticode sample_sha sample_idc [1] sample_cert = Inr cms"
    "cms_auth_attrs_hash sample_sha sample_idc = Inr digest"
    "cms_has_signer cms = Inr True" "cms_extract_indirect_data cms = Inr sample_idc" "cms \<noteq> []" "length cms \<le> 1000"
    "\<And>digest x c f. sign digest (x, c, f) = Some (Inr \<lparr>signature = [1], cert_chain_der = sample_cert\<rparr>, (x, c, g f))"
  shows "\<exists>w'. sign_staged (demo_host cms) ''./.aas-sign-XXXXXX/input.msix'' Kind_Msix demo_options sign demo_log
     (([demo_tool \<mapsto> [], ''a.msix'' \<mapsto> demo_package, ''./.aas-sign-XXXXXX/input.msix'' \<mapsto> []], h), c, f) = Some (Inr (), w') \<and> fst (fst w') ''a.msix'' = Some demo_package \<and>
     fst (fst w') ''./.aas-sign-XXXXXX/input.msix'' = Some cms \<and> fst (fst w') ''.'' = None"
  unfolding sign_staged_def demo_paths demo_host_simps
  apply (subst demo_temp)
  subgoal by (auto simp: under_def starts_with_def split: if_splits)
  subgoal by simp
  apply (simp add: staged_source_def extract_existing_def invoke_def bindP_def demo_paths demo_host_simps demo_host_run demo_host_checked
     demo_read_blob assms Let_def extract_data_def format_args_def make_signature_def demo_write_blob add_timestamp_def verify_output_def)
  by (simp add: demo_replace demo_remove_all starts_with_def) blast

lemma demo_identify:
  "identify demo_sys ''a.msix'' (([demo_tool \<mapsto> [], ''a.msix'' \<mapsto> demo_package], h), y) =
     Some (Inr Kind_Msix, (([demo_tool \<mapsto> [], ''a.msix'' \<mapsto> demo_package], h(5 \<mapsto> ''a.msix'')), y))"
  by (simp add: identify_def demo_with_file bindP_def demo_pread [where p = "''a.msix''" and d = demo_package]
      identify_magic_def cfb_magic_def demo_paths)

lemma demo_sign_file:
  assumes "cms_build_authenticode sample_sha sample_idc [1] sample_cert = Inr cms"
    "cms_auth_attrs_hash sample_sha sample_idc = Inr digest"
    "cms_has_signer cms = Inr True" "cms_extract_indirect_data cms = Inr sample_idc" "cms \<noteq> []" "length cms \<le> 1000"
    "\<And>digest x c f. sign digest (x, c, f) = Some (Inr \<lparr>signature = [1], cert_chain_der = sample_cert\<rparr>, (x, c, g f))"
  shows "\<exists>w'. sign_file (demo_host cms) lib ''a.msix'' demo_options sign demo_log (([demo_tool \<mapsto> [], ''a.msix'' \<mapsto> demo_package], h), c, f) = Some (Inr (), w') \<and>
     fst (fst w') ''a.msix'' = Some cms"
proof -
  let ?fs = "[demo_tool \<mapsto> [], ''a.msix'' \<mapsto> demo_package]"
  obtain w' where s: "sign_staged (demo_host cms) ''./.aas-sign-XXXXXX/input.msix'' Kind_Msix demo_options sign demo_log
     ((?fs(''./.aas-sign-XXXXXX/input.msix'' \<mapsto> []), h(5 \<mapsto> ''a.msix'', 4 \<mapsto> ''./.aas-sign-XXXXXX/input.msix'')), c, f) = Some (Inr (), w')"
     "fst (fst w') ''a.msix'' = Some demo_package" "fst (fst w') ''./.aas-sign-XXXXXX/input.msix'' = Some cms" "fst (fst w') ''.'' = None"
    using demo_sign_staged [where sign = sign and g = g and h = "h(5 \<mapsto> ''a.msix'', 4 \<mapsto> ''./.aas-sign-XXXXXX/input.msix'')", OF assms] by blast
  obtain fs h' y where w: "w' = ((fs, h'), y)" by (metis surj_pair)
  show ?thesis
    unfolding sign_file_def demo_paths demo_host_simps Let_def
    apply (simp add: bindP_def demo_identify)
    apply (subst demo_temp)
    subgoal by (auto simp: under_def starts_with_def split: if_splits)
    subgoal by simp
    apply (simp add: sign_in_workspace_def demo_paths demo_host_simps Let_def bindP_def demo_copy fun_upd_twist)
    using s by (simp add: fun_upd_twist w bindP_def demo_replace demo_remove_all starts_with_def)
qed

section \<open>Properties\<close>

text \<open>
  C3: a failed signing leaves the input alone. Whenever \<^verbatim>\<open>sign_file\<close> throws, at any
  of its steps, the input file has the contents it had before: everything happens on a copy in
  a fresh temporary directory, the companion writes only its output file there, the CMS is not
  dumped into the input, and the final replacement either happens or changes nothing. (The
  rewriting of installer payloads, which is done by the database library, is not covered.)
\<close>

theorem sign_file_keeps_input:
  assumes "host_contract sh fs running" "quiet_callbacks fs sign_digest log"
    and "\<not> so_recursive options" "files fs w path = Some content"
    and "sign_file sh lib path options sign_digest log w = Some (Inl e, w')"
  shows "files fs w' path = Some content"
proof (cases "so_dump_cms options = path \<and> path \<noteq> []")
  case True
  have f: "keeps (holds fs path content) (same_file (sh_sys sh) path path)"
    by (rule keeps_same_file [OF hostD(1) [OF assms(1)]])
  have no: "same_file (sh_sys sh) path path w \<noteq> Some (Inr False, u)" for u
    using same_file_self [OF hostD(1,3) [OF assms(1)]] assms(4) by simp
  have d: "(if so_dump_cms options \<noteq> [] then same_file (sh_sys sh) path (so_dump_cms options) else retP False)
      = same_file (sh_sys sh) path path" using True by simp
  obtain x u where s: "same_file (sh_sys sh) path path w = Some (x, u)"
    using assms(5) unfolding sign_file_def d bindP_Some_iff by blast
  have h: "files fs u path = Some content" by (rule keepsD [OF f assms(4) s])
  have "w' = u"
  proof (cases x)
    case (Inl err)
    with s have "same_file (sh_sys sh) path path w = Some (Inl err, u)" by simp
    from assms(5) [unfolded sign_file_def d bindP_apply(2) [where m = "same_file (sh_sys sh) path path" and w = w, OF this]] show ?thesis by simp
  next
    case (Inr same)
    with s no [of u] have "same_file (sh_sys sh) path path w = Some (Inr True, u)" by (cases same) simp_all
    from assms(5) [unfolded sign_file_def d bindP_apply(3) [where m = "same_file (sh_sys sh) path path" and w = w, OF this]] show ?thesis by simp
  qed
  with h show ?thesis by simp
next
  case False
  have parts: "keeps (holds fs path content) (if so_dump_cms options \<noteq> [] then same_file (sh_sys sh) path (so_dump_cms options) else retP False)"
    "keeps (holds fs path content) (identify (sh_sys sh) path)"
    "keeps (holds fs path content) (if kind = Kind_Pe then pe_has_signature (sh_sys sh) path else retP False)" for kind
    by (intro keeps_if keeps_basic keeps_same_file keeps_identify keeps_pe_has_signature hostD(1) [OF assms(1)]; fail)+
  have fk: "fails_keeping (holds fs path content) (sign_file sh lib path options sign_digest log)"
    unfolding sign_file_def Let_def
    by (intro fails_bind [OF parts(1)] fails_bind_check fails_bind [OF parts(2)] fails_bind [OF parts(3)]
        fails_with_temp_dir [OF hostD(4) [OF assms(1)]] fails_sign_in_workspace [OF assms(1,2) _ assms(3)])
      (use False in auto)
  show ?thesis by (rule fails_keepingD [OF fk assms(4,5)])
qed

text \<open>A run in which the signing service refuses\<close>

abbreviation demo_refusal :: "demo_world signer" where
  "demo_refusal \<equiv> (\<lambda>_. throwP ''403'')"

lemma demo_sign_fails:
  assumes "cms_auth_attrs_hash sample_sha sample_idc = Inr digest"
    "cms_has_signer cms = Inr True" "cms_extract_indirect_data cms = Inr sample_idc" "cms \<noteq> []" "length cms \<le> 1000"
  shows "\<exists>w'. sign_file (demo_host cms) lib ''a.msix'' demo_options demo_refusal demo_log demo_input = Some (throw ''403'', w')"
  unfolding sign_file_def demo_paths demo_host_simps Let_def
  apply (simp add: bindP_def demo_identify)
  apply (subst demo_temp)
  subgoal by (auto simp: under_def starts_with_def split: if_splits)
  subgoal by simp
  apply (simp add: sign_in_workspace_def demo_paths demo_host_simps Let_def bindP_def demo_copy sign_staged_def)
  apply (subst demo_temp)
  subgoal by (auto simp: under_def starts_with_def split: if_splits)
  subgoal by simp
  apply (simp add: staged_source_def extract_existing_def invoke_def bindP_def demo_paths demo_host_simps demo_host_run demo_host_checked
     demo_read_blob assms Let_def extract_data_def format_args_def make_signature_def demo_remove_all)
  by blast

theorem sign_file_keeps_input_witness:
  "\<exists>cms w'. sign_file (demo_host cms) undefined ''a.msix'' demo_options demo_refusal demo_log demo_input = Some (throw ''403'', w') \<and>
     files demo_view w' ''a.msix'' = Some demo_package"
proof -
  obtain cms digest where c: "cms_auth_attrs_hash sample_sha sample_idc = Inr digest" "cms_has_signer cms = Inr True"
    "cms_extract_indirect_data cms = Inr sample_idc" "cms \<noteq> []" "length cms \<le> 1000"
    using sample_cms by blast
  obtain w' where f: "sign_file (demo_host cms) undefined ''a.msix'' demo_options demo_refusal demo_log demo_input = Some (throw ''403'', w')"
    using demo_sign_fails [OF c] by blast
  have q: "quiet_callbacks demo_view demo_refusal demo_log"
    by (auto simp: quiet_callbacks_def)
  have "files demo_view w' ''a.msix'' = Some demo_package"
    by (rule sign_file_keeps_input [OF demo_host_contract q _ _ f]) (simp_all add: demo_view_def)
  with f show ?thesis by blast
qed



end
