(* ===== verification/Tls.thy ===== *)
theory Tls
  imports Posix_Shell
begin

text \<open>
  The TLS connection of \<^verbatim>\<open>src/src/posix.cpp\<close>: the process-wide settings, the search
  for a bundle of trusted certificates, and the constructor and destructor of
  \<^verbatim>\<open>TlsConnection\<close>. mbedTLS itself is not part of the sources: a call of it is a value
  of \<open>mbed_call\<close>, and a parameter gives its effect on the world and its return value.
\<close>

section \<open>Settings\<close>

record TlsSettings =
  g_tls_insecure :: bool
  g_ca_bundle_override :: string

definition tls_initial :: TlsSettings where
  "tls_initial = \<lparr>g_tls_insecure = False, g_ca_bundle_override = []\<rparr>"

definition tls_disable_verification :: "TlsSettings \<Rightarrow> TlsSettings" where
  "tls_disable_verification s = s\<lparr>g_tls_insecure := True\<rparr>"

definition tls_set_ca_bundle :: "string \<Rightarrow> TlsSettings \<Rightarrow> TlsSettings" where
  "tls_set_ca_bundle path s = s\<lparr>g_ca_bundle_override := path\<rparr>"

section \<open>Trusted certificates\<close>

definition ca_paths :: "string list" where
  "ca_paths =
     [''/etc/ssl/certs/ca-certificates.crt'', ''/etc/pki/tls/certs/ca-bundle.crt'', ''/etc/ssl/ca-bundle.pem'',
      ''/etc/ssl/cert.pem'', ''/etc/pki/tls/cacert.pem'', ''/usr/local/share/certs/ca-root-nss.crt'',
      ''/usr/local/etc/openssl@3/cert.pem'', ''/opt/homebrew/etc/openssl@3/cert.pem'']"

definition stat_ok :: "'w sys \<Rightarrow> string \<Rightarrow> ('w, bool) prog" where
  "stat_ok sys p w = (case sys_stat sys p w of (Inl _, w') \<Rightarrow> Some (Inr False, w') | (Inr _, w') \<Rightarrow> Some (Inr True, w'))"

primrec first_bundle :: "'w sys \<Rightarrow> string list \<Rightarrow> ('w, string) prog" where
  "first_bundle sys [] = retP []"
| "first_bundle sys (p # ps) = bindP (stat_ok sys p) (\<lambda>ok. if ok then retP p else first_bundle sys ps)"

definition find_ca_bundle :: "'w sys \<Rightarrow> TlsSettings \<Rightarrow> ('w, string) prog" where
  "find_ca_bundle sys settings =
     (if g_ca_bundle_override settings \<noteq> [] then retP (g_ca_bundle_override settings)
      else case sys_getenv sys ''SSL_CERT_FILE'' of
        None \<Rightarrow> first_bundle sys ca_paths
      | Some p \<Rightarrow>
          if p \<noteq> [] then bindP (stat_ok sys p) (\<lambda>ok. if ok then retP p else first_bundle sys ca_paths)
          else first_bundle sys ca_paths)"

section \<open>The connection\<close>

datatype verify_mode = VERIFY_NONE | VERIFY_REQUIRED

datatype mbed_call =
    Psa_crypto_init
  | Net_init | Ssl_init | Ssl_config_init | Ctr_drbg_init | Entropy_init | X509_crt_init
  | Ctr_drbg_seed
  | Net_connect string string
  | Ssl_config_defaults
  | Conf_authmode verify_mode
  | X509_crt_parse_file string
  | Conf_ca_chain
  | Conf_rng
  | Ssl_setup
  | Set_hostname string
  | Set_bio
  | Ssl_handshake
  | Ssl_write string
  | Close_notify
  | Net_free | Ssl_free | Ssl_config_free | Ctr_drbg_free | Entropy_free | X509_crt_free

text \<open>The library, and the flag of the \<^verbatim>\<open>std::call_once\<close> around its initialisation\<close>

record 'w mbed =
  mbedtls :: "mbed_call \<Rightarrow> 'w \<Rightarrow> int \<times> 'w"
  psa_ready :: "'w \<Rightarrow> bool"
  set_psa_ready :: "'w \<Rightarrow> 'w"

definition mbed_checked :: "'w mbed \<Rightarrow> mbed_call \<Rightarrow> (int \<Rightarrow> bool) \<Rightarrow> (int \<Rightarrow> exn) \<Rightarrow> ('w, unit) prog" where
  "mbed_checked mb c ok e w =
     (case mbedtls mb c w of (ret, w') \<Rightarrow> Some (if ok ret then Inr () else Inl (e ret), w'))"

definition mbed_void :: "'w mbed \<Rightarrow> mbed_call \<Rightarrow> ('w, unit) prog" where
  "mbed_void mb c = doP (\<lambda>w. snd (mbedtls mb c w))"

primrec mbed_voids :: "'w mbed \<Rightarrow> mbed_call list \<Rightarrow> ('w, unit) prog" where
  "mbed_voids mb [] = retP ()"
| "mbed_voids mb (c # cs) = bindP (mbed_void mb c) (\<lambda>_. mbed_voids mb cs)"

definition ensure_psa_crypto :: "'w mbed \<Rightarrow> ('w, unit) prog" where
  "ensure_psa_crypto mb w =
     (if psa_ready mb w then Some (Inr (), w)
      else bindP (mbed_checked mb Psa_crypto_init (\<lambda>ret. ret = 0)
             (\<lambda>ret. Runtime_error (''psa_crypto_init failed (PSA status '' @ to_string_int ret @ '')'')))
           (\<lambda>_. doP (set_psa_ready mb)) w)"

partial_function (option) handshake_loop :: "'w net \<Rightarrow> 'w mbed \<Rightarrow> string \<Rightarrow> 'w \<Rightarrow> (unit result \<times> 'w) option" where
  "handshake_loop net mb host w =
     (case mbedtls mb Ssl_handshake w of (ret, w') \<Rightarrow>
        if ret = 0 then Some (Inr (), w')
        else if tls_wants_io net ret \<or> tls_received_session_ticket net ret then handshake_loop net mb host w'
        else Some (Inl (Transient_error (''TLS handshake with '' @ host @ '': '' @ mbed_error net ret)), w'))"

definition configure_verification :: "'w net \<Rightarrow> 'w mbed \<Rightarrow> 'w sys \<Rightarrow> TlsSettings \<Rightarrow> ('w, unit) prog" where
  "configure_verification net mb sys settings =
     (if g_tls_insecure settings then mbed_void mb (Conf_authmode VERIFY_NONE)
      else
        bindP (find_ca_bundle sys settings) (\<lambda>bundle.
        bindP (checkP (bundle \<noteq> [])
                 (''no CA certificate bundle found at any standard location; install ca-certificates, set '' @
                  ''SSL_CERT_FILE, or pass --insecure to skip TLS verification'')) (\<lambda>_.
        bindP (mbed_checked mb (X509_crt_parse_file bundle) (\<lambda>ret. \<not> ret < 0)
                 (\<lambda>ret. Runtime_error (''failed to parse CA bundle '' @ bundle @ '': '' @ mbed_error net ret))) (\<lambda>_.
        mbed_voids mb [Conf_ca_chain, Conf_authmode VERIFY_REQUIRED]))))"

definition setup_connection :: "'w net \<Rightarrow> 'w mbed \<Rightarrow> 'w sys \<Rightarrow> TlsSettings \<Rightarrow> string \<Rightarrow> ('w, unit) prog" where
  "setup_connection net mb sys settings host =
     bindP (mbed_checked mb Ctr_drbg_seed (\<lambda>ret. ret = 0)
              (\<lambda>ret. Runtime_error (''mbedtls_ctr_drbg_seed: '' @ mbed_error net ret))) (\<lambda>_.
     bindP (mbed_checked mb (Net_connect host ''443'') (\<lambda>ret. ret = 0)
              (\<lambda>ret. Transient_error (''connect to '' @ host @ '':443: '' @ mbed_error net ret))) (\<lambda>_.
     bindP (mbed_checked mb Ssl_config_defaults (\<lambda>ret. ret = 0)
              (\<lambda>ret. Runtime_error (''ssl_config_defaults: '' @ mbed_error net ret))) (\<lambda>_.
     bindP (configure_verification net mb sys settings) (\<lambda>_.
     bindP (mbed_void mb Conf_rng) (\<lambda>_.
     bindP (mbed_checked mb Ssl_setup (\<lambda>ret. ret = 0)
              (\<lambda>ret. Runtime_error (''ssl_setup: '' @ mbed_error net ret))) (\<lambda>_.
     bindP (mbed_checked mb (Set_hostname host) (\<lambda>ret. ret = 0)
              (\<lambda>ret. Runtime_error (''ssl_set_hostname: '' @ mbed_error net ret))) (\<lambda>_.
     bindP (mbed_void mb Set_bio) (\<lambda>_.
     handshake_loop net mb host))))))))"

definition free_contexts :: "'w mbed \<Rightarrow> bool \<Rightarrow> ('w, unit) prog" where
  "free_contexts mb notify =
     mbed_voids mb ((if notify then [Close_notify] else []) @
       [Net_free, Ssl_free, Ssl_config_free, Ctr_drbg_free, Entropy_free, X509_crt_free])"

definition tls_connection :: "'w net \<Rightarrow> 'w mbed \<Rightarrow> 'w sys \<Rightarrow> TlsSettings \<Rightarrow> string \<Rightarrow> ('w, unit) prog" where
  "tls_connection net mb sys settings host =
     bindP (ensure_psa_crypto mb) (\<lambda>_.
     bindP (mbed_voids mb [Net_init, Ssl_init, Ssl_config_init, Ctr_drbg_init, Entropy_init, X509_crt_init]) (\<lambda>_.
     catchP (setup_connection net mb sys settings host)
       (\<lambda>e. bindP (free_contexts mb False) (\<lambda>_. liftP (Inl e)))))"

text \<open>The platform with the modelled connection: what the requests of the program run on\<close>

definition tls_net :: "'w net \<Rightarrow> 'w mbed \<Rightarrow> 'w sys \<Rightarrow> TlsSettings \<Rightarrow> 'w net" where
  "tls_net net mb sys settings =
     net\<lparr>tls_connect := tls_connection net mb sys settings,
         tls_close := (\<lambda>w. case free_contexts mb True w of None \<Rightarrow> w | Some (_, w') \<Rightarrow> w'),
         ssl_write := (\<lambda>data. mbedtls mb (Ssl_write data))\<rparr>"

text \<open>
  The search as one expression, where looking at a file changes nothing: the override, or else the
  first candidate that exists, or else nothing.
\<close>

definition ca_candidates :: "'w sys \<Rightarrow> string list" where
  "ca_candidates sys = filter (\<lambda>p. p \<noteq> []) (case sys_getenv sys ''SSL_CERT_FILE'' of None \<Rightarrow> [] | Some p \<Rightarrow> [p]) @ ca_paths"

lemma find_ca_bundle_candidates:
  assumes "\<And>p. snd (sys_stat sys p w) = w"
  shows "find_ca_bundle sys settings w = Some (Inr
    (if g_ca_bundle_override settings \<noteq> [] then g_ca_bundle_override settings
     else case List.find (\<lambda>p. \<not> isl (fst (sys_stat sys p w))) (ca_candidates sys) of None \<Rightarrow> [] | Some p \<Rightarrow> p), w)"
proof -
  have s: "stat_ok sys p w = Some (Inr (\<not> isl (fst (sys_stat sys p w))), w)" for p
    using assms [of p] by (cases "sys_stat sys p w") (auto simp: stat_ok_def split: sum.splits)
  have f: "first_bundle sys ps w = Some (Inr (case List.find (\<lambda>p. \<not> isl (fst (sys_stat sys p w))) ps of None \<Rightarrow> [] | Some p \<Rightarrow> p), w)" for ps
    by (induction ps) (auto simp: bindP_def s)
  show ?thesis
    by (auto simp: find_ca_bundle_def ca_candidates_def f s bindP_def split: option.splits)
qed

section \<open>What a run leaves in the trace of calls\<close>

text \<open>
  An observer of the calls of the library: a function of the world that grows by each call with
  its return value, and by nothing else.
\<close>

type_synonym events = "(mbed_call \<times> int) list"

definition observes :: "'w net \<Rightarrow> 'w mbed \<Rightarrow> 'w sys \<Rightarrow> ('w \<Rightarrow> events) \<Rightarrow> bool" where
  "observes net mb sys trace \<longleftrightarrow>
     (\<forall>c w. trace (snd (mbedtls mb c w)) = trace w @ [(c, fst (mbedtls mb c w))]) \<and>
     (\<forall>w. trace (set_psa_ready mb w) = trace w) \<and> (\<forall>p w. trace (snd (sys_stat sys p w)) = trace w) \<and>
     (\<forall>w. trace (snd (ssl_read net w)) = trace w)"

definition emits :: "('w \<Rightarrow> events) \<Rightarrow> ('w, 'a) prog \<Rightarrow> ('a result \<Rightarrow> events \<Rightarrow> bool) \<Rightarrow> bool" where
  "emits trace m P \<longleftrightarrow> (\<forall>w r w'. m w = Some (r, w') \<longrightarrow> (\<exists>new. trace w' = trace w @ new \<and> P r new))"

lemma emitsD: "emits trace m P \<Longrightarrow> m w = Some (r, w') \<Longrightarrow> \<exists>new. trace w' = trace w @ new \<and> P r new"
  by (simp add: emits_def)

lemma emits_weaken: "emits trace m P \<Longrightarrow> (\<And>r new. P r new \<Longrightarrow> Q r new) \<Longrightarrow> emits trace m Q"
  unfolding emits_def by blast

lemma emits_bind:
  assumes "emits trace m P" "\<And>x. emits trace (f x) (Q x)"
    and "\<And>e new. P (Inl e) new \<Longrightarrow> R (Inl e) new"
    and "\<And>x r a b. P (Inr x) a \<Longrightarrow> Q x r b \<Longrightarrow> R r (a @ b)"
  shows "emits trace (bindP m f) R"
  unfolding emits_def bindP_Some_iff
proof (intro allI impI)
  fix w r w''
  assume "(\<exists>e. m w = Some (Inl e, w'') \<and> r = Inl e) \<or> (\<exists>x w'. m w = Some (Inr x, w') \<and> f x w' = Some (r, w''))"
  then show "\<exists>new. trace w'' = trace w @ new \<and> R r new"
  proof (elim disjE exE conjE)
    fix e assume "m w = Some (Inl e, w'')" "r = Inl e"
    with emitsD [OF assms(1)] assms(3) show ?thesis by blast
  next
    fix x w' assume "m w = Some (Inr x, w')" "f x w' = Some (r, w'')"
    then obtain a b where "trace w' = trace w @ a" "P (Inr x) a" "trace w'' = trace w' @ b" "Q x r b"
      using emitsD [OF assms(1)] emitsD [OF assms(2)] by metis
    with assms(4) show ?thesis by (intro exI [of _ "a @ b"]) simp
  qed
qed

lemma emits_basic: "emits trace (retP x) (\<lambda>r new. r = Inr x \<and> new = [])" "emits trace (liftP y) (\<lambda>r new. r = y \<and> new = [])"
  "emits trace (checkP ok msg) (\<lambda>r new. r = checkE ok msg \<and> new = [])"
  by (auto simp: emits_def)

lemma emits_if: "(b \<Longrightarrow> emits trace m P) \<Longrightarrow> (\<not> b \<Longrightarrow> emits trace n P) \<Longrightarrow> emits trace (if b then m else n) P"
  by simp

lemma emits_checked:
  assumes "observes net mb sys trace"
  shows "emits trace (mbed_checked mb c ok e)
    (\<lambda>r new. \<exists>ret. new = [(c, ret)] \<and> r = (if ok ret then Inr () else Inl (e ret)))"
  using assms unfolding emits_def mbed_checked_def observes_def
  by (auto split: prod.splits) (metis fst_conv snd_conv)+

lemma emits_voids:
  assumes "observes net mb sys trace"
  shows "emits trace (mbed_voids mb cs) (\<lambda>r new. r = Inr () \<and> map fst new = cs)"
proof (induction cs)
  case Nil
  show ?case by (auto simp: emits_def)
next
  case (Cons c cs)
  have v: "emits trace (mbed_void mb c) (\<lambda>r new. r = Inr () \<and> map fst new = [c])"
    using assms by (auto simp: emits_def mbed_void_def observes_def)
  show ?case by (simp only: mbed_voids.simps) (rule emits_bind [OF v Cons.IH]; auto)
qed

lemma emits_void:
  assumes "observes net mb sys trace"
  shows "emits trace (mbed_void mb c) (\<lambda>r new. r = Inr () \<and> map fst new = [c])"
  using assms by (auto simp: emits_def mbed_void_def observes_def)

lemma emits_find_ca_bundle:
  assumes "observes net mb sys trace"
  shows "emits trace (find_ca_bundle sys settings) (\<lambda>r new. new = [])"
proof -
  have s: "emits trace (stat_ok sys p) (\<lambda>r new. new = [])" for p
    using assms unfolding emits_def stat_ok_def observes_def
    by (auto split: prod.splits sum.splits) (metis snd_conv)+
  have f: "emits trace (first_bundle sys ps) (\<lambda>r new. new = [])" for ps
  proof (induction ps)
    case (Cons p ps)
    have "emits trace (if ok then retP p else first_bundle sys ps) (\<lambda>r new. new = [])" for ok
      using Cons.IH by (simp add: emits_def)
    then show ?case by (simp only: first_bundle.simps) (rule emits_bind [OF s]; simp)
  qed (simp add: emits_def)
  have "emits trace (if ok then retP p else first_bundle sys ca_paths) (\<lambda>r new. new = [])" for ok p
    using f [of ca_paths] by (simp add: emits_def)
  then have "emits trace (bindP (stat_ok sys p) (\<lambda>ok. if ok then retP p else first_bundle sys ca_paths)) (\<lambda>r new. new = [])" for p
    by (intro emits_bind [OF s]) simp_all
  then show ?thesis
    using f [of ca_paths] by (simp add: find_ca_bundle_def emits_def split: option.splits)
qed

text \<open>A loop emits only calls of one kind, and some outcome after the last of them\<close>

lemma emits_handshake:
  assumes "observes net mb sys trace"
  shows "emits trace (handshake_loop net mb host)
    (\<lambda>r new. new \<noteq> [] \<and> set (map fst new) = {Ssl_handshake} \<and> (isl r \<or> snd (last new) = 0))"
  unfolding emits_def
proof (intro allI impI)
  fix w r w'
  assume run: "handshake_loop net mb host w = Some (r, w')"
  let ?P = "\<lambda>w out. \<exists>new. trace (snd out) = trace w @ new \<and> new \<noteq> [] \<and> set (map fst new) = {Ssl_handshake} \<and>
      (isl (fst out) \<or> snd (last new) = 0)"
  have "net = net \<longrightarrow> mb = mb \<longrightarrow> ?P w (r, w')"
  proof (rule handshake_loop.raw_induct [where P = "\<lambda>net' mb' host' w out. net' = net \<longrightarrow> mb' = mb \<longrightarrow> ?P w out", OF _ run],
      goal_cases)
    case (1 loop net' mb' host' w out)
    obtain ret u where m: "mbedtls mb Ssl_handshake w = (ret, u)" by fastforce
    with assms have u: "trace u = trace w @ [(Ssl_handshake, ret)]" by (metis fst_conv observes_def snd_conv)
    show ?case
    proof (intro impI)
      assume e: "net' = net" "mb' = mb"
      consider "ret = 0" "snd out = u" | "isl (fst out)" "snd out = u" | "loop net mb host' u = Some out"
        using 1(2) m by (auto simp: e split: if_splits)
      then show "?P w out"
      proof cases
        case 3
        from 1(1) [OF this] obtain new where "trace (snd out) = trace u @ new" "new \<noteq> []"
          "set (map fst new) = {Ssl_handshake}" "isl (fst out) \<or> snd (last new) = 0" by blast
        then show ?thesis by (intro exI [of _ "(Ssl_handshake, ret) # new"]) (simp add: u)
      qed (simp_all add: u)
    qed
  qed
  then show "\<exists>new. trace w' = trace w @ new \<and> new \<noteq> [] \<and> set (map fst new) = {Ssl_handshake} \<and> (isl r \<or> snd (last new) = 0)"
    by simp
qed

fun is_write :: "mbed_call \<Rightarrow> bool" where
  "is_write (Ssl_write d) = True"
| "is_write _ = False"

lemma emits_write_all:
  assumes "observes net mb sys trace"
  shows "emits trace (write_all (tls_net net mb sys settings) d) (\<lambda>r new. list_all (is_write \<circ> fst) new)"
  unfolding emits_def
proof (intro allI impI)
  fix w r w'
  assume run: "write_all (tls_net net mb sys settings) d w = Some (r, w')"
  let ?P = "\<lambda>w out. \<exists>new. trace (snd out) = trace w @ new \<and> list_all (is_write \<circ> fst) new"
  have "tls_net net mb sys settings = tls_net net mb sys settings \<longrightarrow> ?P w (r, w')"
  proof (rule write_all.raw_induct [where P = "\<lambda>n d w out. n = tls_net net mb sys settings \<longrightarrow> ?P w out", OF _ run], goal_cases)
    case (1 loop n d w out)
    obtain ret u where m: "mbedtls mb (Ssl_write d) w = (ret, u)" by fastforce
    with assms have u: "trace u = trace w @ [(Ssl_write d, ret)]" by (metis fst_conv observes_def snd_conv)
    show ?case
    proof
      assume e: "n = tls_net net mb sys settings"
      consider "snd out = w" | "snd out = u" | d' where "loop n d' u = Some out"
        using 1(2) m by (auto simp: e tls_net_def split: if_splits)
      then show "?P w out"
      proof cases
        case 3
        from 1(1) [OF this] e obtain new where "trace (snd out) = trace u @ new" "list_all (is_write \<circ> fst) new" by blast
        then show ?thesis by (intro exI [of _ "(Ssl_write d, ret) # new"]) (simp add: u)
      qed (simp_all add: u)
    qed
  qed
  then show "\<exists>new. trace w' = trace w @ new \<and> list_all (is_write \<circ> fst) new" by simp
qed

lemma emits_read_all:
  assumes "observes net mb sys trace"
  shows "emits trace (read_all (tls_net net mb sys settings)) (\<lambda>r new. new = [])"
  unfolding emits_def
proof (intro allI impI)
  fix w r w'
  assume run: "read_all (tls_net net mb sys settings) w = Some (r, w')"
  then have run: "read_all_loop (tls_net net mb sys settings) [] w = Some (r, w')" by (simp add: read_all_def)
  have "tls_net net mb sys settings = tls_net net mb sys settings \<longrightarrow> trace (snd (r, w')) = trace w"
  proof (rule read_all_loop.raw_induct [where P = "\<lambda>n acc w out. n = tls_net net mb sys settings \<longrightarrow> trace (snd out) = trace w",
        OF _ run], goal_cases)
    case (1 loop n acc w out)
    obtain ret buf u where m: "ssl_read net w = ((ret, buf), u)" by (metis surj_pair)
    with assms have u: "trace u = trace w" by (metis observes_def snd_conv)
    show ?case
    proof
      assume e: "n = tls_net net mb sys settings"
      consider "snd out = u" | acc' where "loop n acc' u = Some out"
        using 1(2) m by (auto simp: e tls_net_def split: if_splits)
      then show "trace (snd out) = trace w"
        by cases (use 1(1) e u in auto)
    qed
  qed
  then show "\<exists>new. trace w' = trace w @ new \<and> new = []" by simp
qed

section \<open>The calls of a connection\<close>

text \<open>A set-up call: neither a write nor a release\<close>

fun is_setup :: "mbed_call \<Rightarrow> bool" where
  "is_setup c = (\<not> is_write c \<and> c \<notin> {Close_notify, Net_free, Ssl_free, Ssl_config_free, Ctr_drbg_free, Entropy_free, X509_crt_free})"

text \<open>A part of the set-up: it makes only set-up calls, and if it succeeds they are among \<open>E\<close>\<close>

definition does :: "events set \<Rightarrow> 'a result \<Rightarrow> events \<Rightarrow> bool" where
  "does E r new \<longleftrightarrow> list_all is_setup (map fst new) \<and> (isl r \<or> new \<in> E)"

definition seq_events :: "events set \<Rightarrow> events set \<Rightarrow> events set" where
  "seq_events A B = {a @ b | a b. a \<in> A \<and> b \<in> B}"

definition calls :: "mbed_call list \<Rightarrow> events set" where
  "calls cs = {new. map fst new = cs}"

lemma emits_seq:
  assumes "emits trace m (does A)" "\<And>x. emits trace (f x) (does B)"
  shows "emits trace (bindP m f) (does (seq_events A B))"
  by (rule emits_bind [OF assms]) (auto simp: does_def seq_events_def)

lemma does_checked:
  assumes "observes net mb sys trace" "is_setup c"
  shows "emits trace (mbed_checked mb c ok e) (does {[(c, ret)] | ret. ok ret})"
  by (rule emits_weaken [OF emits_checked [OF assms(1)]]) (use assms(2) in \<open>auto simp: does_def\<close>)

lemma does_voids:
  assumes "observes net mb sys trace" "list_all is_setup cs"
  shows "emits trace (mbed_voids mb cs) (does (calls cs))"
  by (rule emits_weaken [OF emits_voids [OF assms(1)]])
    (use assms(2) in \<open>simp add: does_def calls_def\<close>)

lemma does_void:
  assumes "observes net mb sys trace" "is_setup c"
  shows "emits trace (mbed_void mb c) (does (calls [c]))"
  by (rule emits_weaken [OF emits_void [OF assms(1)]])
    (use assms(2) in \<open>simp add: does_def calls_def\<close>)

text \<open>The trust of a session: a parsed bundle that is required, or nothing if that was asked for\<close>

definition trust_events :: "TlsSettings \<Rightarrow> events set" where
  "trust_events settings =
     (if g_tls_insecure settings then calls [Conf_authmode VERIFY_NONE]
      else {new. \<exists>bundle. bundle \<noteq> [] \<and>
        map fst new = [X509_crt_parse_file bundle, Conf_ca_chain, Conf_authmode VERIFY_REQUIRED] \<and> 0 \<le> snd (hd new)})"

lemma does_verification:
  assumes "observes net mb sys trace"
  shows "emits trace (configure_verification net mb sys settings) (does (trust_events settings))"
proof (cases "g_tls_insecure settings")
  case True
  then show ?thesis
    using does_void [OF assms, of "Conf_authmode VERIFY_NONE"] by (simp add: configure_verification_def trust_events_def)
next
  case False
  let ?rest = "\<lambda>bundle. bindP (mbed_checked mb (X509_crt_parse_file bundle) (\<lambda>ret. \<not> ret < 0)
        (\<lambda>ret. Runtime_error (''failed to parse CA bundle '' @ bundle @ '': '' @ mbed_error net ret))) (\<lambda>_.
      mbed_voids mb [Conf_ca_chain, Conf_authmode VERIFY_REQUIRED])"
  have "emits trace (?rest b) (does (seq_events {[(X509_crt_parse_file b, ret)] | ret. \<not> ret < 0}
      (calls [Conf_ca_chain, Conf_authmode VERIFY_REQUIRED])))" for b
    by (intro emits_seq does_checked [OF assms] does_voids [OF assms]) simp_all
  then have "emits trace (?rest b) (\<lambda>r new. b \<noteq> [] \<longrightarrow> does (trust_events settings) r new)" for b
    by (rule emits_weaken) (auto simp: does_def seq_events_def calls_def trust_events_def False)
  then have v: "emits trace (bindP (checkP (b \<noteq> []) msg) (\<lambda>_. ?rest b)) (does (trust_events settings))" for b msg
    by (rule emits_bind [OF emits_basic(3)]) (auto simp: does_def checkE_def split: if_splits)
  have "emits trace (bindP (find_ca_bundle sys settings) (\<lambda>b. bindP (checkP (b \<noteq> []) msg) (\<lambda>_. ?rest b)))
      (does (trust_events settings))" for msg
  proof (rule emits_bind [OF emits_find_ca_bundle [OF assms] v])
  qed (simp_all add: does_def)
  then show ?thesis
    unfolding configure_verification_def by (simp only: False if_False)
qed

text \<open>A session: everything from seeding the random generator to the completed handshake\<close>

definition session_events :: "TlsSettings \<Rightarrow> string \<Rightarrow> events set" where
  "session_events settings host =
     {[(Ctr_drbg_seed, 0), (Net_connect host ''443'', 0), (Ssl_config_defaults, 0)] @ trust @
      [(Conf_rng, x), (Ssl_setup, 0), (Set_hostname host, 0), (Set_bio, y)] @ shakes | trust x y shakes.
        trust \<in> trust_events settings \<and>
        shakes \<noteq> [] \<and> set (map fst shakes) = {Ssl_handshake} \<and> snd (last shakes) = 0}"

lemma does_setup:
  assumes "observes net mb sys trace"
  shows "emits trace (setup_connection net mb sys settings host) (does (session_events settings host))"
proof -
  let ?H = "{new. new \<noteq> [] \<and> set (map fst new) = {Ssl_handshake} \<and> snd (last new) = 0}"
  have h: "emits trace (handshake_loop net mb host) (does ?H)"
    by (rule emits_weaken [OF emits_handshake [OF assms]]) (auto simp: does_def list_all_iff)
  have "emits trace (setup_connection net mb sys settings host)
    (does (seq_events {[(Ctr_drbg_seed, ret)] | ret. ret = 0} (seq_events {[(Net_connect host ''443'', ret)] | ret. ret = 0}
      (seq_events {[(Ssl_config_defaults, ret)] | ret. ret = 0} (seq_events (trust_events settings)
      (seq_events (calls [Conf_rng]) (seq_events {[(Ssl_setup, ret)] | ret. ret = 0}
      (seq_events {[(Set_hostname host, ret)] | ret. ret = 0} (seq_events (calls [Set_bio]) ?H)))))))))"
    unfolding setup_connection_def
    by (intro emits_seq does_checked [OF assms] does_void [OF assms] does_verification [OF assms] h) simp_all
  then show ?thesis
  proof (rule emits_weaken)
    fix r :: "unit result" and new
    assume d: "does (seq_events {[(Ctr_drbg_seed, ret)] | ret. ret = 0} (seq_events {[(Net_connect host ''443'', ret)] | ret. ret = 0}
      (seq_events {[(Ssl_config_defaults, ret)] | ret. ret = 0} (seq_events (trust_events settings)
      (seq_events (calls [Conf_rng]) (seq_events {[(Ssl_setup, ret)] | ret. ret = 0}
      (seq_events {[(Set_hostname host, ret)] | ret. ret = 0} (seq_events (calls [Set_bio]) ?H)))))))) r new"
    show "does (session_events settings host) r new"
    proof (cases r)
      case (Inl e)
      with d show ?thesis by (simp add: does_def del: is_setup.simps)
    next
      case (Inr u)
      with d have s: "list_all is_setup (map fst new)" and "new \<in> seq_events {[(Ctr_drbg_seed, ret)] | ret. ret = 0}
        (seq_events {[(Net_connect host ''443'', ret)] | ret. ret = 0}
        (seq_events {[(Ssl_config_defaults, ret)] | ret. ret = 0} (seq_events (trust_events settings)
        (seq_events (calls [Conf_rng]) (seq_events {[(Ssl_setup, ret)] | ret. ret = 0}
        (seq_events {[(Set_hostname host, ret)] | ret. ret = 0} (seq_events (calls [Set_bio]) ?H)))))))"
        by (simp_all add: does_def del: is_setup.simps)
      then obtain trust p q shakes where "new = [(Ctr_drbg_seed, 0)] @ [(Net_connect host ''443'', 0)] @ [(Ssl_config_defaults, 0)] @ trust @
          p @ [(Ssl_setup, 0)] @ [(Set_hostname host, 0)] @ q @ shakes"
        "trust \<in> trust_events settings" "p \<in> calls [Conf_rng]" "q \<in> calls [Set_bio]" "shakes \<in> ?H"
        unfolding seq_events_def by blast
      moreover from this obtain x y where "p = [(Conf_rng, x)]" "q = [(Set_bio, y)]"
        by (auto simp: calls_def map_eq_Cons_conv)
      ultimately have "new \<in> session_events settings host"
        unfolding session_events_def by (intro CollectI exI [of _ trust] exI [of _ x] exI [of _ y] exI [of _ shakes]) simp
      with s show ?thesis by (simp add: does_def del: is_setup.simps)
    qed
  qed
qed

section \<open>The calls of a request\<close>

abbreviation releases :: "mbed_call list" where
  "releases \<equiv> [Net_free, Ssl_free, Ssl_config_free, Ctr_drbg_free, Entropy_free, X509_crt_free]"

abbreviation inits :: "mbed_call list" where
  "inits \<equiv> [Net_init, Ssl_init, Ssl_config_init, Ctr_drbg_init, Entropy_init, X509_crt_init]"

lemma emits_psa:
  assumes "observes net mb sys trace"
  shows "emits trace (ensure_psa_crypto mb) (\<lambda>r new. map fst new \<in> {[], [Psa_crypto_init]})"
  unfolding emits_def
proof (intro allI impI)
  have d: "emits trace (doP (set_psa_ready mb)) (\<lambda>r new. new = [])" using assms by (simp add: emits_def observes_def)
  have h: "emits trace (bindP (mbed_checked mb Psa_crypto_init ok e) (\<lambda>_. doP (set_psa_ready mb)))
      (\<lambda>r new. map fst new \<in> {[], [Psa_crypto_init]})" for ok e
    by (rule emits_bind [OF emits_checked [OF assms] d]) auto
  fix w r w' assume run: "ensure_psa_crypto mb w = Some (r, w')"
  show "\<exists>new. trace w' = trace w @ new \<and> map fst new \<in> {[], [Psa_crypto_init]}"
  proof (cases "psa_ready mb w")
    case True
    with run show ?thesis by (simp add: ensure_psa_crypto_def)
  next
    case False
    from emitsD [OF h run [unfolded ensure_psa_crypto_def, simplified False if_False]] show ?thesis .
  qed
qed

definition made :: "TlsSettings \<Rightarrow> string \<Rightarrow> bool \<Rightarrow> events \<Rightarrow> bool" where
  "made settings host failed new \<longleftrightarrow>
     (if failed then \<exists>part :: events. list_all is_setup (map fst part) \<and> map fst new = map fst part @ releases
      else new \<in> session_events settings host)"

lemma emits_made:
  assumes "observes net mb sys trace"
  shows "emits trace (catchP (setup_connection net mb sys settings host)
      (\<lambda>e. bindP (free_contexts mb False) (\<lambda>_. liftP (Inl e)))) (\<lambda>r. made settings host (isl r))"
  unfolding emits_def catchP_def
proof (intro allI impI)
  have f: "emits trace (bindP (free_contexts mb False) (\<lambda>_. liftP (Inl e))) (\<lambda>r new. isl r \<and> map fst new = releases)"
    for e :: exn
    unfolding free_contexts_def by (rule emits_bind [OF emits_voids [OF assms] emits_basic(2)]) simp_all
  fix w r w''
  assume run: "(case setup_connection net mb sys settings host w of None \<Rightarrow> None
      | Some (Inl e, w') \<Rightarrow> bindP (free_contexts mb False) (\<lambda>_. liftP (Inl e)) w'
      | Some (Inr x, w') \<Rightarrow> Some (Inr x, w')) = Some (r, w'')"
  then obtain s w' where s: "setup_connection net mb sys settings host w = Some (s, w')"
    by (cases "setup_connection net mb sys settings host w") (simp, metis surj_pair)
  from emitsD [OF does_setup [OF assms] s] obtain a where a: "trace w' = trace w @ a" "does (session_events settings host) s a"
    by blast
  show "\<exists>new. trace w'' = trace w @ new \<and> made settings host (isl r) new"
  proof (cases s)
    case (Inl e)
    with run s have "bindP (free_contexts mb False) (\<lambda>_. liftP (Inl e)) w' = Some (r, w'')" by simp
    from emitsD [OF f this] obtain b where b: "trace w'' = trace w' @ b" "isl r" "map fst b = releases" by (elim exE conjE)
    have "made settings host (isl r) (a @ b)"
      unfolding made_def if_P [OF b(2)] map_append b(3) using a(2) by (intro exI [of _ a]) (simp add: does_def del: is_setup.simps)
    with a b show ?thesis by (intro exI [of _ "a @ b"]) simp
  next
    case (Inr x)
    with run s have r: "r = Inr x" "w'' = w'" by simp_all
    from a(2) Inr have "made settings host (isl r) a" by (simp add: r made_def does_def del: is_setup.simps)
    with a(1) r(2) show ?thesis by blast
  qed
qed

text \<open>
  The constructor: the contexts are initialised once, after the library. If it succeeds they are
  in use and a session is set up; if the set-up fails they are all released, once, and nobody is
  notified.
\<close>

definition connection_events :: "TlsSettings \<Rightarrow> string \<Rightarrow> bool \<Rightarrow> events \<Rightarrow> bool" where
  "connection_events settings host failed new \<longleftrightarrow>
     (failed \<and> map fst new \<in> {[], [Psa_crypto_init]}) \<or>
     (\<exists>start rest. new = start @ rest \<and> map fst start \<in> {inits, Psa_crypto_init # inits} \<and> made settings host failed rest)"

lemma emits_connection:
  assumes "observes net mb sys trace"
  shows "emits trace (tls_connection net mb sys settings host) (\<lambda>r. connection_events settings host (isl r))"
proof -
  have "emits trace (bindP (mbed_voids mb inits) (\<lambda>_. catchP (setup_connection net mb sys settings host)
      (\<lambda>e. bindP (free_contexts mb False) (\<lambda>_. liftP (Inl e)))))
    (\<lambda>r new. \<exists>start rest. new = start @ rest \<and> map fst start = inits \<and> made settings host (isl r) rest)"
  proof (rule emits_bind [OF emits_voids [OF assms] emits_made [OF assms]])
    fix x :: unit and r :: "unit result" and a b :: events
    assume "(Inr x :: unit result) = Inr () \<and> map fst a = inits" and "made settings host (isl r) b"
    then show "\<exists>start rest. a @ b = start @ rest \<and> map fst start = inits \<and> made settings host (isl r) rest"
      by (intro exI [of _ a] exI [of _ b]) simp
  qed simp
  with emits_psa [OF assms] show ?thesis
    unfolding tls_connection_def
  proof (rule emits_bind)
    fix e and new :: events assume "map fst new \<in> {[], [Psa_crypto_init]}"
    then show "connection_events settings host (isl (Inl e)) new"
      unfolding connection_events_def by simp
  next
    fix x :: unit and r :: "unit result" and a b :: events
    assume "map fst a \<in> {[], [Psa_crypto_init]}"
      and "\<exists>start rest. b = start @ rest \<and> map fst start = inits \<and> made settings host (isl r) rest"
    then obtain start rest where b: "b = start @ rest" "map fst start = inits" "made settings host (isl r) rest"
      and a: "map fst a \<in> {[], [Psa_crypto_init]}" by (elim exE conjE)
    then have "map fst (a @ start) \<in> {inits, Psa_crypto_init # inits}" unfolding map_append b(2) by auto
    with b show "connection_events settings host (isl r) (a @ b)"
      unfolding connection_events_def by (intro disjI2 exI [of _ "a @ start"] exI [of _ rest]) simp
  qed
qed

lemma setup_no_write: "list_all is_setup cs \<Longrightarrow> list_all (\<lambda>c. \<not> is_write c) cs"
  by (auto simp: list_all_iff)

lemma made_no_write:
  assumes "made settings host failed new"
  shows "list_all (\<lambda>c. \<not> is_write c) (map fst new)"
proof (cases failed)
  case True
  with assms obtain part :: events where "list_all is_setup (map fst part)" "map fst new = map fst part @ releases"
    by (auto simp: made_def simp del: is_setup.simps)
  then show ?thesis using setup_no_write by simp
next
  case False
  with assms obtain trust x y shakes where new: "new = [(Ctr_drbg_seed, 0), (Net_connect host ''443'', 0), (Ssl_config_defaults, 0)] @ trust @
      [(Conf_rng, x), (Ssl_setup, 0), (Set_hostname host, 0), (Set_bio, y)] @ shakes"
    and t: "trust \<in> trust_events settings" and s: "set (map fst shakes) = {Ssl_handshake}"
    unfolding made_def session_events_def by auto
  from t have "list_all (\<lambda>c. \<not> is_write c) (map fst trust)"
    by (auto simp: trust_events_def calls_def split: if_splits)
  moreover from s have "list_all (\<lambda>c. \<not> is_write c) (map fst shakes)" unfolding list_all_iff by simp
  ultimately show ?thesis by (simp add: new)
qed

lemma emits_writes:
  assumes "observes net mb sys trace"
  shows "emits trace (bindP (write_all (tls_net net mb sys settings) d) (\<lambda>_. bindP (read_all (tls_net net mb sys settings)) parse_response))
    (\<lambda>r new. list_all (is_write \<circ> fst) new)"
proof -
  have "emits trace (parse_response raw) (\<lambda>r new. new = [])" for raw
    by (auto simp: emits_def parse_response_def)
  then have "emits trace (bindP (read_all (tls_net net mb sys settings)) parse_response) (\<lambda>r new. new = [])"
    by (rule emits_bind [OF emits_read_all [OF assms]]) simp_all
  then show ?thesis by (rule emits_bind [OF emits_write_all [OF assms]]) simp_all
qed

text \<open>
  The calls of a request whose peer was verified before the first write: the contexts are
  initialised, the host is connected to on port 443, a non-empty bundle of trusted certificates is
  parsed, verification against it is made mandatory, the session is set up for the name of this very
  host, the handshake ends with success, and only then come the writes, after which the peer is
  notified and every context is released exactly once.
\<close>

definition guarded :: "string \<Rightarrow> events \<Rightarrow> bool" where
  "guarded host new \<longleftrightarrow>
     (\<exists>ctxs trusted ret x y z shakes writes closing.
        new = ctxs @ [(Ctr_drbg_seed, 0), (Net_connect host ''443'', 0), (Ssl_config_defaults, 0),
            (X509_crt_parse_file trusted, ret), (Conf_ca_chain, x), (Conf_authmode VERIFY_REQUIRED, y),
            (Conf_rng, z), (Ssl_setup, 0), (Set_hostname host, 0)] @ shakes @ writes @ closing \<and>
        map fst ctxs \<in> {inits, Psa_crypto_init # inits} \<and> trusted \<noteq> [] \<and> 0 \<le> ret \<and>
        map fst shakes \<in> {Set_bio # replicate n Ssl_handshake | n. 0 < n} \<and> snd (last shakes) = 0 \<and>
        list_all is_write (map fst writes) \<and> map fst closing = Close_notify # releases)"

lemma connection_no_write:
  assumes "connection_events settings host failed a"
  shows "list_all (\<lambda>c. \<not> is_write c) (map fst a)"
proof -
  have m: "map fst b \<in> S \<Longrightarrow> (\<And>cs. cs \<in> S \<Longrightarrow> list_all (\<lambda>c. \<not> is_write c) cs) \<Longrightarrow> list_all (\<lambda>c. \<not> is_write c) (map fst b)"
    for b :: events and S by blast
  from assms [unfolded connection_events_def] show ?thesis
  proof (elim disjE exE conjE)
    assume "map fst a \<in> {[], [Psa_crypto_init]}"
    then show ?thesis by (rule m) auto
  next
    fix start rest assume "a = start @ rest" "map fst start \<in> {inits, Psa_crypto_init # inits}" "made settings host failed rest"
    moreover from this(2) have "list_all (\<lambda>c. \<not> is_write c) (map fst start)" by (rule m) auto
    ultimately show ?thesis using made_no_write [of settings host failed rest] by (simp only: map_append list_all_append)
  qed
qed

section \<open>Properties\<close>

text \<open>
  C6: no byte of a request is written before its peer has been verified. Unless verification
  was disabled, a request to a host makes the calls of a guarded request to this host, or none of
  its calls is a write.
\<close>

theorem request_only_to_verified_peer:
  assumes "observes net mb sys trace" "\<not> g_tls_insecure settings"
    and "do_request (tls_net net mb sys settings) host verb path token bd w = Some (r, w')"
  shows "\<exists>new. trace w' = trace w @ new \<and> (list_all (\<lambda>c. \<not> is_write c) (map fst new) \<or> guarded host new)"
proof -
  let ?net = "tls_net net mb sys settings"
  let ?m = "bindP (write_all ?net (request_text host verb path token bd)) (\<lambda>_. bindP (read_all ?net) parse_response)"
  have conn: "tls_connect ?net host = tls_connection net mb sys settings host" by (simp add: tls_net_def)
  obtain c u where c: "tls_connection net mb sys settings host w = Some (c, u)"
    using assms(3) by (auto simp: do_request_def with_tls_def conn bindP_def split: option.splits)
  from emitsD [OF emits_connection [OF assms(1)] c] obtain a where
    a: "trace u = trace w @ a" "connection_events settings host (isl c) a" by (elim exE conjE)
  show ?thesis
  proof (cases c)
    case (Inl e)
    then have "w' = u" using assms(3) c by (simp add: do_request_def with_tls_def conn bindP_def)
    with a(1) connection_no_write [OF a(2)] show ?thesis by blast
  next
    case (Inr i)
    then have run: "(case ?m u of None \<Rightarrow> None | Some (r, v) \<Rightarrow> Some (r, tls_close ?net v)) = Some (r, w')"
      using assms(3) c by (simp add: do_request_def with_tls_def conn bindP_apply(3) [where m = "tls_connection net mb sys settings host" and w = w, OF c [unfolded Inr]])
    then obtain v where m: "?m u = Some (r, v)" and w': "w' = tls_close ?net v"
      by (cases "?m u") auto
    from emitsD [OF emits_writes [OF assms(1)] m] obtain ws where ws: "trace v = trace u @ ws" "list_all (is_write \<circ> fst) ws"
      by (elim exE conjE)
    obtain q where q: "free_contexts mb True v = Some (q, w')"
    proof -
      have "\<exists>v'. mbed_voids mb cs v = Some (Inr (), v')" for cs v
        by (induction cs arbitrary: v) (simp_all add: mbed_void_def)
      then obtain v' where "free_contexts mb True v = Some (Inr (), v')" unfolding free_contexts_def by blast
      with that w' show thesis by (simp add: tls_net_def)
    qed
    from emitsD [OF emits_voids [OF assms(1)] q [unfolded free_contexts_def]] obtain cl where
      cl: "trace w' = trace v @ cl" "map fst cl = Close_notify # releases" by auto
    have "\<exists>start rest. a = start @ rest \<and> map fst start \<in> {inits, Psa_crypto_init # inits} \<and> rest \<in> session_events settings host"
      using a(2) unfolding connection_events_def made_def by (simp only: Inr sum.disc if_False simp_thms)
    then obtain start rest where s: "a = start @ rest" "map fst start \<in> {inits, Psa_crypto_init # inits}"
      "rest \<in> session_events settings host" by (elim exE conjE)
    then obtain trust z b shakes where t: "trust \<in> trust_events settings" "shakes \<noteq> []" "set (map fst shakes) = {Ssl_handshake}"
      "snd (last shakes) = 0" "rest = [(Ctr_drbg_seed, 0), (Net_connect host ''443'', 0), (Ssl_config_defaults, 0)] @ trust @
        [(Conf_rng, z), (Ssl_setup, 0), (Set_hostname host, 0), (Set_bio, b)] @ shakes"
      unfolding session_events_def by auto
    obtain bndl ret x y where k: "trust = [(X509_crt_parse_file bndl, ret), (Conf_ca_chain, x), (Conf_authmode VERIFY_REQUIRED, y)]"
      "bndl \<noteq> []" "0 \<le> ret"
      using t(1) assms(2) by (auto simp: trust_events_def map_eq_Cons_conv)
    have "map fst shakes = replicate (length shakes) Ssl_handshake"
      using t(3) by (metis length_map replicate_length_same singletonD)
    then have sh: "map fst ((Set_bio, b) # shakes) \<in> {Set_bio # replicate n Ssl_handshake | n. 0 < n}" using t(2) by auto
    have tr: "trace w' = trace w @ a @ ws @ cl" by (simp add: a(1) ws(1) cl(1))
    have "a @ ws @ cl = start @ [(Ctr_drbg_seed, 0), (Net_connect host ''443'', 0), (Ssl_config_defaults, 0),
            (X509_crt_parse_file bndl, ret), (Conf_ca_chain, x), (Conf_authmode VERIFY_REQUIRED, y),
            (Conf_rng, z), (Ssl_setup, 0), (Set_hostname host, 0)] @ ((Set_bio, b) # shakes) @ ws @ cl"
      by (simp add: s(1) t(5) k(1))
    moreover have "snd (last ((Set_bio, b) # shakes)) = 0" "list_all is_write (map fst ws)"
      using t(2,4) ws(2) by (simp_all add: list.pred_map)
    ultimately have "guarded host (a @ ws @ cl)"
      unfolding guarded_def using s(2) k(2,3) sh cl(2)
      by (intro exI [of _ start] exI [of _ bndl] exI [of _ ret] exI [of _ x] exI [of _ y] exI [of _ z]
          exI [of _ "(Set_bio, b) # shakes"] exI [of _ ws] exI [of _ cl] conjI)
    with tr show ?thesis by blast
  qed
qed

text \<open>A library whose calls all succeed, and that records them in the world\<close>

type_synonym tls_world = "sample_fs \<times> events \<times> bool"

definition demo_mbed :: "tls_world mbed" where
  "demo_mbed =
     \<lparr>mbedtls = (\<lambda>c (fs, evs, f). let ret = (case c of Ssl_write d \<Rightarrow> int (length d) | _ \<Rightarrow> 0) in (ret, (fs, evs @ [(c, ret)], f))),
      psa_ready = (\<lambda>(fs, evs, f). evs \<noteq> []), set_psa_ready = (\<lambda>w. w)\<rparr>"

definition demo_tls :: "string \<Rightarrow> tls_world net" where
  "demo_tls reply =
     \<lparr>sleep_ms = (\<lambda>_ w. w), steady_now = (\<lambda>_. 0), write_stderr = (\<lambda>_ w. w),
      tls_connect = (\<lambda>_. retP ()), tls_close = (\<lambda>w. w), ssl_write = (\<lambda>_ w. (0, w)),
      ssl_read = (\<lambda>(fs, evs, f). if f then ((0, []), (fs, evs, f)) else ((int (length reply), reply), (fs, evs, True))),
      tls_wants_io = (\<lambda>_. False), tls_received_session_ticket = (\<lambda>_. False),
      PEER_CLOSE_NOTIFY = - 30848, mbed_error = (\<lambda>_. ''error''),
      getaddrinfo = (\<lambda>_ _ w. (Inr [0], w)), socket_connect = (\<lambda>_ w. (True, w)),
      sock_write = (\<lambda>d w. (int (length d), w)), sock_read = (\<lambda>w. ((0, []), w)), sock_close = (\<lambda>w. w)\<rparr>"

lemma demo_observes: "observes (demo_tls reply) demo_mbed demo_sys (\<lambda>w. fst (snd w))"
  by (auto simp: observes_def demo_mbed_def demo_tls_def demo_sys_def on_fst_def Let_def split: prod.splits)

lemma demo_tls_connection:
  "\<exists>evs. tls_connection (demo_tls reply) demo_mbed demo_sys tls_initial host (([''/etc/ssl/cert.pem'' \<mapsto> []], h), [], False)
     = Some (Inr (), (([''/etc/ssl/cert.pem'' \<mapsto> []], h), evs, False))"
  by (simp add: tls_connection_def ensure_psa_crypto_def setup_connection_def configure_verification_def find_ca_bundle_def
      ca_paths_def stat_ok_def mbed_checked_def mbed_void_def bindP_def catchP_def demo_mbed_def demo_sys_def on_fst_def
      sample_sys_def sample_stat_def tls_initial_def handshake_loop.simps)

lemma demo_tls_write:
  "\<exists>evs'. write_all (tls_net (demo_tls reply) demo_mbed demo_sys tls_initial) d (fs, evs, f) = Some (Inr (), (fs, evs', f))"
proof (cases "d = []")
  case True
  then show ?thesis by (simp add: write_all.simps)
next
  case False
  have n: "write_all net [] w = Some (Inr (), w)" for net :: "tls_world net" and w by (simp add: write_all.simps)
  show ?thesis
    by (subst write_all.simps) (simp add: False n tls_net_def demo_mbed_def Let_def)
qed

lemma demo_tls_read:
  assumes "reply \<noteq> []"
  shows "read_all (tls_net (demo_tls reply) demo_mbed demo_sys tls_initial) (fs, evs, False) = Some (Inr reply, (fs, evs, True))"
  using assms
  by (simp add: read_all_def read_all_loop.simps [of _ "[]"] tls_net_def demo_tls_def)
    (simp add: read_all_loop.simps)

theorem request_only_to_verified_peer_witness:
  "\<exists>w'. do_request (tls_net (demo_tls (demo_reply ''ok'')) demo_mbed demo_sys tls_initial) ''h'' ''GET'' ''/'' ''t'' None
      (([''/etc/ssl/cert.pem'' \<mapsto> []], Map.empty), [], False) = Some (Inr \<lparr>status = 200, body = ''ok''\<rparr>, w') \<and>
    (list_all (\<lambda>c. \<not> is_write c) (map fst (fst (snd w'))) \<or> guarded ''h'' (fst (snd w')))"
proof -
  let ?net = "tls_net (demo_tls (demo_reply ''ok'')) demo_mbed demo_sys tls_initial"
  let ?w = "(([''/etc/ssl/cert.pem'' \<mapsto> []], Map.empty), [], False) :: tls_world"
  have "\<not> chunked (demo_reply ''ok'')" by code_simp
  then have p: "parse_http_response (demo_reply ''ok'') = Some (Inr \<lparr>status = 200, body = ''ok''\<rparr>)" by (rule demo_reply_parse)
  have ne: "demo_reply ''ok'' \<noteq> []" by (simp add: demo_reply_def)
  obtain evs where c: "tls_connection (demo_tls (demo_reply ''ok'')) demo_mbed demo_sys tls_initial ''h'' ?w =
      Some (Inr (), (([''/etc/ssl/cert.pem'' \<mapsto> []], Map.empty), evs, False))" using demo_tls_connection by blast
  obtain evs' where wr: "write_all ?net (request_text ''h'' ''GET'' ''/'' ''t'' None) (([''/etc/ssl/cert.pem'' \<mapsto> []], Map.empty), evs, False) =
      Some (Inr (), (([''/etc/ssl/cert.pem'' \<mapsto> []], Map.empty), evs', False))" using demo_tls_write by blast
  have conn: "tls_connect ?net = tls_connection (demo_tls (demo_reply ''ok'')) demo_mbed demo_sys tls_initial" by (simp add: tls_net_def)
  have "\<exists>w'. do_request ?net ''h'' ''GET'' ''/'' ''t'' None ?w = Some (Inr \<lparr>status = 200, body = ''ok''\<rparr>, w')"
    by (simp add: do_request_def with_tls_def conn bindP_def c wr demo_tls_read [OF ne] parse_response_def p) (metis surj_pair)
  then obtain w' where r: "do_request ?net ''h'' ''GET'' ''/'' ''t'' None ?w = Some (Inr \<lparr>status = 200, body = ''ok''\<rparr>, w')" by blast
  have "\<not> g_tls_insecure tls_initial" by (simp add: tls_initial_def)
  from request_only_to_verified_peer [OF demo_observes this r] r show ?thesis by auto
qed

end
