(* ===== verification/Worker_Pool.thy ===== *)
theory Worker_Pool
  imports Prelude
begin

text \<open>
  The worker pool of \<^verbatim>\<open>sign_main\<close> in \<^verbatim>\<open>src/src/main.cpp\<close>, as a step
  relation. A step is one action that is atomic in the code: \<^verbatim>\<open>fetch_add\<close> on the
  shared counter, a write to the console under \<^verbatim>\<open>log_mu\<close>, and the store of a result in
  its own element of \<^verbatim>\<open>results\<close>. Any worker may move next. What signing a file can
  result in is a parameter: a relation between the number of a file, the result and the text that
  was logged.
\<close>

record SignResult =
  sr_file :: string
  sr_ok :: bool
  sr_error :: string

definition no_result :: SignResult where
  "no_result = \<lparr>sr_file = [], sr_ok = False, sr_error = []\<rparr>"

text \<open>Where a worker is: before \<^verbatim>\<open>fetch_add\<close>, at a file, or past the loop\<close>

datatype worker = Fetching | Starting nat | Signing nat | Flushing nat string | Stopped

record pool =
  next_index :: "64 word"
  workers :: "worker list"
  results :: "SignResult list"
  console :: "string list"

definition start_pool :: "nat \<Rightarrow> nat \<Rightarrow> pool" where
  "start_pool n_workers n_files =
     \<lparr>next_index = 0, workers = replicate n_workers Fetching, results = replicate n_files no_result, console = []\<rparr>"

definition starting_line :: "string \<Rightarrow> string" where
  "starting_line file = ''['' @ file @ ''] starting'' @ [CHR 0x0A]"

text \<open>Worker \<open>t\<close> goes on at \<open>x\<close>\<close>

abbreviation move :: "pool \<Rightarrow> nat \<Rightarrow> worker \<Rightarrow> pool" where
  "move s t x \<equiv> s\<lparr>workers := (workers s)[t := x]\<rparr>"

inductive pool_step :: "string list \<Rightarrow> (nat \<Rightarrow> SignResult \<Rightarrow> string \<Rightarrow> bool) \<Rightarrow> pool \<Rightarrow> pool \<Rightarrow> bool"
  for files :: "string list" and outcome :: "nat \<Rightarrow> SignResult \<Rightarrow> string \<Rightarrow> bool" where
  fetch: "t < length (workers s) \<Longrightarrow> workers s ! t = Fetching \<Longrightarrow> next_index s < of_nat (length files) \<Longrightarrow>
    pool_step files outcome s ((move s t (Starting (unat (next_index s))))\<lparr>next_index := next_index s + 1\<rparr>)"
| leave: "t < length (workers s) \<Longrightarrow> workers s ! t = Fetching \<Longrightarrow> \<not> next_index s < of_nat (length files) \<Longrightarrow>
    pool_step files outcome s ((move s t Stopped)\<lparr>next_index := next_index s + 1\<rparr>)"
| announce: "t < length (workers s) \<Longrightarrow> workers s ! t = Starting i \<Longrightarrow>
    pool_step files outcome s ((move s t (Signing i))\<lparr>console := console s @ [starting_line (files ! i)]\<rparr>)"
| sign: "t < length (workers s) \<Longrightarrow> workers s ! t = Signing i \<Longrightarrow> outcome i r block \<Longrightarrow>
    pool_step files outcome s ((move s t (Flushing i block))\<lparr>results := (results s)[i := r]\<rparr>)"
| flush: "t < length (workers s) \<Longrightarrow> workers s ! t = Flushing i block \<Longrightarrow>
    pool_step files outcome s ((move s t Fetching)\<lparr>console := console s @ [block]\<rparr>)"

inductive pool_reaches :: "string list \<Rightarrow> (nat \<Rightarrow> SignResult \<Rightarrow> string \<Rightarrow> bool) \<Rightarrow> nat \<Rightarrow> pool \<Rightarrow> nat \<Rightarrow> bool"
  for files :: "string list" and outcome :: "nat \<Rightarrow> SignResult \<Rightarrow> string \<Rightarrow> bool" and n_workers :: nat where
  start: "pool_reaches files outcome n_workers (start_pool n_workers (length files)) 0"
| step: "pool_reaches files outcome n_workers s k \<Longrightarrow> pool_step files outcome s s' \<Longrightarrow>
    pool_reaches files outcome n_workers s' (Suc k)"

text \<open>All threads have been joined\<close>

definition joined :: "pool \<Rightarrow> bool" where
  "joined s \<longleftrightarrow> set (workers s) \<subseteq> {Stopped}"

section \<open>The specification\<close>

text \<open>
  Every file goes through its own phases, whatever the workers do: it waits, is claimed, is
  announced, is signed, and is done once its log is written. The specification of a pool state is
  the phase of every file; the console then shows, in some order, one line for each file that was
  announced and one block for each that is done.
\<close>

datatype phase = Waiting | Claimed | Announced | Signed string | Done string

fun shown :: "string \<Rightarrow> phase \<Rightarrow> string multiset" where
  "shown file Waiting = {#}"
| "shown file Claimed = {#}"
| "shown file Announced = {#starting_line file#}"
| "shown file (Signed block) = {#starting_line file#}"
| "shown file (Done block) = {#starting_line file, block#}"

fun at_work :: "worker \<Rightarrow> (nat \<times> phase) option" where
  "at_work (Starting i) = Some (i, Claimed)"
| "at_work (Signing i) = Some (i, Announced)"
| "at_work (Flushing i block) = Some (i, Signed block)"
| "at_work _ = None"

fun result_ok :: "(SignResult \<Rightarrow> string \<Rightarrow> bool) \<Rightarrow> SignResult \<Rightarrow> phase \<Rightarrow> bool" where
  "result_ok outcome r (Signed block) = outcome r block"
| "result_ok outcome r (Done block) = outcome r block"
| "result_ok outcome r _ = (r = no_result)"

fun busy :: "phase \<Rightarrow> bool" where
  "busy Waiting = False"
| "busy (Done _) = False"
| "busy _ = True"

text \<open>
  Who is at work on which file: the phase of the file is the one the worker is at, no two workers
  have the same file, and every file in a busy phase has a worker.
\<close>

definition assigned :: "worker list \<Rightarrow> phase list \<Rightarrow> bool" where
  "assigned ws ps \<longleftrightarrow>
     (\<forall>t < length ws. \<forall>i p. at_work (ws ! t) = Some (i, p) \<longrightarrow> i < length ps \<and> ps ! i = p) \<and>
     (\<forall>t < length ws. \<forall>u < length ws. \<forall>i p q. at_work (ws ! t) = Some (i, p) \<longrightarrow> at_work (ws ! u) = Some (i, q) \<longrightarrow> t = u) \<and>
     (\<forall>i < length ps. busy (ps ! i) \<longrightarrow> (\<exists>t < length ws. \<exists>p. at_work (ws ! t) = Some (i, p)))"

text \<open>The phases that a pool state stands for\<close>

definition pool_shows :: "string list \<Rightarrow> (nat \<Rightarrow> SignResult \<Rightarrow> string \<Rightarrow> bool) \<Rightarrow> pool \<Rightarrow> phase list \<Rightarrow> bool" where
  "pool_shows files outcome s ps \<longleftrightarrow>
     length ps = length files \<and> length (results s) = length files \<and> assigned (workers s) ps \<and>
     (\<forall>i < length files. ps ! i = Waiting \<longleftrightarrow> unat (next_index s) \<le> i) \<and>
     (\<forall>i < length files. result_ok (outcome i) (results s ! i) (ps ! i)) \<and>
     mset (console s) = (\<Sum>i < length files. shown (files ! i) (ps ! i))"

section \<open>Lemmas\<close>

lemma at_work_busy: "at_work x = Some (i, p) \<Longrightarrow> busy p"
  by (cases x) auto

lemma sum_update:
  fixes f :: "nat \<Rightarrow> 'a \<Rightarrow> 'b::comm_monoid_add"
  assumes "t < n" "n = length xs"
  shows "(\<Sum>u < n. f u (xs[t := x] ! u)) + f t (xs ! t) = (\<Sum>u < n. f u (xs ! u)) + f t x"
proof -
  have "(\<Sum>u < n. f u (ys ! u)) = f t (ys ! t) + (\<Sum>u \<in> {..<n} - {t}. f u (ys ! u))" for ys
    using assms(1) by (simp add: sum.remove)
  moreover have "(\<Sum>u \<in> {..<n} - {t}. f u (xs[t := x] ! u)) = (\<Sum>u \<in> {..<n} - {t}. f u (xs ! u))"
    by (rule sum.cong) auto
  ultimately show ?thesis using assms by (simp add: ac_simps)
qed

lemma assigned_go_on:
  assumes "assigned ws ps" "t < length ws" "at_work (ws ! t) = Some (i, p)" "at_work x = Some (i, q)"
  shows "assigned (ws[t := x]) (ps[i := q])"
proof -
  have "i < length ps" using assms(1-3) by (simp add: assigned_def)
  then show ?thesis
    using assms unfolding assigned_def nth_list_update length_list_update
    by (smt (verit) at_work_busy nth_list_update option.inject prod.inject)
qed

lemma assigned_begin:
  assumes "assigned ws ps" "t < length ws" "at_work (ws ! t) = None" "at_work x = Some (i, q)" "i < length ps" "\<not> busy (ps ! i)"
  shows "assigned (ws[t := x]) (ps[i := q])"
proof -
  have "at_work (ws ! u) \<noteq> Some (i, p)" if "u < length ws" for u p
    using assms(1,6) that at_work_busy [of "ws ! u" i p] by (auto simp: assigned_def)
  then show ?thesis
    using assms unfolding assigned_def nth_list_update length_list_update
    by (smt (verit) nth_list_update option.inject option.simps(3) prod.inject)
qed

lemma assigned_end:
  assumes "assigned ws ps" "t < length ws" "at_work (ws ! t) = Some (i, p)" "at_work x = None" "\<not> busy q"
  shows "assigned (ws[t := x]) (ps[i := q])"
proof -
  have "i < length ps" using assms(1-3) by (simp add: assigned_def)
  then show ?thesis
    using assms unfolding assigned_def nth_list_update length_list_update
    by (smt (verit) nth_list_update option.inject option.simps(3) prod.inject)
qed

lemma assigned_idle:
  assumes "assigned ws ps" "t < length ws" "at_work (ws ! t) = None" "at_work x = None"
  shows "assigned (ws[t := x]) ps"
  using assms unfolding assigned_def nth_list_update length_list_update
  by (smt (verit) nth_list_update option.simps(3))

lemma next_less_iff: "n < 2 ^ 64 \<Longrightarrow> (x :: 64 word) < of_nat n \<longleftrightarrow> unat x < n"
  by (simp add: word_less_nat_alt unat_of_nat)

lemma unat_Suc64: "unat (x :: 64 word) < 2 ^ 64 - 1 \<Longrightarrow> unat (x + 1) = Suc (unat x)"
  by (simp add: unat_word_ariths)

lemma sum_list_move:
  fixes f :: "'a \<Rightarrow> nat"
  shows "t < length xs \<Longrightarrow> sum_list (map f (xs[t := x])) + f (xs ! t) = sum_list (map f xs) + f x"
  by (induction xs arbitrary: t) (auto simp: less_Suc_eq_0_disj)

text \<open>
  The counter: it never passes the number of files by more than the number of workers that have
  left the loop, and a worker leaves only when all files are claimed.
\<close>

fun gone :: "worker \<Rightarrow> nat" where
  "gone Stopped = 1"
| "gone _ = 0"

definition counter_ok :: "nat \<Rightarrow> pool \<Rightarrow> bool" where
  "counter_ok n s \<longleftrightarrow>
     unat (next_index s) \<le> n + sum_list (map gone (workers s)) \<and>
     (Stopped \<in> set (workers s) \<longrightarrow> n \<le> unat (next_index s))"

lemma gone_le: "sum_list (map gone ws) \<le> length ws"
proof (induction ws)
  case (Cons a ws)
  then show ?case by (cases a) simp_all
qed simp

lemma gone_less:
  assumes "t < length ws" "gone (ws ! t) = 0"
  shows "sum_list (map gone ws) < length ws"
proof -
  from gone_le have "sum_list (map gone (ws[t := Stopped])) \<le> length ws" by (metis length_list_update)
  with sum_list_move [OF assms(1), of gone Stopped] assms(2) show ?thesis by simp
qed

lemma pool_step_workers: "pool_step files outcome s s' \<Longrightarrow> length (workers s') = length (workers s)"
  by (induction rule: pool_step.induct) simp_all

lemma gone_move:
  assumes "t < length ws" "gone (ws ! t) = 0"
  shows "gone x = 0 \<Longrightarrow> sum_list (map gone (ws[t := x])) = sum_list (map gone ws)"
    and "sum_list (map gone (ws[t := Stopped])) = Suc (sum_list (map gone ws))"
    and "Stopped \<in> set (ws[t := x]) \<longleftrightarrow> x = Stopped \<or> Stopped \<in> set ws"
proof -
  show "gone x = 0 \<Longrightarrow> sum_list (map gone (ws[t := x])) = sum_list (map gone ws)"
    "sum_list (map gone (ws[t := Stopped])) = Suc (sum_list (map gone ws))"
    using sum_list_move [OF assms(1), of gone x] sum_list_move [OF assms(1), of gone Stopped] assms(2) by simp_all
  have "ws ! t \<noteq> Stopped" using assms(2) by auto
  then have "Stopped \<in> set (drop (Suc t) ws @ take t ws) \<longleftrightarrow> Stopped \<in> set ws"
    using id_take_nth_drop [OF assms(1)] by (metis Un_iff insert_iff list.simps(15) set_append)
  then show "Stopped \<in> set (ws[t := x]) \<longleftrightarrow> x = Stopped \<or> Stopped \<in> set ws"
    using assms(1) by (auto simp: upd_conv_take_nth_drop)
qed

lemma pool_step_counter:
  assumes "pool_step files outcome s s'" "counter_ok (length files) s" "length files + length (workers s) < 2 ^ 64"
  shows "counter_ok (length files) s'"
proof -
  have n: "length files < 2 ^ 64" using assms(3) by linarith
  have up: "unat (next_index s + 1) = Suc (unat (next_index s))" if "t < length (workers s)" "gone (workers s ! t) = 0" for t
    using gone_less [OF that] assms(2,3) by (intro unat_Suc64) (simp add: counter_ok_def)
  from assms(1) show ?thesis
  proof cases
    case (fetch t)
    then show ?thesis using assms(2) by (simp add: counter_ok_def gone_move up next_less_iff [OF n])
  next
    case (leave t)
    then show ?thesis using assms(2) by (simp add: counter_ok_def gone_move up next_less_iff [OF n])
  qed (use assms(2) in \<open>simp_all add: counter_ok_def gone_move\<close>)
qed

section \<open>The pool refines the phases\<close>

text \<open>One step of the specification: one file goes on to its next phase\<close>

inductive phase_step :: "phase list \<Rightarrow> phase list \<Rightarrow> bool" where
  claim: "i < length ps \<Longrightarrow> ps ! i = Waiting \<Longrightarrow> phase_step ps (ps[i := Claimed])"
| begin_file: "i < length ps \<Longrightarrow> ps ! i = Claimed \<Longrightarrow> phase_step ps (ps[i := Announced])"
| sign_file: "i < length ps \<Longrightarrow> ps ! i = Announced \<Longrightarrow> phase_step ps (ps[i := Signed block])"
| end_file: "i < length ps \<Longrightarrow> ps ! i = Signed block \<Longrightarrow> phase_step ps (ps[i := Done block])"

lemma shown_update:
  assumes "i < length files" "length ps = length files" "shown (files ! i) q = shown (files ! i) (ps ! i) + M"
  shows "(\<Sum>j < length files. shown (files ! j) (ps[i := q] ! j)) = (\<Sum>j < length files. shown (files ! j) (ps ! j)) + M"
proof -
  have "(\<Sum>j < length files. shown (files ! j) (ps[i := q] ! j)) + shown (files ! i) (ps ! i)
      = (\<Sum>j < length files. shown (files ! j) (ps ! j)) + (shown (files ! i) (ps ! i) + M)"
    unfolding assms(3) [symmetric]
    by (rule sum_update [where f = "\<lambda>j. shown (files ! j)"]) (rule assms(1), rule assms(2) [symmetric])
  then show ?thesis by (simp add: ac_simps)
qed

lemma pool_shows_goes_on:
  assumes "pool_shows files outcome s ps" "t < length (workers s)" "at_work (workers s ! t) = Some (i, p)"
    and "assigned ((workers s)[t := x]) (ps[i := q])" "q \<noteq> Waiting"
    and "length rs = length files" "\<forall>j < length files. j \<noteq> i \<longrightarrow> rs ! j = results s ! j" "result_ok (outcome i) (rs ! i) q"
    and "shown (files ! i) q = shown (files ! i) p + mset out"
  shows "pool_shows files outcome (s\<lparr>workers := (workers s)[t := x], results := rs, console := console s @ out\<rparr>) (ps[i := q])"
proof -
  have i: "i < length files" "ps ! i = p" "busy p" "length ps = length files"
    using assms(1-3) at_work_busy by (auto simp: pool_shows_def assigned_def)
  have "\<not> unat (next_index s) \<le> i" using assms(1) i by (auto simp: pool_shows_def)
  moreover have "(\<Sum>j < length files. shown (files ! j) (ps[i := q] ! j)) =
      (\<Sum>j < length files. shown (files ! j) (ps ! j)) + mset out"
    by (rule shown_update) (use i assms(9) in simp_all)
  then have "(\<Sum>j < length files. shown (files ! j) (ps[i := q] ! j)) = mset (console s) + mset out"
    using assms(1) by (simp only: pool_shows_def)
  moreover have "ps[i := q] ! j = Waiting \<longleftrightarrow> unat (next_index s) \<le> j" "result_ok (outcome j) (rs ! j) (ps[i := q] ! j)"
    if "j < length files" for j
    using calculation(1) assms(1,5,7,8) i(1,4) that by (cases "j = i"; simp add: pool_shows_def)+
  ultimately show ?thesis
    using assms(1,4,6) i(4) by (simp add: pool_shows_def)
qed

lemma pool_step_shows:
  assumes "pool_step files outcome s s'" "pool_shows files outcome s ps"
    and "counter_ok (length files) s" "length files + length (workers s) < 2 ^ 64"
  shows "\<exists>ps'. pool_shows files outcome s' ps' \<and> (ps' = ps \<or> phase_step ps ps')"
proof -
  have n: "length files < 2 ^ 64" using assms(4) by linarith
  have ps: "length ps = length files" "length (results s) = length files" "assigned (workers s) ps"
    using assms(2) by (simp_all add: pool_shows_def)
  have up: "unat (next_index s + 1) = Suc (unat (next_index s))" if "t < length (workers s)" "workers s ! t = Fetching" for t
    using gone_less [OF that(1)] that(2) assms(3,4) by (intro unat_Suc64) (simp add: counter_ok_def)
  have at: "i < length ps \<and> ps ! i = p" if "t < length (workers s)" "at_work (workers s ! t) = Some (i, p)" for t i p
    using ps(3) that by (simp add: assigned_def)
  from assms(1) show ?thesis
  proof cases
    case (fetch t)
    let ?i = "unat (next_index s)"
    have i: "?i < length files" using fetch(4) by (simp add: next_less_iff [OF n])
    with assms(2) have w: "ps ! ?i = Waiting" by (simp add: pool_shows_def)
    have "result_ok (outcome ?i) (results s ! ?i) (ps ! ?i)" using assms(2) i by (simp add: pool_shows_def)
    with w have r: "results s ! ?i = no_result" by simp
    have "assigned ((workers s)[t := Starting ?i]) (ps[?i := Claimed])"
      by (rule assigned_begin [OF ps(3) fetch(2)]) (use fetch i w ps in simp_all)
    moreover have "(\<Sum>j < length files. shown (files ! j) (ps[?i := Claimed] ! j)) = mset (console s)"
      using shown_update [of ?i files ps Claimed "{#}"] assms(2) i w ps by (simp add: pool_shows_def)
    ultimately have "pool_shows files outcome s' (ps[?i := Claimed])"
      using assms(2) i w r up [OF fetch(2,3)] unfolding fetch(1) pool_shows_def
      by (auto simp: nth_list_update)
    moreover have "phase_step ps (ps[?i := Claimed])" using i w ps by (intro phase_step.claim) simp_all
    ultimately show ?thesis by blast
  next
    case (leave t)
    have "assigned ((workers s)[t := Stopped]) ps"
      by (rule assigned_idle [OF ps(3) leave(2)]) (use leave in simp_all)
    then have "pool_shows files outcome s' ps"
      using assms(2) leave(4) up [OF leave(2,3)] unfolding leave(1) pool_shows_def
      by (auto simp: next_less_iff [OF n] not_less)
    then show ?thesis by blast
  next
    case (announce t i)
    have a: "i < length ps" "ps ! i = Claimed" using at [OF announce(2)] announce(3) by simp_all
    have "pool_shows files outcome (s\<lparr>workers := (workers s)[t := Signing i], results := results s,
        console := console s @ [starting_line (files ! i)]\<rparr>)
        (ps[i := Announced])"
      by (rule pool_shows_goes_on [OF assms(2) announce(2) _ assigned_go_on [OF ps(3) announce(2)], where p = Claimed])
        (use announce a assms(2) in \<open>auto simp: pool_shows_def\<close>)
    with phase_step.begin_file [OF a] show ?thesis unfolding announce(1) by auto
  next
    case (sign t i r block)
    have a: "i < length ps" "ps ! i = Announced" using at [OF sign(2)] sign(3) by simp_all
    have "pool_shows files outcome (s\<lparr>workers := (workers s)[t := Flushing i block], results := (results s)[i := r],
        console := console s @ []\<rparr>) (ps[i := Signed block])"
      by (rule pool_shows_goes_on [OF assms(2) sign(2) _ assigned_go_on [OF ps(3) sign(2)], where p = Announced])
        (use sign a ps in auto)
    with phase_step.sign_file [OF a] show ?thesis unfolding sign(1) by auto
  next
    case (flush t i block)
    have a: "i < length ps" "ps ! i = Signed block" using at [OF flush(2)] flush(3) by simp_all
    have "pool_shows files outcome (s\<lparr>workers := (workers s)[t := Fetching], results := results s,
        console := console s @ [block]\<rparr>) (ps[i := Done block])"
      by (rule pool_shows_goes_on [OF assms(2) flush(2) _ assigned_end [OF ps(3) flush(2)], where p = "Signed block"])
        (use flush a assms(2) ps in \<open>auto simp: pool_shows_def\<close>)
    with phase_step.end_file [OF a] show ?thesis unfolding flush(1) by auto
  qed
qed

lemma start_pool_shows: "pool_shows files outcome (start_pool n (length files)) (replicate (length files) Waiting)"
  by (auto simp: pool_shows_def start_pool_def assigned_def no_result_def)

lemma start_pool_counter: "counter_ok m (start_pool n m')"
  by (auto simp: counter_ok_def start_pool_def)

lemma pool_reaches_inv:
  assumes "pool_reaches files outcome n_workers s k" "length files + n_workers < 2 ^ 64"
  shows "length (workers s) = n_workers \<and> counter_ok (length files) s \<and> (\<exists>ps. pool_shows files outcome s ps)"
  using assms
proof (induction rule: pool_reaches.induct)
  case start
  have "length (workers (start_pool n_workers (length files))) = n_workers" by (simp add: start_pool_def)
  then show ?case using start_pool_shows start_pool_counter by blast
next
  case (step s k s')
  then show ?case
    using pool_step_workers [OF step.hyps(2)] pool_step_counter [OF step.hyps(2)] pool_step_shows [OF step.hyps(2)] by metis
qed

section \<open>Termination\<close>

fun weight :: "worker \<Rightarrow> nat" where
  "weight Fetching = 1"
| "weight (Starting i) = 4"
| "weight (Signing i) = 3"
| "weight (Flushing i block) = 2"
| "weight Stopped = 0"

definition remaining :: "nat \<Rightarrow> pool \<Rightarrow> nat" where
  "remaining n s = 4 * (n - unat (next_index s)) + sum_list (map weight (workers s))"

lemma pool_step_remaining:
  assumes "pool_step files outcome s s'" "counter_ok (length files) s" "length files + length (workers s) < 2 ^ 64"
  shows "remaining (length files) s' < remaining (length files) s"
proof -
  have n: "length files < 2 ^ 64" using assms(3) by linarith
  have up: "unat (next_index s + 1) = Suc (unat (next_index s))" if "t < length (workers s)" "workers s ! t = Fetching" for t
    using gone_less [OF that(1)] that(2) assms(2,3) by (intro unat_Suc64) (simp add: counter_ok_def)
  from assms(1) show ?thesis
  proof cases
    case (fetch t)
    with sum_list_move [of t "workers s" weight "Starting (unat (next_index s))"] up [of t] show ?thesis
      by (simp add: remaining_def next_less_iff [OF n])
  next
    case (leave t)
    with sum_list_move [of t "workers s" weight Stopped] up [of t] show ?thesis
      by (simp add: remaining_def next_less_iff [OF n])
  next
    case (announce t i)
    with sum_list_move [of t "workers s" weight "Signing i"] show ?thesis by (simp add: remaining_def)
  next
    case (sign t i r block)
    with sum_list_move [of t "workers s" weight "Flushing i block"] show ?thesis by (simp add: remaining_def)
  next
    case (flush t i block)
    with sum_list_move [of t "workers s" weight Fetching] show ?thesis by (simp add: remaining_def)
  qed
qed

lemma pool_reaches_bound:
  assumes "pool_reaches files outcome n_workers s k" "length files + n_workers < 2 ^ 64"
  shows "remaining (length files) s + k \<le> 4 * length files + n_workers"
  using assms
proof (induction rule: pool_reaches.induct)
  case start
  then show ?case by (simp add: remaining_def start_pool_def sum_list_replicate)
next
  case (step s k s')
  with pool_reaches_inv [OF step.hyps(1)] pool_step_remaining [OF step.hyps(2)] show ?case by fastforce
qed

lemma pool_step_possible:
  assumes "pool_shows files outcome s ps" "\<not> joined s" "\<forall>i < length files. \<exists>r block. outcome i r block"
  shows "\<exists>s'. pool_step files outcome s s'"
proof -
  obtain t where t: "t < length (workers s)" "workers s ! t \<noteq> Stopped"
    using assms(2) unfolding joined_def by (metis in_set_conv_nth insertI1 subsetI)
  show ?thesis
  proof (cases "workers s ! t")
    case Fetching
    with t show ?thesis using pool_step.fetch pool_step.leave by blast
  next
    case (Signing i)
    with t(1) assms(1) have "i < length files" by (auto simp: pool_shows_def assigned_def)
    with assms(3) Signing t(1) show ?thesis using pool_step.sign by blast
  qed (use t pool_step.announce pool_step.flush in blast)+
qed

lemma joined_phases:
  assumes "pool_shows files outcome s ps" "counter_ok (length files) s" "joined s" "workers s \<noteq> []" "i < length files"
  shows "\<exists>block. ps ! i = Done block"
proof -
  have ws: "workers s ! t = Stopped" if "t < length (workers s)" for t
    using assms(3) that nth_mem by (fastforce simp: joined_def)
  have "Stopped \<in> set (workers s)" using ws [of 0] assms(4) by (metis length_greater_0_conv nth_mem)
  with assms(1,2,5) have "ps ! i \<noteq> Waiting" by (auto simp: pool_shows_def counter_ok_def)
  moreover have "\<not> busy (ps ! i)"
    using assms(1,5) ws by (force simp: pool_shows_def assigned_def)
  ultimately show ?thesis by (cases "ps ! i") auto
qed

lemma joined_result:
  assumes "pool_reaches files outcome n_workers s k" "joined s" "0 < n_workers" "length files + n_workers < 2 ^ 64"
    and "i < length files"
  shows "\<exists>block. outcome i (results s ! i) block"
proof -
  obtain ps where inv: "length (workers s) = n_workers" "counter_ok (length files) s" "pool_shows files outcome s ps"
    using pool_reaches_inv [OF assms(1,4)] by blast
  then have "workers s \<noteq> []" using assms(3) by auto
  then obtain block where "ps ! i = Done block" using joined_phases [OF inv(3,2) assms(2) _ assms(5)] by blast
  moreover have "result_ok (outcome i) (results s ! i) (ps ! i)" using inv(3) assms(5) by (simp add: pool_shows_def)
  ultimately show ?thesis by auto
qed

lemma pool_can_join:
  assumes "pool_reaches files outcome n_workers s k" "length files + n_workers < 2 ^ 64"
    and "\<forall>i < length files. \<exists>r block. outcome i r block"
  shows "\<exists>s' k'. pool_reaches files outcome n_workers s' k' \<and> joined s'"
  using assms(1)
proof (induction "remaining (length files) s" arbitrary: s k rule: less_induct)
  case less
  note inv = pool_reaches_inv [OF less.prems assms(2)]
  show ?case
  proof (cases "joined s")
    case False
    then obtain s' where s': "pool_step files outcome s s'" using inv pool_step_possible [OF _ _ assms(3)] by blast
    have "remaining (length files) s' < remaining (length files) s"
      by (rule pool_step_remaining [OF s']) (use inv assms(2) in simp_all)
    then show ?thesis using less.hyps pool_reaches.step [OF less.prems s'] by blast
  qed (use less.prems in blast)
qed

lemma pool_reaches_mono:
  assumes "pool_reaches files outcome n_workers s k" "\<And>i r block. outcome i r block \<Longrightarrow> outcome' i r block"
  shows "pool_reaches files outcome' n_workers s k"
  using assms(1)
proof (induction rule: pool_reaches.induct)
  case (step s k s')
  from step.hyps(2) have "pool_step files outcome' s s'"
    by cases (auto intro: pool_step.intros assms(2))
  with step.IH show ?case by (rule pool_reaches.step)
qed (rule pool_reaches.start)

text \<open>
  Whatever results the files have one by one, the pool can end with just these: what its workers
  do together is no less than what one worker does file by file.
\<close>

lemma pool_any_results:
  assumes "0 < n_workers" "length files + n_workers < 2 ^ 64" "length rs = length files"
    and "\<forall>i < length files. \<exists>block. outcome i (rs ! i) block"
  shows "\<exists>s k. pool_reaches files outcome n_workers s k \<and> joined s \<and> results s = rs"
proof -
  let ?o = "\<lambda>i r block. r = rs ! i \<and> outcome i r block"
  obtain s k where s: "pool_reaches files ?o n_workers s k" "joined s"
    using pool_can_join [OF pool_reaches.start assms(2), of ?o] assms(4) by blast
  have "length (results s) = length files"
    using pool_reaches_inv [OF s(1) assms(2)] by (auto simp: pool_shows_def)
  then have "results s = rs"
    using joined_result [OF s assms(1,2)] assms(3) by (intro nth_equalityI) auto
  with pool_reaches_mono [OF s(1), of outcome] s(2) show ?thesis by blast
qed

text \<open>A multiset is the sum of its elements by index\<close>

lemma mset_nth: "(\<Sum>i < length xs. {#xs ! i#}) = mset xs"
  by (induction xs rule: rev_induct) (simp_all add: nth_append)

section \<open>Properties\<close>

text \<open>
  C5: no file is signed twice at a time, and the counter does not run away. Whatever the workers
  have done in whatever order, two of them are never at the same file, a worker at a file is at an
  existing one that has been claimed, its result is still the initial one until it has signed,
  and the 64-bit counter has passed the number of files by at most the number of workers, so
  it has not wrapped.
\<close>

theorem pool_claims_once:
  assumes "pool_reaches files outcome n_workers s k" "length files + n_workers < 2 ^ 64"
  shows "length (workers s) = n_workers \<and> unat (next_index s) \<le> length files + n_workers \<and>
    (\<forall>t < n_workers. \<forall>i p. at_work (workers s ! t) = Some (i, p) \<longrightarrow>
       i < length files \<and> i < unat (next_index s) \<and> (p = Claimed \<or> p = Announced \<longrightarrow> results s ! i = no_result) \<and>
       (\<forall>u < n_workers. map_option fst (at_work (workers s ! u)) = Some i \<longrightarrow> u = t))"
proof -
  obtain ps where inv: "length (workers s) = n_workers" "counter_ok (length files) s" "pool_shows files outcome s ps"
    using pool_reaches_inv [OF assms] by blast
  have "sum_list (map gone (workers s)) \<le> n_workers"
    unfolding inv(1) [symmetric] by (rule gone_le)
  then have "unat (next_index s) \<le> length files + n_workers" using inv(2) by (simp add: counter_ok_def)
  moreover have "i < length files \<and> i < unat (next_index s) \<and> (p = Claimed \<or> p = Announced \<longrightarrow> results s ! i = no_result)"
    if "t < n_workers" "at_work (workers s ! t) = Some (i, p)" for t i p
  proof -
    have i: "i < length files" "ps ! i = p" using inv that by (auto simp: pool_shows_def assigned_def)
    moreover have "p \<noteq> Waiting" using at_work_busy [OF that(2)] by auto
    moreover have "result_ok (outcome i) (results s ! i) p" using inv(3) i by (auto simp: pool_shows_def)
    ultimately show ?thesis using inv(3) by (auto simp: pool_shows_def not_le)
  qed
  moreover have "u = t" if "t < n_workers" "at_work (workers s ! t) = Some (i, p)" "u < n_workers"
      "map_option fst (at_work (workers s ! u)) = Some i" for t u i p
  proof -
    from that(4) obtain q where "at_work (workers s ! u) = Some (i, q)" by auto
    with that inv show ?thesis unfolding pool_shows_def assigned_def by metis
  qed
  ultimately show ?thesis using inv(1) by blast
qed

text \<open>
  C4: when the workers have been joined, every file has been signed exactly once. Each result is
  an outcome of its own file, and the console shows exactly one starting line for each file and
  the block of each file, undivided.
\<close>

theorem pool_signs_every_file:
  assumes "pool_reaches files outcome n_workers s k" "joined s" "0 < n_workers" "length files + n_workers < 2 ^ 64"
  shows "\<exists>blocks. length blocks = length files \<and> length (results s) = length files \<and>
    (\<forall>i < length files. outcome i (results s ! i) (blocks ! i)) \<and>
    mset (console s) = mset (map starting_line files) + mset blocks"
proof -
  obtain ps where inv: "length (workers s) = n_workers" "counter_ok (length files) s" "pool_shows files outcome s ps"
    using pool_reaches_inv [OF assms(1,4)] by blast
  have w: "workers s \<noteq> []" using inv(1) assms(3) by auto
  define block_of where "block_of p = (case p of Done b \<Rightarrow> b | _ \<Rightarrow> [])" for p
  let ?blocks = "map block_of ps"
  have d: "ps ! i = Done (block_of (ps ! i))" if "i < length files" for i
    using joined_phases [OF inv(3,2) assms(2) w that] by (auto simp: block_of_def)
  have l: "length ps = length files" "length (results s) = length files" using inv(3) by (simp_all add: pool_shows_def)
  have "mset (console s) = (\<Sum>i < length files. {#starting_line (files ! i), ?blocks ! i#})"
    using inv(3) l by (simp add: pool_shows_def) (rule sum.cong, simp, metis d lessThan_iff shown.simps(5))
  also have "\<dots> = (\<Sum>i < length files. {#starting_line (files ! i)#}) + (\<Sum>i < length ?blocks. {#?blocks ! i#})"
    using l by (simp add: add_mset_commute flip: sum.distrib)
  also have "(\<Sum>i < length files. {#starting_line (files ! i)#}) = mset (map starting_line files)"
    using mset_nth [of "map starting_line files"] by simp
  finally have c: "mset (console s) = mset (map starting_line files) + mset ?blocks"
    by (simp only: mset_nth)
  have "outcome i (results s ! i) (?blocks ! i)" if "i < length files" for i
  proof -
    have "result_ok (outcome i) (results s ! i) (ps ! i)" using inv(3) that by (simp add: pool_shows_def)
    with d [OF that] l that show ?thesis by (metis nth_map result_ok.simps(2))
  qed
  with c l show ?thesis by (intro exI [of _ ?blocks]) simp
qed

text \<open>
  C33: the pool always finishes. No run is longer than four steps for each file and one for each
  worker, and as long as some worker is in the loop some step is possible, if signing a file
  returns. So every run ends with all workers joined, whatever the scheduler does.
\<close>

theorem pool_finishes:
  assumes "pool_reaches files outcome n_workers s k" "length files + n_workers < 2 ^ 64"
    and "\<forall>i < length files. \<exists>r block. outcome i r block"
  shows "k \<le> 4 * length files + n_workers \<and> (joined s \<or> (\<exists>s'. pool_step files outcome s s'))"
  using pool_reaches_bound [OF assms(1,2)] pool_reaches_inv [OF assms(1,2)] pool_step_possible [OF _ _ assms(3)] by auto

section \<open>Witnesses\<close>

text \<open>Two workers and two files, of which the second fails\<close>

definition sample_outcome :: "nat \<Rightarrow> SignResult \<Rightarrow> string \<Rightarrow> bool" where
  "sample_outcome i r block \<longleftrightarrow>
     r = (if i = 0 then \<lparr>sr_file = ''a'', sr_ok = True, sr_error = []\<rparr> else \<lparr>sr_file = ''b'', sr_ok = False, sr_error = ''no''\<rparr>) \<and>
     block = (if i = 0 then ''[a] ok'' else ''[b] no'')"

lemma sample_reaches:
  "pool_reaches [''a'', ''b''] sample_outcome 2
     \<lparr>next_index = 2, workers = [Starting 0, Signing 1], results = [no_result, no_result],
      console = [starting_line ''b'']\<rparr> 3"
proof -
  let ?step = "pool_step [''a'', ''b''] sample_outcome"
  have "?step (start_pool 2 2)
      \<lparr>next_index = 1, workers = [Starting 0, Fetching], results = [no_result, no_result], console = []\<rparr>"
    using pool_step.fetch [of 0 "start_pool 2 2" "[''a'', ''b'']" sample_outcome] by (simp add: start_pool_def numeral_2_eq_2)
  moreover have "?step \<lparr>next_index = 1, workers = [Starting 0, Fetching], results = [no_result, no_result], console = []\<rparr>
      \<lparr>next_index = 2, workers = [Starting 0, Starting 1], results = [no_result, no_result], console = []\<rparr>"
    using pool_step.fetch [of 1 "\<lparr>next_index = 1, workers = [Starting 0, Fetching], results = [no_result, no_result], console = []\<rparr>"
        "[''a'', ''b'']" sample_outcome] by simp
  moreover have "?step \<lparr>next_index = 2, workers = [Starting 0, Starting 1], results = [no_result, no_result], console = []\<rparr>
      \<lparr>next_index = 2, workers = [Starting 0, Signing 1], results = [no_result, no_result], console = [starting_line ''b'']\<rparr>"
    using pool_step.announce [of 1 "\<lparr>next_index = 2, workers = [Starting 0, Starting 1], results = [no_result, no_result], console = []\<rparr>"
        1 "[''a'', ''b'']" sample_outcome] by simp
  moreover have "pool_reaches [''a'', ''b''] sample_outcome 2 (start_pool 2 2) 0"
    using pool_reaches.start [of "[''a'', ''b'']" sample_outcome 2] by (simp add: numeral_2_eq_2)
  ultimately show ?thesis unfolding numeral_3_eq_3 by (blast intro: pool_reaches.step)
qed

theorem pool_claims_once_witness:
  "at_work (workers \<lparr>next_index = 2, workers = [Starting 0, Signing 1], results = [no_result, no_result],
      console = [starting_line ''b'']\<rparr> ! 1) = Some (1, Announced) \<and>
   unat (2 :: 64 word) \<le> length [''a'', ''b''] + 2"
  using pool_claims_once [OF sample_reaches] by simp

theorem pool_signs_every_file_witness:
  "\<exists>s k blocks. pool_reaches [''a'', ''b''] sample_outcome 2 s k \<and> joined s \<and>
     mset (console s) = mset (map starting_line [''a'', ''b'']) + mset blocks"
proof -
  have "\<forall>i < length [''a'', ''b'']. \<exists>r block. sample_outcome i r block" by (simp add: sample_outcome_def)
  then obtain s k where s: "pool_reaches [''a'', ''b''] sample_outcome 2 s k" "joined s"
    using pool_can_join [OF sample_reaches] by auto
  from pool_signs_every_file [OF s] obtain blocks where
    "mset (console s) = mset (map starting_line [''a'', ''b'']) + mset blocks" by auto
  with s show ?thesis by blast
qed

theorem pool_finishes_witness:
  "\<exists>s'. pool_step [''a'', ''b''] sample_outcome \<lparr>next_index = 2, workers = [Starting 0, Signing 1],
     results = [no_result, no_result], console = [starting_line ''b'']\<rparr> s'"
  using pool_finishes [OF sample_reaches] by (auto simp: sample_outcome_def joined_def)

end
