(* ===== verification/Main_App.thy ===== *)
theory Main_App
  imports Signing_Properties Azure Oidc Auth_Laptop Tls Worker_Pool
begin

text \<open>
  The command line of \<^verbatim>\<open>src/src/main.cpp\<close>: the sweep for global flags, the dispatch
  to the subcommands, and the subcommand \<^verbatim>\<open>sign\<close> with its options, its
  defaults, its sources of a token, and its worker pool. A subcommand is a program that returns the
  exit code. The threads are a parameter: what is relied on is that they run the worker pool of
  \<open>Worker_Pool\<close>.
\<close>

section \<open>Texts\<close>

definition DEFAULT_TSA_URL :: string where
  "DEFAULT_TSA_URL = ''http://timestamp.acs.microsoft.com/timestamping/RFC3161''"

definition usage_short_text :: "string \<Rightarrow> string" where
  "usage_short_text argv0 = text_lines
     [''usage: '' @ argv0 @ '' sign [--as REGION:ACCOUNT:PROFILE] [options] FILE [FILE ...]'',
      ''       '' @ argv0 @ '' login [REGION:ACCOUNT:PROFILE] [--tenant T] [--client-id C]'',
      ''       '' @ argv0 @ '' logout'',
      ''       '' @ argv0 @ '' config REGION:ACCOUNT:PROFILE'',
      ''Try `'' @ argv0 @ '' --help' for more information.'']"

definition usage_full_text :: "string \<Rightarrow> string" where
  "usage_full_text argv0 = text_lines
     [''usage: '' @ argv0 @ '' sign [--as REGION:ACCOUNT:PROFILE] [options] FILE [FILE ...]'',
      ''       '' @ argv0 @ '' login [REGION:ACCOUNT:PROFILE] [--tenant T] [--client-id C]'',
      ''       '' @ argv0 @ '' logout'',
      ''       '' @ argv0 @ '' config REGION:ACCOUNT:PROFILE'',
      ''       '' @ argv0 @ '' --version | --help'',
      [],
      ''Sign PE images, MSI, MSIX and MSIX bundles via Azure '' @ ''Artifact Signing (Trusted Signing).'',
      [],
      ''Subcommands:'',
      ''  sign FILE ...        Sign PE images, MSI, MSIX or MSIX bundles.'',
      ''  login                Interactive browser login; caches a refresh'',
      ''                       token under ${XDG_CONFIG_HOME:-~/.config}/'',
      ''                       aas-sign (or %APPDATA%'' @ [CHR 0x5C] @ ''aas-sign on Windows).'',
      ''                       Subsequent `sign` runs then use the cache.'',
      ''                       Can also save --endpoint/--account/--profile'',
      ''                       into config.json alongside the cache.'',
      ''  logout               Delete the cached refresh token.'',
      ''  config               Write signing defaults (--endpoint/--account/'',
      ''                       --profile) to config.json without touching'',
      ''                       auth state.  Equivalent to passing the same'',
      ''                       flags to `login`, minus the auth step.'',
      [],
      ''sign options:'',
      ''  --as REGION:ACCOUNT:PROFILE'',
      ''                       Compact signer tuple, e.g.'',
      ''                         --as eus:mycompany:me'',
      ''                       REGION auto-expands to'',
      ''                       REGION.codesigning.azure.net (pass a'',
      ''                       value containing `.' to override).'',
      ''                       Mutually exclusive with the three long'',
      ''                       flags below.'',
      ''  --endpoint HOST      Azure Trusted Signing endpoint hostname,'',
      ''                       e.g. eus.codesigning.azure.net.  Required'',
      ''                       unless --as or config.json supplies it.'',
      ''  --account NAME       Trusted Signing account name.'',
      ''  --profile NAME       Certificate profile name.'',
      ''  --token TOKEN        Azure bearer token.  Falls back to the'',
      ''                       AZURE_ACCESS_TOKEN environment variable.'',
      ''  --oidc-client-id ID  Azure app client ID.  Combined with'',
      ''                       --oidc-tenant-id, mints a token from GitHub'',
      ''                       Actions OIDC federation (CI only; requires'',
      ''                       permissions: id-token: write).  Falls back'',
      ''                       to the AZURE_CLIENT_ID environment variable.'',
      ''  --oidc-tenant-id ID  Azure tenant ID for --oidc-client-id.'',
      ''                       Falls back to AZURE_TENANT_ID.'',
      ''  --timestamp-url URL  RFC 3161 timestamp authority.  Default is'',
      ''                       Microsoft's public TSA.  Use --no-timestamp'',
      ''                       to skip.'',
      ''  --no-timestamp       Skip timestamping.  Not recommended -- Azure'',
      ''                       Trusted Signing certs are short-lived (days).'',
      ''  --msi-dse            Add the enhanced MSI metadata signature stream.'',
      ''  --recursive          Sign unsigned PE payloads inside embedded MSI'',
      ''                       cabinets and Binary streams, then sign the MSI.'',
      ''                       Preserves signed PEs; ignored for other targets.'',
      ''  --osslsigncode PATH  Companion executable (default: sibling, then PATH).'',
      ''  --max-parallel N     Maximum concurrent sign operations when'',
      ''                       signing multiple files.  Default: 8.'',
      ''  --dump-cms FILE      Write raw CMS DER blob to FILE for debugging'',
      ''                       (openssl asn1parse -inform DER).  Single-file'',
      ''                       mode only.'',
      [],
      ''If no token source is provided, aas-sign sign will attempt to use'',
      ''a refresh token cached by a prior `aas-sign login`.'',
      [],
      ''--endpoint, --account, and --profile can also be pre-filled by'',
      ''putting them in ${XDG_CONFIG_HOME:-~/.config}/aas-sign/config.json'',
      ''(or %APPDATA%'' @ [CHR 0x5C] @ ''aas-sign'' @ [CHR 0x5C] @ ''config.json on Windows):'',
      [],
      ''    { '' @ [CHR 0x22] @ ''endpoint'' @ [CHR 0x22] @ '': '' @ [CHR 0x22] @ ''eus.codesigning.azure.net'' @ [CHR 0x22] @ '','',
      ''      '' @ [CHR 0x22] @ ''account'' @ [CHR 0x22] @ '': '' @ [CHR 0x22] @ ''myaccount'' @ [CHR 0x22] @ '','',
      ''      '' @ [CHR 0x22] @ ''profile'' @ [CHR 0x22] @ '': '' @ [CHR 0x22] @ ''myprofile'' @ [CHR 0x22] @ '' }'',
      [],
      ''login options:'',
      ''  REGION:ACCOUNT:PROFILE'',
      ''                       Optional positional signer tuple,'',
      ''                       saved to config.json on successful login.'',
      ''                       E.g. `aas-sign login eus:mycompany:me`.'',
      ''  --tenant TENANT      Azure tenant (default: the repo owner's).'',
      ''  --client-id ID       Override the default aas-sign app ID.'',
      ''  --endpoint HOST      Equivalent long form of the three tuple'',
      ''  --account NAME       fields; mutually exclusive with the'',
      ''  --profile NAME       positional tuple above.'',
      [],
      ''config options:'',
      ''  REGION:ACCOUNT:PROFILE   Set all three signing defaults at once.'',
      ''  --endpoint HOST, --account NAME, --profile NAME'',
      ''                           Set individual fields (merge semantics).'',
      [],
      ''global options:'',
      ''  --cacert PATH        Use PATH (a PEM bundle) as the trust root'',
      ''                       for TLS verification, overriding'',
      ''                       $SSL_CERT_FILE and the well-known-paths'',
      ''                       probe.  POSIX only; on Windows WinHTTP'',
      ''                       always verifies against the system store.'',
      ''  --insecure           Skip TLS certificate verification on every'',
      ''                       outbound HTTPS request.  Off by default;'',
      ''                       only useful for diagnosing trust-store'',
      ''                       problems or talking to dev/staging'',
      ''                       endpoints with self-signed certs.'',
      [],
      ''  --version            Print version and exit.'',
      ''  --help, -h           Print this help and exit.'']"


definition usage_short :: "'w shell \<Rightarrow> string \<Rightarrow> ('w, unit) prog" where
  "usage_short sh argv0 = doP (write_stderr (sh_net sh) (usage_short_text argv0))"

definition usage_full :: "'w shell \<Rightarrow> string \<Rightarrow> ('w, unit) prog" where
  "usage_full sh argv0 = doP (write_stdout sh (usage_full_text argv0))"

section \<open>Configuration and platform\<close>

record Config =
  cfg_endpoint :: string
  cfg_account :: string
  cfg_profile :: string
  cfg_token :: string
  cfg_timestamp_url :: string
  cfg_no_timestamp :: bool
  cfg_msi_dse :: bool
  cfg_recursive :: bool
  cfg_osslsigncode :: string
  cfg_ca_bundle :: string
  cfg_insecure :: bool
  cfg_dump_cms :: string
  cfg_oidc_client_id :: string
  cfg_oidc_tenant_id :: string

definition initial_config :: "TlsSettings \<Rightarrow> Config" where
  "initial_config settings =
     \<lparr>cfg_endpoint = [], cfg_account = [], cfg_profile = [], cfg_token = [], cfg_timestamp_url = DEFAULT_TSA_URL,
      cfg_no_timestamp = False, cfg_msi_dse = False, cfg_recursive = False, cfg_osslsigncode = [],
      cfg_ca_bundle = g_ca_bundle_override settings, cfg_insecure = g_tls_insecure settings, cfg_dump_cms = [],
      cfg_oidc_client_id = [], cfg_oidc_tenant_id = []\<rparr>"

text \<open>
  What the program runs on: the platform under the TLS settings of the process, the installer
  database, the threads, the memory that holds the log buffers, and the version the build defines.
  \<open>host_threads\<close> gets the number of workers, the names of the files and one program for each.
\<close>

record 'w host =
  host_shell :: "TlsSettings \<Rightarrow> 'w shell"
  host_msi :: "'w msi_lib"
  host_threads :: "nat \<Rightarrow> string list \<Rightarrow> ('w, SignResult) prog list \<Rightarrow> ('w, SignResult list) prog"
  log_buf :: "nat \<Rightarrow> 'w \<Rightarrow> string"
  set_log_buf :: "nat \<Rightarrow> string \<Rightarrow> 'w \<Rightarrow> 'w"
  AAS_SIGN_VERSION :: string

section \<open>The log of a file\<close>

record FileLogger =
  fl_cell :: nat
  fl_multi :: bool
  fl_prefix :: string

definition file_logger :: "nat \<Rightarrow> string \<Rightarrow> bool \<Rightarrow> FileLogger" where
  "file_logger cell file multi = \<lparr>fl_cell = cell, fl_multi = multi, fl_prefix = ''['' @ file @ ''] ''\<rparr>"

text \<open>A line, from its construction with the prefix to its destruction\<close>

definition log_line :: "'w host \<Rightarrow> 'w shell \<Rightarrow> FileLogger \<Rightarrow> string \<Rightarrow> 'w \<Rightarrow> 'w" where
  "log_line host sh fl line w =
     (if fl_multi fl
      then set_log_buf host (fl_cell fl) (log_buf host (fl_cell fl) w @ fl_prefix fl @ line) w
      else write_stderr (sh_net sh) line w)"

definition flush_log :: "'w host \<Rightarrow> 'w shell \<Rightarrow> FileLogger \<Rightarrow> 'w \<Rightarrow> 'w" where
  "flush_log host sh fl w =
     (if \<not> fl_multi fl then w
      else set_log_buf host (fl_cell fl) [] (write_stderr (sh_net sh) (log_buf host (fl_cell fl) w) w))"

section \<open>Signing one file\<close>

definition signing_options :: "Config \<Rightarrow> SigningOptions" where
  "signing_options cfg =
     \<lparr>so_osslsigncode = cfg_osslsigncode cfg, so_timestamp_url = cfg_timestamp_url cfg,
      so_dump_cms = cfg_dump_cms cfg, so_ca_bundle = cfg_ca_bundle cfg, so_no_timestamp = cfg_no_timestamp cfg,
      so_msi_dse = cfg_msi_dse cfg, so_recursive = cfg_recursive cfg, so_insecure = cfg_insecure cfg\<rparr>"

definition azure_signer :: "'w shell \<Rightarrow> 'j json_lib \<Rightarrow> Config \<Rightarrow> 'w signer" where
  "azure_signer sh json cfg digest =
     azure_sign (sh_net sh) json (cfg_endpoint cfg) (cfg_account cfg) (cfg_profile cfg) (cfg_token cfg) digest"

definition sign_one_file ::
  "'w host \<Rightarrow> 'w shell \<Rightarrow> 'j json_lib \<Rightarrow> string \<Rightarrow> Config \<Rightarrow> FileLogger \<Rightarrow> ('w, SignResult) prog" where
  "sign_one_file host sh json file cfg fl =
     catchP
       (bindP (sign_file sh (host_msi host) file (signing_options cfg) (azure_signer sh json cfg) (log_line host sh fl)) (\<lambda>_.
        retP \<lparr>sr_file = file, sr_ok = True, sr_error = []\<rparr>))
       (\<lambda>e. bindP (doP (log_line host sh fl (''error: '' @ what e @ [CHR 0x0A]))) (\<lambda>_.
            retP \<lparr>sr_file = file, sr_ok = False, sr_error = what e\<rparr>))"

section \<open>Options of sign\<close>

text \<open>
  \<^verbatim>\<open>atoi\<close> as the C library has it: \<^verbatim>\<open>strtol\<close>, which stops at the
  limits of 64 bits, cut to 32 bits
\<close>

definition atoi :: "string \<Rightarrow> int" where
  "atoi s =
     (case scan_number 10 s of (neg, ds, rest) \<Rightarrow>
        let v = (if neg then - int (digits_value 10 ds) else int (digits_value 10 ds)) in
        sint (word_of_int (max (- (2 ^ 63)) (min (2 ^ 63 - 1) v)) :: 32 word))"

record sign_args =
  sa_cfg :: Config
  sa_files :: "string list"
  sa_max_parallel :: int
  sa_as :: string

datatype sign_parsed = Sign_parsed sign_args | Sign_help | Sign_version | Sign_unknown string

abbreviation upd_cfg :: "(Config \<Rightarrow> Config) \<Rightarrow> sign_args \<Rightarrow> sign_args" where
  "upd_cfg f a \<equiv> a\<lparr>sa_cfg := f (sa_cfg a)\<rparr>"

fun sign_options :: "string list \<Rightarrow> sign_args \<Rightarrow> sign_parsed" where
  "sign_options [] s = Sign_parsed s"
| "sign_options (a # rest) s =
     (if a = ''--as'' \<and> rest \<noteq> [] then sign_options (tl rest) (s\<lparr>sa_as := hd rest\<rparr>)
      else if a = ''--endpoint'' \<and> rest \<noteq> [] then sign_options (tl rest) (upd_cfg (cfg_endpoint_update (\<lambda>_. hd rest)) s)
      else if a = ''--account'' \<and> rest \<noteq> [] then sign_options (tl rest) (upd_cfg (cfg_account_update (\<lambda>_. hd rest)) s)
      else if a = ''--profile'' \<and> rest \<noteq> [] then sign_options (tl rest) (upd_cfg (cfg_profile_update (\<lambda>_. hd rest)) s)
      else if a = ''--token'' \<and> rest \<noteq> [] then sign_options (tl rest) (upd_cfg (cfg_token_update (\<lambda>_. hd rest)) s)
      else if a = ''--oidc-client-id'' \<and> rest \<noteq> []
      then sign_options (tl rest) (upd_cfg (cfg_oidc_client_id_update (\<lambda>_. hd rest)) s)
      else if a = ''--oidc-tenant-id'' \<and> rest \<noteq> []
      then sign_options (tl rest) (upd_cfg (cfg_oidc_tenant_id_update (\<lambda>_. hd rest)) s)
      else if a = ''--dump-cms'' \<and> rest \<noteq> [] then sign_options (tl rest) (upd_cfg (cfg_dump_cms_update (\<lambda>_. hd rest)) s)
      else if a = ''--timestamp-url'' \<and> rest \<noteq> []
      then sign_options (tl rest) (upd_cfg (cfg_timestamp_url_update (\<lambda>_. hd rest)) s)
      else if a = ''--no-timestamp'' then sign_options rest (upd_cfg (cfg_no_timestamp_update (\<lambda>_. True)) s)
      else if a = ''--msi-dse'' then sign_options rest (upd_cfg (cfg_msi_dse_update (\<lambda>_. True)) s)
      else if a = ''--recursive'' then sign_options rest (upd_cfg (cfg_recursive_update (\<lambda>_. True)) s)
      else if a = ''--osslsigncode'' \<and> rest \<noteq> []
      then sign_options (tl rest) (upd_cfg (cfg_osslsigncode_update (\<lambda>_. hd rest)) s)
      else if a = ''--max-parallel'' \<and> rest \<noteq> []
      then sign_options (tl rest) (s\<lparr>sa_max_parallel := max 1 (atoi (hd rest))\<rparr>)
      else if a = ''--help'' \<or> a = ''-h'' then Sign_help
      else if a = ''--version'' then Sign_version
      else if not_dashed a then sign_options rest (s\<lparr>sa_files := sa_files s @ [a]\<rparr>)
      else Sign_unknown a)"

text \<open>The tuple of \<^verbatim>\<open>--as\<close>, which excludes the individual options: an error text or the configuration\<close>

definition resolve_as :: "string \<Rightarrow> Config \<Rightarrow> string + Config" where
  "resolve_as as_arg cfg =
     (if as_arg = [] then Inr cfg
      else if cfg_endpoint cfg \<noteq> [] \<or> cfg_account cfg \<noteq> [] \<or> cfg_profile cfg \<noteq> []
      then Inl (''--as is mutually exclusive with '' @ ''--endpoint/--account/--profile'' @ [CHR 0x0A])
      else case parse_signer_tuple as_arg of
        Inr t \<Rightarrow> Inr (cfg\<lparr>cfg_endpoint := endpoint t, cfg_account := account t, cfg_profile := profile t\<rparr>)
      | Inl e \<Rightarrow> Inl (''error: '' @ what e @ [CHR 0x0A]))"

section \<open>Defaults and token\<close>

text \<open>
  The three defaults of \<^verbatim>\<open>config.json\<close> in turn: an exception ends the loop, and what
  was filled in before it stays.
\<close>

type_synonym default_field = "string \<times> (Config \<Rightarrow> string) \<times> ((string \<Rightarrow> string) \<Rightarrow> Config \<Rightarrow> Config)"

definition default_fields :: "default_field list" where
  "default_fields =
     [(''endpoint'', cfg_endpoint, cfg_endpoint_update), (''account'', cfg_account, cfg_account_update),
      (''profile'', cfg_profile, cfg_profile_update)]"

primrec fill_fields :: "'j json_lib \<Rightarrow> 'j \<Rightarrow> default_field list \<Rightarrow> Config \<Rightarrow> exn option \<times> Config" where
  "fill_fields json j [] cfg = (None, cfg)"
| "fill_fields json j (f # fs) cfg =
     (case f of (key, get, upd) \<Rightarrow>
        if get cfg \<noteq> [] then fill_fields json j fs cfg
        else case json_value json j key [] of
          Inl e \<Rightarrow> (Some e, cfg)
        | Inr v \<Rightarrow> fill_fields json j fs (upd (\<lambda>_. v) cfg))"

definition config_warning :: "'w shell \<Rightarrow> exn \<Rightarrow> ('w, unit) prog" where
  "config_warning sh e =
     doP (write_stderr (sh_net sh) (''warning: ignoring unreadable config.json: '' @ what e @ [CHR 0x0A]))"

definition load_config :: "'w shell \<Rightarrow> 'j json_lib \<Rightarrow> Config \<Rightarrow> ('w, Config) prog" where
  "load_config sh json cfg =
     catchP
       (bindP (config_dir (sh_sys sh)) (\<lambda>dir w.
          case read_text sh (dir @ ''/config.json'') w of
            None \<Rightarrow> Some (Inr cfg, w)
          | Some text \<Rightarrow>
              bindP (liftP (json_read json text)) (\<lambda>j.
              case fill_fields json j default_fields cfg of
                (None, cfg) \<Rightarrow> retP cfg
              | (Some e, cfg) \<Rightarrow> bindP (config_warning sh e) (\<lambda>_. retP cfg)) w))
       (\<lambda>e. bindP (config_warning sh e) (\<lambda>_. retP cfg))"

text \<open>A step that may throw: the error is printed and the exit code is 1\<close>

definition exit_with :: "'w shell \<Rightarrow> string \<Rightarrow> ('w, int) prog" where
  "exit_with sh msg = bindP (doP (write_stderr (sh_net sh) msg)) (\<lambda>_. retP 1)"

definition or_exit :: "'w shell \<Rightarrow> ('w, 'a) prog \<Rightarrow> ('a \<Rightarrow> ('w, int) prog) \<Rightarrow> ('w, int) prog" where
  "or_exit sh m k w =
     (case m w of
        None \<Rightarrow> None
      | Some (Inl e, w') \<Rightarrow> exit_with sh (''error: '' @ what e @ [CHR 0x0A]) w'
      | Some (Inr x, w') \<Rightarrow> k x w')"

definition env_or :: "'w sys \<Rightarrow> string \<Rightarrow> string \<Rightarrow> string" where
  "env_or sys name value =
     (if value \<noteq> [] then value else case sys_getenv sys name of None \<Rightarrow> [] | Some v \<Rightarrow> v)"

definition env_config :: "'w sys \<Rightarrow> Config \<Rightarrow> Config" where
  "env_config sys cfg =
     cfg\<lparr>cfg_token := env_or sys ''AZURE_ACCESS_TOKEN'' (cfg_token cfg),
         cfg_oidc_client_id := env_or sys ''AZURE_CLIENT_ID'' (cfg_oidc_client_id cfg),
         cfg_oidc_tenant_id := env_or sys ''AZURE_TENANT_ID'' (cfg_oidc_tenant_id cfg)\<rparr>"

definition fetch_oidc :: "'w shell \<Rightarrow> 'j json_lib \<Rightarrow> Config \<Rightarrow> ('w, string) prog" where
  "fetch_oidc sh json cfg =
     (if cfg_token cfg = [] \<and> cfg_oidc_client_id cfg \<noteq> [] \<and> cfg_oidc_tenant_id cfg \<noteq> [] then
        bindP (doP (write_stderr (sh_net sh) (''Fetching Azure token via GitHub OIDC federation...'' @ [CHR 0x0A]))) (\<lambda>_.
        oidc_fetch_azure_token (sh_net sh) json (oidc_runtime (sys_getenv (sh_sys sh)))
          (cfg_oidc_client_id cfg) (cfg_oidc_tenant_id cfg))
      else retP (cfg_token cfg))"

definition fetch_cached :: "'w shell \<Rightarrow> 'j json_lib \<Rightarrow> string \<Rightarrow> ('w, string) prog" where
  "fetch_cached sh json token =
     (if token = [] then
        bindP (try_cached_refresh sh json) (\<lambda>token.
        bindP (if token \<noteq> [] then say sh ''Using cached login.'' else retP ()) (\<lambda>_. retP token))
      else retP token)"

definition authenticate :: "'w shell \<Rightarrow> 'j json_lib \<Rightarrow> Config \<Rightarrow> (Config \<Rightarrow> ('w, int) prog) \<Rightarrow> ('w, int) prog" where
  "authenticate sh json cfg k =
     (let cfg = env_config (sh_sys sh) cfg in
      or_exit sh (fetch_oidc sh json cfg) (\<lambda>token.
      or_exit sh (fetch_cached sh json token) (\<lambda>token.
      k (cfg\<lparr>cfg_token := token\<rparr>))))"

section \<open>Signing the files\<close>

definition missing_inputs :: "Config \<Rightarrow> string list \<Rightarrow> string list" where
  "missing_inputs cfg file_names =
     (if cfg_endpoint cfg = [] then [''--endpoint''] else []) @
     (if cfg_account cfg = [] then [''--account''] else []) @
     (if cfg_profile cfg = [] then [''--profile''] else []) @
     (if cfg_token cfg = []
      then [''authentication -- pass --token, set $AZURE_ACCESS_TOKEN, '' @
            ''use --oidc-* (in CI), or run `aas-sign login` first''] else []) @
     (if file_names = [] then [''input file''] else [])"

primrec report_missing :: "'w shell \<Rightarrow> string \<Rightarrow> string list \<Rightarrow> 'w \<Rightarrow> 'w" where
  "report_missing sh argv0 [] w = w"
| "report_missing sh argv0 (m # ms) w =
     report_missing sh argv0 ms (write_stderr (sh_net sh) (argv0 @ '': missing '' @ m @ [CHR 0x0A]) w)"

text \<open>What a worker does with file number \<open>i\<close>, between two calls of \<^verbatim>\<open>fetch_add\<close>\<close>

definition worker_item ::
  "'w host \<Rightarrow> 'w shell \<Rightarrow> 'j json_lib \<Rightarrow> Config \<Rightarrow> nat \<Rightarrow> string \<Rightarrow> ('w, SignResult) prog" where
  "worker_item host sh json cfg i file =
     (let fl = file_logger i file True in
      bindP (doP (set_log_buf host i [])) (\<lambda>_.
      bindP (doP (write_stderr (sh_net sh) (starting_line file))) (\<lambda>_.
      bindP (sign_one_file host sh json file cfg fl) (\<lambda>r.
      bindP (doP (flush_log host sh fl)) (\<lambda>_. retP r)))))"

definition summary :: "SignResult list \<Rightarrow> string \<times> int" where
  "summary rs =
     (let failures = filter (\<lambda>r. \<not> sr_ok r) rs;
          head = ''Signed '' @ to_string_nat (length (filter sr_ok rs)) @ ''/'' @ to_string_nat (length rs) @ '' files''
      in if failures = [] then (head @ '' successfully.'' @ [CHR 0x0A], 0)
         else (head @ ''. Failures:'' @ [CHR 0x0A] @
               concat (map (\<lambda>f. ''  '' @ sr_file f @ '': '' @ sr_error f @ [CHR 0x0A]) failures), 1))"

definition sign_all ::
  "'w host \<Rightarrow> 'w shell \<Rightarrow> 'j json_lib \<Rightarrow> Config \<Rightarrow> int \<Rightarrow> string list \<Rightarrow> ('w, int) prog" where
  "sign_all host sh json cfg max_parallel file_names =
     (case file_names of
        [file] \<Rightarrow>
          bindP (sign_one_file host sh json file cfg (file_logger 0 file False)) (\<lambda>r.
          retP (if sr_ok r then 0 else 1))
      | _ \<Rightarrow>
          (let n_files = length file_names; n_workers = min (nat max_parallel) n_files in
           bindP (host_threads host n_workers file_names
                    (map (\<lambda>(i, file). worker_item host sh json cfg i file) (enumerate 0 file_names))) (\<lambda>rs.
           case summary rs of (text, code) \<Rightarrow>
             bindP (doP (write_stderr (sh_net sh) text)) (\<lambda>_. retP code))))"

definition checked_sign_all ::
  "'w host \<Rightarrow> 'w shell \<Rightarrow> 'j json_lib \<Rightarrow> string \<Rightarrow> Config \<Rightarrow> int \<Rightarrow> string list \<Rightarrow> ('w, int) prog" where
  "checked_sign_all host sh json argv0 cfg max_parallel file_names =
     (if missing_inputs cfg file_names \<noteq> [] then
        bindP (doP (report_missing sh argv0 (missing_inputs cfg file_names))) (\<lambda>_.
        bindP (usage_short sh argv0) (\<lambda>_. retP 1))
      else if 1 < length file_names \<and> cfg_dump_cms cfg \<noteq> []
      then exit_with sh (''error: --dump-cms only supported when signing a single file'' @ [CHR 0x0A])
      else sign_all host sh json cfg max_parallel file_names)"

definition print_version :: "'w host \<Rightarrow> 'w shell \<Rightarrow> ('w, int) prog" where
  "print_version host sh =
     bindP (doP (write_stdout sh (''aas-sign '' @ AAS_SIGN_VERSION host @ [CHR 0x0A]))) (\<lambda>_. retP 0)"

definition sign_main :: "'w host \<Rightarrow> TlsSettings \<Rightarrow> 'j json_lib \<Rightarrow> string \<Rightarrow> string list \<Rightarrow> ('w, int) prog" where
  "sign_main host settings json argv0 args =
     (let sh = host_shell host settings in
      case sign_options args \<lparr>sa_cfg = initial_config settings, sa_files = [], sa_max_parallel = 8, sa_as = []\<rparr> of
        Sign_help \<Rightarrow> bindP (usage_full sh argv0) (\<lambda>_. retP 0)
      | Sign_version \<Rightarrow> print_version host sh
      | Sign_unknown a \<Rightarrow>
          bindP (doP (write_stderr (sh_net sh) (''unknown option: '' @ a @ [CHR 0x0A]))) (\<lambda>_.
          bindP (usage_short sh argv0) (\<lambda>_. retP 1))
      | Sign_parsed s \<Rightarrow>
          (case resolve_as (sa_as s) (sa_cfg s) of
             Inl msg \<Rightarrow> exit_with sh msg
           | Inr cfg \<Rightarrow>
               bindP (load_config sh json cfg) (\<lambda>cfg.
               or_exit sh (resolve_osslsigncode sh (cfg_osslsigncode cfg)) (\<lambda>tool.
               authenticate sh json (cfg\<lparr>cfg_osslsigncode := tool\<rparr>) (\<lambda>cfg.
               checked_sign_all host sh json argv0 cfg (sa_max_parallel s) (sa_files s))))))"

section \<open>Dispatch\<close>

text \<open>The arguments without the \<open>n\<close> from position \<open>i\<close>\<close>

definition erase_argv :: "nat \<Rightarrow> nat \<Rightarrow> string list \<Rightarrow> string list" where
  "erase_argv i n argv = take i argv @ drop (i + n) argv"

definition insecure_warning :: string where
  "insecure_warning = ''warning: --insecure: TLS certificate verification is disabled'' @ [CHR 0x0A]"

text \<open>The sweep over \<^verbatim>\<open>argv\<close>, which sets the TLS settings of the process\<close>

function sweep_loop :: "'w net \<Rightarrow> nat \<Rightarrow> string list \<Rightarrow> TlsSettings \<Rightarrow> 'w \<Rightarrow> string list \<times> TlsSettings \<times> 'w" where
  "sweep_loop net i argv settings w =
     (if \<not> i < length argv then (argv, settings, w)
      else if argv ! i = ''--insecure''
      then sweep_loop net i (erase_argv i 1 argv) (tls_disable_verification settings) (write_stderr net insecure_warning w)
      else if argv ! i = ''--cacert'' \<and> i + 1 < length argv
      then sweep_loop net i (erase_argv i 2 argv) (tls_set_ca_bundle (argv ! (i + 1)) settings) w
      else sweep_loop net (i + 1) argv settings w)"
  by pat_completeness auto
termination
  by (relation "measure (\<lambda>(net, i, argv, settings, w). length argv - i)") (auto simp: erase_argv_def)

declare sweep_loop.simps [simp del]

definition dispatch :: "'w host \<Rightarrow> TlsSettings \<Rightarrow> 'j json_lib \<Rightarrow> string \<Rightarrow> string list \<Rightarrow> ('w, int) prog" where
  "dispatch host settings json argv0 args =
     (let sh = host_shell host settings in
      case args of
        [] \<Rightarrow> bindP (usage_short sh argv0) (\<lambda>_. retP 1)
      | cmd # rest \<Rightarrow>
          if cmd = ''--help'' \<or> cmd = ''-h'' then bindP (usage_full sh argv0) (\<lambda>_. retP 0)
          else if cmd = ''--version'' then print_version host sh
          else if cmd = ''sign'' then sign_main host settings json argv0 rest
          else if cmd = ''login'' then login_main sh json rest
          else if cmd = ''logout'' then logout_main sh rest
          else if cmd = ''config'' then config_main sh json rest
          else
            bindP (doP (write_stderr (sh_net sh) (argv0 @ '': unknown subcommand: '' @ cmd @ [CHR 0x0A]))) (\<lambda>_.
            bindP (usage_short sh argv0) (\<lambda>_. retP 1)))"

definition aas_sign_main :: "'w host \<Rightarrow> 'j json_lib \<Rightarrow> string list \<Rightarrow> ('w, int) prog" where
  "aas_sign_main host json argv w =
     (case sweep_loop (sh_net (host_shell host tls_initial)) 1 argv tls_initial w of
        (argv, settings, w) \<Rightarrow> dispatch host settings json (hd argv) (tl argv) w)"

section \<open>Lemmas\<close>

lemma or_exit_0:
  assumes "or_exit sh m k w = Some (Inr 0, w')"
  obtains x u where "m w = Some (Inr x, u)" "k x u = Some (Inr 0, w')"
  using assms by (auto simp: or_exit_def exit_with_def bindP_def split: option.splits sum.splits)

lemma authenticate_0:
  assumes "authenticate sh json cfg k w = Some (Inr 0, w')"
  obtains cfg' u where "k cfg' u = Some (Inr 0, w')"
  using assms unfolding authenticate_def Let_def by (elim or_exit_0) (rule that)

lemma if_branches: "(if b then x else y) = z \<Longrightarrow> (x = z \<Longrightarrow> P) \<Longrightarrow> (y = z \<Longrightarrow> P) \<Longrightarrow> P"
  by (cases b) auto

lemma sign_options_bounds:
  "sign_options args s = Sign_parsed s' \<Longrightarrow> 1 \<le> sa_max_parallel s \<Longrightarrow>
   1 \<le> sa_max_parallel s' \<and> length (sa_files s') \<le> length (sa_files s) + length args"
proof (induction "length args" arbitrary: args s rule: less_induct)
  case less
  show ?case
  proof (cases args)
    case Nil
    with less.prems show ?thesis by simp
  next
    case (Cons a rest)
    have IH: "1 \<le> sa_max_parallel s' \<and> length (sa_files s') \<le> length (sa_files s) + length args"
      if "sign_options r s1 = Sign_parsed s'" "length r \<le> length rest" "1 \<le> sa_max_parallel s1"
        "length (sa_files s1) \<le> Suc (length (sa_files s))" for r s1
      using less.hyps [of r s1] that Cons by simp
    from less.prems show ?thesis
      unfolding Cons sign_options.simps
      by - (erule if_branches; ((erule IH [unfolded Cons]; simp; fail) | simp; fail)?)+
  qed
qed

text \<open>The fate of one file\<close>

lemma sign_one_file_result:
  assumes "sign_one_file host sh json file cfg fl w = Some (r, w')"
  obtains res where "r = Inr res" "sr_file res = file"
    "sr_ok res \<Longrightarrow> established sh (signing_options cfg) (azure_signer sh json cfg) file"
proof (cases "sign_file sh (host_msi host) file (signing_options cfg) (azure_signer sh json cfg) (log_line host sh fl) w")
  case None
  with assms show thesis by (simp add: sign_one_file_def catchP_def bindP_def)
next
  case (Some out)
  obtain o' u where out: "out = (o', u)" by fastforce
  show thesis
  proof (cases o')
    case (Inl e)
    with assms Some out that show thesis by (auto simp: sign_one_file_def catchP_def bindP_def)
  next
    case (Inr x)
    then have "established sh (signing_options cfg) (azure_signer sh json cfg) file"
      using Some out by (intro sign_file_establishes) simp
    with assms Some out Inr that show thesis by (auto simp: sign_one_file_def catchP_def bindP_def)
  qed
qed

lemma worker_item_result:
  assumes "worker_item host sh json cfg i file w = Some (Inr res, w')" "sr_ok res"
  shows "established sh (signing_options cfg) (azure_signer sh json cfg) file"
proof -
  obtain u v where "sign_one_file host sh json file cfg (file_logger i file True) u = Some (Inr res, v)"
    using assms(1) unfolding worker_item_def Let_def by (auto simp: bindP_Inr_iff)
  then show ?thesis using assms(2) by (elim sign_one_file_result) simp
qed

lemma summary_0: "summary rs = (text, 0) \<Longrightarrow> r \<in> set rs \<Longrightarrow> sr_ok r"
  by (auto simp: summary_def Let_def filter_empty_conv split: if_splits)

text \<open>
  What is relied on of the threads: they run the loop of the workers over the shared counter, in
  any interleaving, and are joined at the end. The result of a file is one that signing it can
  have.
\<close>

definition thread_contract :: "'w host \<Rightarrow> bool" where
  "thread_contract host \<longleftrightarrow>
     (\<forall>n_workers names items w rs w'. host_threads host n_workers names items w = Some (Inr rs, w') \<longrightarrow>
        (\<exists>s k. pool_reaches names (\<lambda>i r block. \<exists>u u'. (items ! i) u = Some (Inr r, u')) n_workers s k \<and>
           joined s \<and> results s = rs))"

lemma sign_all_0:
  assumes "thread_contract host" "sign_all host sh json cfg max_parallel file_names w = Some (Inr 0, w')"
    and "1 \<le> max_parallel" "file_names \<noteq> []" "length file_names < 2 ^ 63" "file \<in> set file_names"
  shows "established sh (signing_options cfg) (azure_signer sh json cfg) file"
proof (cases "length file_names = 1")
  case True
  with assms(6) have f: "file_names = [file]" by (cases file_names) auto
  from assms(2) obtain r u where "sign_one_file host sh json file cfg (file_logger 0 file False) w = Some (Inr r, u)" "sr_ok r"
    by (auto simp: f sign_all_def bindP_Inr_iff split: if_splits)
  then show ?thesis by (elim sign_one_file_result) simp
next
  case False
  let ?items = "map (\<lambda>(i, file). worker_item host sh json cfg i file) (enumerate 0 file_names)"
  let ?n = "min (nat max_parallel) (length file_names)"
  from False have eq: "sign_all host sh json cfg max_parallel file_names =
      bindP (host_threads host ?n file_names ?items) (\<lambda>rs. case summary rs of (text, code) \<Rightarrow>
        bindP (doP (write_stderr (sh_net sh) text)) (\<lambda>_. retP code))"
    by (auto simp: sign_all_def Let_def split: list.splits)
  from assms(2) [unfolded eq] obtain rs u where t: "host_threads host ?n file_names ?items w = Some (Inr rs, u)"
    and "(case summary rs of (msg, code) \<Rightarrow> bindP (doP (write_stderr (sh_net sh) msg)) (\<lambda>_. retP code)) u = Some (Inr 0, w')"
    by (subst (asm) bindP_Inr_iff) blast
  then obtain msg where s: "summary rs = (msg, 0)" by (cases "summary rs") simp
  from t assms(1) obtain s k where p: "pool_reaches file_names (\<lambda>i r block. \<exists>u u'. (?items ! i) u = Some (Inr r, u')) ?n s k"
    "joined s" "results s = rs" unfolding thread_contract_def by blast
  obtain i where i: "i < length file_names" "file_names ! i = file" using assms(6) by (auto simp: in_set_conv_nth)
  have n: "0 < ?n" "length file_names + ?n < 2 ^ 64" using assms(3,4,5) by (auto simp: min_def)
  have "length rs = length file_names" using pool_reaches_inv [OF p(1) n(2)] p(3) by (auto simp: pool_shows_def)
  then have "sr_ok (rs ! i)" using summary_0 [OF s] i(1) by simp
  moreover obtain u u' where "(?items ! i) u = Some (Inr (rs ! i), u')"
    using joined_result [OF p(1,2) n i(1)] p(3) by auto
  then have "worker_item host sh json cfg i file u = Some (Inr (rs ! i), u')" using i by (simp add: nth_enumerate_eq)
  ultimately show ?thesis by (rule worker_item_result [rotated])
qed

text \<open>The sweep as one pass over the arguments: what is kept, the settings, and how often it warns\<close>

fun swept :: "string list \<Rightarrow> TlsSettings \<Rightarrow> string list \<times> TlsSettings \<times> nat" where
  "swept [] settings = ([], settings, 0)"
| "swept (a # rest) settings =
     (if a = ''--insecure'' then
        (case swept rest (tls_disable_verification settings) of (kept, s, n) \<Rightarrow> (kept, s, Suc n))
      else if a = ''--cacert'' \<and> rest \<noteq> [] then swept (tl rest) (tls_set_ca_bundle (hd rest) settings)
      else (case swept rest settings of (kept, s, n) \<Rightarrow> (a # kept, s, n)))"

lemma sweep_loop_swept:
  "sweep_loop net (length pre) (pre @ args) settings w =
    (case swept args settings of (kept, s, n) \<Rightarrow> (pre @ kept, s, (write_stderr net insecure_warning ^^ n) w))"
proof (induction args settings arbitrary: pre w rule: swept.induct)
  case (1 settings)
  show ?case by (simp add: sweep_loop.simps)
next
  case (2 a rest settings)
  consider "a = ''--insecure''" | "a \<noteq> ''--insecure''" "a = ''--cacert'' \<and> rest \<noteq> []"
    | "a \<noteq> ''--insecure''" "\<not> (a = ''--cacert'' \<and> rest \<noteq> [])" by blast
  then show ?case
  proof cases
    case 1
    then show ?thesis
      using 2(1) [OF 1] by (subst sweep_loop.simps) (simp add: erase_argv_def funpow_Suc_right split: prod.splits del: funpow.simps)
  next
    case c: 2
    then obtain v rest' where r: "rest = v # rest'" by (cases rest) auto
    from c 2(2) [OF c, of pre w] show ?thesis
      by (subst sweep_loop.simps) (simp add: erase_argv_def nth_append r)
  next
    case c: 3
    have "sweep_loop net (length pre) (pre @ a # rest) settings w = sweep_loop net (length (pre @ [a])) ((pre @ [a]) @ rest) settings w"
      using c by (subst sweep_loop.simps) (auto simp: nth_append)
    also have "\<dots> = (case swept rest settings of (kept, s, n) \<Rightarrow> ((pre @ [a]) @ kept, s, (write_stderr net insecure_warning ^^ n) w))"
      by (rule 2(3) [OF c])
    also have "\<dots> = (case swept (a # rest) settings of (kept, s, n) \<Rightarrow> (pre @ kept, s, (write_stderr net insecure_warning ^^ n) w))"
      unfolding swept.simps if_not_P [OF c(1)] if_not_P [OF c(2)] by (simp split: prod.splits)
    finally show ?thesis .
  qed
qed

text \<open>The configuration is either the one given or the one filled from the file that was read\<close>

lemma load_config_result:
  assumes "load_config sh json cfg w = Some (r, w')"
  obtains "r = Inr cfg" | j where "r = Inr (snd (fill_fields json j default_fields cfg))"
proof (cases "config_dir (sh_sys sh) w")
  case None
  with assms show thesis by (simp add: load_config_def catchP_def bindP_def)
next
  case (Some out)
  obtain d v where out: "out = (d, v)" by fastforce
  show thesis
  proof (cases d)
    case (Inl e)
    with assms Some out that(1) show thesis by (simp add: load_config_def catchP_def bindP_def config_warning_def)
  next
    case dir: (Inr dir)
    show thesis
    proof (cases "read_text sh (dir @ ''/config.json'') v")
      case None
      with assms Some out dir that(1) show thesis by (simp add: load_config_def catchP_def bindP_def)
    next
      case txt': (Some input)
      show thesis
      proof (cases "json_read json input")
        case (Inl e)
        with assms Some out dir txt' that(1) show thesis
          by (simp add: load_config_def catchP_def bindP_def config_warning_def)
      next
        case (Inr j)
        then show thesis
          using assms Some out dir txt' that(2) [of j]
          by (cases "fill_fields json j default_fields cfg"; cases "fst (fill_fields json j default_fields cfg)")
            (simp_all add: load_config_def catchP_def bindP_def config_warning_def)
      qed
    qed
  qed
qed

section \<open>Properties\<close>


text \<open>
  C34: the global flags work anywhere on the command line and nowhere else. Whatever stands
  between them, the subcommand gets exactly the arguments that a single pass keeps, in order, under
  the settings this pass computes; the warning is printed once for each
  \<^verbatim>\<open>--insecure\<close>, and nothing else happens before the dispatch.
\<close>

theorem global_flags_swept:
  "aas_sign_main host json (argv0 # args) w =
    (case swept args tls_initial of (kept, settings, n) \<Rightarrow>
       dispatch host settings json argv0 kept
         ((write_stderr (sh_net (host_shell host tls_initial)) insecure_warning ^^ n) w))"
  using sweep_loop_swept [of "sh_net (host_shell host tls_initial)" "[argv0]" args tls_initial w]
  by (auto simp: aas_sign_main_def split: prod.splits)

text \<open>
  \<^verbatim>\<open>config.json\<close> only fills gaps. Reading it never stops the program; whatever
  the command line has given stays, whether the file can be read or not, and of the rest only
  the endpoint, the account and the profile can change.
\<close>

theorem config_fills_gaps:
  assumes "load_config sh json cfg w = Some (r, w')"
  shows "\<exists>e a p. r = Inr (cfg\<lparr>cfg_endpoint := e, cfg_account := a, cfg_profile := p\<rparr>) \<and>
    (cfg_endpoint cfg \<noteq> [] \<longrightarrow> e = cfg_endpoint cfg) \<and> (cfg_account cfg \<noteq> [] \<longrightarrow> a = cfg_account cfg) \<and>
    (cfg_profile cfg \<noteq> [] \<longrightarrow> p = cfg_profile cfg)"
proof -
  let ?fills = "\<lambda>c. \<exists>e a p. c = cfg\<lparr>cfg_endpoint := e, cfg_account := a, cfg_profile := p\<rparr> \<and>
    (cfg_endpoint cfg \<noteq> [] \<longrightarrow> e = cfg_endpoint cfg) \<and> (cfg_account cfg \<noteq> [] \<longrightarrow> a = cfg_account cfg) \<and>
    (cfg_profile cfg \<noteq> [] \<longrightarrow> p = cfg_profile cfg)"
  have same: "?fills cfg"
    by (intro exI [of _ "cfg_endpoint cfg"] exI [of _ "cfg_account cfg"] exI [of _ "cfg_profile cfg"]) simp
  have filled: "?fills (snd (fill_fields json j default_fields cfg))" for j
    using same by (cases cfg) (auto simp: default_fields_def split: sum.splits)
  from assms consider "r = Inr cfg" | j where "r = Inr (snd (fill_fields json j default_fields cfg))"
    by (rule load_config_result)
  then show ?thesis using same filled by cases auto
qed

section \<open>A concrete run\<close>

text \<open>
  The sample host of the signing theories with threads that take the files one after another. The
  run is that of a command line with one package, a service that answers at once, and the sample
  companion.
\<close>

primrec run_items :: "('w, 'a) prog list \<Rightarrow> ('w, 'a list) prog" where
  "run_items [] = retP []"
| "run_items (m # ms) = bindP m (\<lambda>r. bindP (run_items ms) (\<lambda>rs. retP (r # rs)))"

definition demo_threads :: "nat \<Rightarrow> string list \<Rightarrow> ('w, SignResult) prog list \<Rightarrow> ('w, SignResult list) prog" where
  "demo_threads n names items =
     (if 0 < n \<and> length names + n < 2 ^ 64 \<and> length items = length names then run_items items else (\<lambda>w. None))"

definition demo_system :: "bytes \<Rightarrow> demo_world host" where
  "demo_system cms =
     \<lparr>host_shell = (\<lambda>_. demo_host cms), host_msi = undefined, host_threads = demo_threads, log_buf = (\<lambda>_ _. []),
      set_log_buf = (\<lambda>_ _ w. w), AAS_SIGN_VERSION = ''1''\<rparr>"

lemma run_items_results:
  "run_items ms w = Some (Inr rs, w') \<Longrightarrow>
   length rs = length ms \<and> (\<forall>i < length ms. \<exists>u u'. (ms ! i) u = Some (Inr (rs ! i), u'))"
proof (induction ms arbitrary: w rs)
  case Nil
  then show ?case by simp
next
  case (Cons m ms)
  from Cons.prems obtain r v rest where r: "m w = Some (Inr r, v)" "run_items ms v = Some (Inr rest, w')" "rs = r # rest"
    by (auto simp: bindP_Inr_iff)
  from Cons.IH [OF r(2)] r(1,3) show ?case by (auto simp: nth_Cons split: nat.splits)
qed

lemma demo_thread_contract: "thread_contract (demo_system cms)"
  unfolding thread_contract_def
proof (intro allI impI)
  fix n_workers names items w rs w'
  assume "host_threads (demo_system cms) n_workers names items w = Some (Inr rs, w')"
  then have a: "0 < n_workers" "length names + n_workers < 2 ^ 64" "length items = length names" "run_items items w = Some (Inr rs, w')"
    by (auto simp: demo_system_def demo_threads_def split: if_splits)
  show "\<exists>s k. pool_reaches names (\<lambda>i r block. \<exists>u u'. (items ! i) u = Some (Inr r, u')) n_workers s k \<and> joined s \<and> results s = rs"
    using run_items_results [OF a(4)] a(3) by (intro pool_any_results [OF a(1,2)]) simp_all
qed

abbreviation demo_args :: "string list" where
  "demo_args \<equiv> [''--endpoint'', ''h'', ''--account'', ''a'', ''--profile'', ''p'', ''--token'', ''t'', ''--timestamp-url'', ''u'',
     ''--no-timestamp'', ''--osslsigncode'', demo_tool, ''a.msix'']"

abbreviation demo_config :: Config where
  "demo_config \<equiv> (initial_config tls_initial)\<lparr>cfg_endpoint := ''h'', cfg_account := ''a'', cfg_profile := ''p'', cfg_token := ''t'',
     cfg_timestamp_url := ''u'', cfg_no_timestamp := True, cfg_osslsigncode := demo_tool\<rparr>"

lemma demo_parsed:
  "sign_options demo_args \<lparr>sa_cfg = initial_config tls_initial, sa_files = [], sa_max_parallel = 8, sa_as = []\<rparr> =
     Sign_parsed \<lparr>sa_cfg = demo_config, sa_files = [''a.msix''], sa_max_parallel = 8, sa_as = []\<rparr>"
  by (simp add: not_dashed_def initial_config_def)

lemma demo_signed_fields:
  "json_parse flat_lib demo_signed =
     Inr (Some [(''status'', ''Succeeded''), (''signature'', ''AQ''), (''signingCertificate'', ''TUFzd0NRSUJCVEFBTUFJeEFBPT0'')])"
  "base64_decode ''AQ'' = [1]"
  "base64_mime_decode (string_of_bytes (base64_decode ''TUFzd0NRSUJCVEFBTUFJeEFBPT0'')) = sample_cert"
  "\<not> chunked (demo_reply demo_signed)"
  by code_simp+

lemma demo_host_net: "sh_net (demo_host cms) = demo_net (demo_reply demo_signed)"
  by (simp add: demo_host_def demo_shell_def)

lemma demo_azure_signer:
  "azure_signer (demo_host cms) flat_lib demo_config digest (x, c, f) =
     Some (Inr \<lparr>signature = [1], cert_chain_der = sample_cert\<rparr>, (x, c, True))"
proof -
  have "https_post (demo_net (demo_reply demo_signed)) host path token bd (x, c, f) =
      Some (Inr \<lparr>status = 200, body = demo_signed\<rparr>, (x, c, True))" for host path token bd
    by (rule demo_https(2) [OF _ demo_reply_parse [OF demo_signed_fields(4)]]) (simp add: demo_reply_def)
  then show ?thesis
    unfolding azure_signer_def azure_sign_def Let_def demo_host_net
    by (simp add: bindP_def demo_signed_fields poll_loop.simps read_result_def flat_lib_def [THEN arg_cong, of json_value]
        flat_lib_def [THEN arg_cong, of json_get_string])
qed

lemma demo_load_config:
  "load_config (demo_host cms) flat_lib cfg (([demo_tool \<mapsto> [], ''a.msix'' \<mapsto> demo_package], h), c, f) =
     Some (Inr cfg, (([demo_tool \<mapsto> [], ''a.msix'' \<mapsto> demo_package], h), c, f))"
  by (simp add: load_config_def config_dir_def config_base_def demo_host_simps bindP_def catchP_def ignoreP_def
      demo_sys_def sample_sys_def on_fst_def)
    (simp add: demo_host_def demo_shell_def)

lemma demo_commands:
  "check_commands demo_help [''extract-data'', ''attach-signature'', ''extract-signature'', ''remove-signature'', ''-ts''] = Inr ()"
  by code_simp

lemma demo_resolve:
  assumes "fs demo_tool = Some x"
  shows "resolve_osslsigncode (demo_host cms) demo_tool ((fs, h), c, f) = Some (Inr demo_tool, ((fs, h(99 := None)), c, True))"
  by (simp add: resolve_osslsigncode_def locate_osslsigncode_def bindP_def demo_host_find [where x = x and fs = fs, OF assms]
      demo_host_run [where x = x and fs = fs, OF assms] demo_commands del: check_commands.simps)

lemma demo_authenticate:
  "authenticate (demo_host cms) json demo_config k w = k demo_config w"
proof -
  have "env_config (sh_sys (demo_host cms)) demo_config = demo_config"
    by (simp add: env_config_def env_or_def demo_host_simps demo_sys_def sample_sys_def initial_config_def)
  then show ?thesis
    by (simp add: authenticate_def or_exit_def fetch_oidc_def fetch_cached_def initial_config_def)
qed

lemma demo_sign_main:
  assumes "cms_build_authenticode sample_sha sample_idc [1] sample_cert = Inr cms"
    "cms_auth_attrs_hash sample_sha sample_idc = Inr digest"
    "cms_has_signer cms = Inr True" "cms_extract_indirect_data cms = Inr sample_idc" "cms \<noteq> []" "length cms \<le> 1000"
  shows "\<exists>w'. sign_main (demo_system cms) tls_initial flat_lib ''aas-sign'' demo_args demo_input = Some (Inr 0, w')"
proof -
  let ?sh = "demo_host cms"
  let ?fs = "[demo_tool \<mapsto> [], ''a.msix'' \<mapsto> demo_package]"
  have d: "host_msi (demo_system cms) = undefined" "host_shell (demo_system cms) settings = ?sh" for settings
    by (simp_all add: demo_system_def)
  have o: "signing_options demo_config = demo_options"
    by (simp add: signing_options_def initial_config_def tls_initial_def)
  have l: "log_line (demo_system cms) ?sh (file_logger 0 name False) = demo_log" for name
    by (rule ext, rule ext) (simp add: log_line_def file_logger_def demo_host_net demo_net_def)
  obtain w' where s: "sign_file ?sh undefined ''a.msix'' demo_options (azure_signer ?sh flat_lib demo_config) demo_log
      ((?fs, Map.empty(99 := None)), 0, True) = Some (Inr (), w')"
    using demo_sign_file [where sign = "azure_signer ?sh flat_lib demo_config" and g = "\<lambda>f. True", OF assms demo_azure_signer] by blast
  have one: "sign_one_file (demo_system cms) ?sh flat_lib ''a.msix'' demo_config (file_logger 0 ''a.msix'' False)
      ((?fs, Map.empty(99 := None)), 0, True) = Some (Inr \<lparr>sr_file = ''a.msix'', sr_ok = True, sr_error = []\<rparr>, w')"
    unfolding sign_one_file_def catchP_def bindP_def o l d by (simp add: s [simplified])
  have m: "missing_inputs demo_config [''a.msix''] = []"
    by (simp add: missing_inputs_def initial_config_def)
  have "cfg_osslsigncode demo_config = demo_tool" by simp
  then show ?thesis
    unfolding sign_main_def demo_parsed Let_def
    by (simp add: resolve_as_def demo_load_config bindP_def or_exit_def d demo_resolve demo_authenticate checked_sign_all_def
       m sign_all_def one [simplified])
      (metis surj_pair)
qed


text \<open>A file that names another endpoint, and an account\<close>

abbreviation demo_gaps :: Config where
  "demo_gaps \<equiv> (initial_config tls_initial)\<lparr>cfg_endpoint := ''h''\<rparr>"

abbreviation demo_config_file :: demo_world where
  "demo_config_file \<equiv> demo_files [''/h/.config/aas-sign/config.json'' \<mapsto> bytes_of_string ''endpoint=x;account=b;'']"

lemma demo_config_text: "json_read flat_lib (string_of_bytes (bytes_of_string ''endpoint=x;account=b;'')) =
    Inr (Some [(''endpoint'', ''x''), (''account'', ''b'')])"
  by code_simp

lemma demo_fill:
  "load_config (demo_host []) flat_lib demo_gaps demo_config_file = Some (Inr (demo_gaps\<lparr>cfg_account := ''b''\<rparr>), demo_config_file)"
proof -
  have d: "config_dir (sh_sys (demo_host [])) demo_config_file = Some (Inr ''/h/.config/aas-sign'', demo_config_file)"
    by (simp add: config_dir_def config_base_def demo_host_simps bindP_def ignoreP_def demo_sys_def sample_sys_def on_fst_def)
  have r: "read_text (demo_host []) (''/h/.config/aas-sign'' @ ''/config.json'') demo_config_file =
      Some (string_of_bytes (bytes_of_string ''endpoint=x;account=b;''))"
    by (simp add: demo_host_def demo_shell_def)
  have f: "fill_fields flat_lib (Some [(''endpoint'', ''x''), (''account'', ''b'')]) default_fields demo_gaps =
      (None, demo_gaps\<lparr>cfg_account := ''b''\<rparr>)"
    by (simp add: default_fields_def initial_config_def flat_lib_def)
  show ?thesis
    unfolding load_config_def catchP_def bindP_apply(3) [where m = "config_dir (sh_sys (demo_host []))" and w = demo_config_file, OF d] r
    by (simp add: demo_config_text [simplified] f)
qed

theorem config_fills_gaps_witness:
  "\<exists>a p. load_config (demo_host []) flat_lib demo_gaps demo_config_file =
     Some (Inr (demo_gaps\<lparr>cfg_endpoint := ''h'', cfg_account := a, cfg_profile := p\<rparr>), demo_config_file)"
proof -
  obtain e a p where r: "Inr (demo_gaps\<lparr>cfg_account := ''b''\<rparr>) = (Inr (demo_gaps\<lparr>cfg_endpoint := e, cfg_account := a, cfg_profile := p\<rparr>) :: Config result)"
    "cfg_endpoint demo_gaps \<noteq> [] \<longrightarrow> e = cfg_endpoint demo_gaps"
    using config_fills_gaps [OF demo_fill] by blast
  then have "e = ''h''" by simp
  with demo_fill r(1) show ?thesis by (simp only:) blast
qed

end
