(* ===== verification/Windows_Base.thy ===== *)
theory Windows_Base
  imports Effects
begin

text \<open>
  What the Windows platform layer (\<^verbatim>\<open>src/src/win32.cpp\<close>) is built from: wide strings,
  error codes and their texts, the conversions between UTF-8 and UTF-16, system calls that fail
  with an error code, and handles that are closed at the end of their scope.

  A \<^verbatim>\<open>std::wstring\<close> is a list of 16-bit words. The conversions and the message table
  are functions of the system; they are parameters.
\<close>

section \<open>Wide strings\<close>

type_synonym wide = "16 word list"
type_synonym dword = "32 word"

text \<open>A literal \<^verbatim>\<open>L"..."\<close>\<close>

definition lit :: "string \<Rightarrow> wide" where
  "lit s = map (\<lambda>c. of_char c) s"

text \<open>
  \<^verbatim>\<open>std::wstring(s.begin(), s.end())\<close> widens each \<^verbatim>\<open>char\<close>, which is
  signed on these targets: a byte of a multi-byte sequence is sign-extended, not decoded.
\<close>

definition to_wide :: "string \<Rightarrow> wide" where
  "to_wide s = map (\<lambda>c. scast (byte_of_char c)) s"

section \<open>Errors\<close>

abbreviation "ERROR_FILE_NOT_FOUND \<equiv> (2 :: dword)"
abbreviation "ERROR_PATH_NOT_FOUND \<equiv> (3 :: dword)"
abbreviation "ERROR_BROKEN_PIPE \<equiv> (109 :: dword)"
abbreviation "ERROR_ALREADY_EXISTS \<equiv> (183 :: dword)"
abbreviation "ERROR_UNABLE_TO_MOVE_REPLACEMENT_2 \<equiv> (1177 :: dword)"

text \<open>
  The functions of the system on texts: the table of messages (with or without that of
  \<^verbatim>\<open>winhttp.dll\<close>), the lenient conversion of a message, and the strict conversions.
\<close>

record win =
  winhttp_module :: bool
  format_message :: "bool \<Rightarrow> dword \<Rightarrow> wide option"
  lenient_utf8 :: "wide \<Rightarrow> string"
  decode_utf8 :: "string \<Rightarrow> wide option"
  encode_utf8 :: "wide \<Rightarrow> dword + string"

definition strip_end :: "wide \<Rightarrow> wide" where
  "strip_end buf = rev (dropWhile (\<lambda>c. c \<in> {0x0D, 0x0A, 0x2E, 0x20}) (rev buf))"

definition win_error :: "win \<Rightarrow> dword \<Rightarrow> string" where
  "win_error win code =
     ''Win32 error '' @ to_string_nat (unat code) @
     (case format_message win (12000 \<le> code \<and> code \<le> 12175 \<and> winhttp_module win) code of
        None \<Rightarrow> []
      | Some buf \<Rightarrow>
          (let text = strip_end buf; utf8 = lenient_utf8 win text in
           if text \<noteq> [] \<and> utf8 \<noteq> [] then '' ('' @ utf8 @ '')'' else []))"

text \<open>\<^verbatim>\<open>std::hex\<close>\<close>

fun hex_number :: "nat \<Rightarrow> string" where
  "hex_number n =
     (let d = char_of (if n mod 16 < 10 then 48 + n mod 16 else 87 + n mod 16) in
      if n < 16 then [d] else hex_number (n div 16) @ [d])"

declare hex_number.simps [simp del]

definition nt_error :: "dword \<Rightarrow> string" where
  "nt_error status = ''NTSTATUS 0x'' @ hex_number (unat status)"

definition utf8_to_wide :: "win \<Rightarrow> string \<Rightarrow> wide result" where
  "utf8_to_wide win s =
     (if s = [] then Inr []
      else if 0x7FFFFFFF < length s then throw ''UTF-8 -> UTF-16: input exceeds Windows limit''
      else case decode_utf8 win s of
        None \<Rightarrow> throw ''UTF-8 -> UTF-16 conversion failed''
      | Some w \<Rightarrow> Inr w)"

definition from_wide :: "win \<Rightarrow> wide \<Rightarrow> string result" where
  "from_wide win s =
     (if s = [] then Inr []
      else case encode_utf8 win s of
        Inl code \<Rightarrow> throw (''UTF-16 -> UTF-8: '' @ win_error win code)
      | Inr utf8 \<Rightarrow> Inr utf8)"

section \<open>Calls and handles\<close>

text \<open>
  A call returns its result or the code that \<^verbatim>\<open>GetLastError\<close> gives after it.
  A \<^verbatim>\<open>ScopedHandle\<close> is closed when its scope is left, normally or by an exception.
\<close>

type_synonym ('w, 'a) wincall = "'w \<Rightarrow> (dword + 'a) \<times> 'w"

definition winP :: "('w, 'a) wincall \<Rightarrow> (dword \<Rightarrow> string) \<Rightarrow> ('w, 'a) prog" where
  "winP call msg w =
     (case call w of (Inl e, w') \<Rightarrow> Some (throw (msg e), w') | (Inr x, w') \<Rightarrow> Some (Inr x, w'))"

definition doneP :: "('w, 'a) wincall \<Rightarrow> ('w, unit) prog" where
  "doneP call w = Some (Inr (), snd (call w))"

definition scoped :: "('w \<Rightarrow> 'w) \<Rightarrow> ('w, 'a) prog \<Rightarrow> ('w, 'a) prog" where
  "scoped leave m w = (case m w of None \<Rightarrow> None | Some (r, w') \<Rightarrow> Some (r, leave w'))"

text \<open>A clean-up that is only needed when an exception leaves the scope\<close>

definition on_throw :: "('w \<Rightarrow> 'w) \<Rightarrow> ('w, 'a) prog \<Rightarrow> ('w, 'a) prog" where
  "on_throw leave m w =
     (case m w of
        None \<Rightarrow> None
      | Some (Inl e, w') \<Rightarrow> Some (Inl e, leave w')
      | Some (Inr x, w') \<Rightarrow> Some (Inr x, w'))"

section \<open>Lemmas\<close>

lemma on_throw_Inr_iff [result_iff]:
  "on_throw leave m w = Some (Inr x, w') \<longleftrightarrow> m w = Some (Inr x, w')"
  by (auto simp: on_throw_def split: option.splits sum.splits)

lemma scoped_Inr_iff [result_iff]:
  "scoped leave m w = Some (Inr x, w'') \<longleftrightarrow> (\<exists>w'. m w = Some (Inr x, w') \<and> w'' = leave w')"
  by (auto simp: scoped_def split: option.splits)

lemma returnsP_winP [wp]:
  "returnsP (winP call msg) Q w \<longleftrightarrow>
    (case call w of (Inl e, w') \<Rightarrow> Q (throw (msg e)) w' | (Inr x, w') \<Rightarrow> Q (Inr x) w')"
  by (auto simp: returnsP_def winP_def split: prod.splits sum.splits)

lemma returnsP_doneP [wp]: "returnsP (doneP call) Q w \<longleftrightarrow> Q (Inr ()) (snd (call w))"
  by (simp add: returnsP_def doneP_def)

lemma returnsP_scoped [wp]:
  "returnsP (scoped leave m) Q w \<longleftrightarrow> returnsP m (\<lambda>r w'. Q r (leave w')) w"
  by (auto simp: returnsP_def scoped_def split: option.splits)

lemma winP_Inr_iff [result_iff]:
  "winP call msg w = Some (Inr x, w') \<longleftrightarrow> call w = (Inr x, w')"
  by (auto simp: winP_def split: prod.splits sum.splits)

lemma doneP_iff [result_iff]: "doneP call w = Some (Inr u, w') \<longleftrightarrow> w' = snd (call w)"
  by (auto simp: doneP_def)

lemma keeps_winP: "(\<And>w. I w \<Longrightarrow> I (snd (call w))) \<Longrightarrow> keeps I (winP call msg)"
  by (force simp: keeps_def winP_def split: prod.splits sum.splits)

lemma keeps_doneP: "(\<And>w. I w \<Longrightarrow> I (snd (call w))) \<Longrightarrow> keeps I (doneP call)"
  by (auto simp: keeps_def doneP_def)

lemma keeps_scoped:
  assumes "keeps I m" "\<And>w. I w \<Longrightarrow> I (leave w)"
  shows "keeps I (scoped leave m)"
  unfolding keeps_def scoped_def using assms by (auto split: option.splits dest: keepsD)

lemma scoped_Some_iff:
  "scoped leave m w = Some (r, w'') \<longleftrightarrow> (\<exists>w'. m w = Some (r, w') \<and> w'' = leave w')"
  by (auto simp: scoped_def split: option.splits)

lemma length_lit [simp]: "length (lit s) = length s"
  by (simp add: lit_def)

lemma lit_append: "lit (s @ t) = lit s @ lit t"
  by (simp add: lit_def)

end
