(* ===== verification/Windows_Files.thy ===== *)
theory Windows_Files
  imports Windows_Base Pe
begin

text \<open>
  The file operations of \<^verbatim>\<open>src/src/win32.cpp\<close>: random access, whole files, copies, the
  replacement of a file with its backup, and the identity of files. The system calls are a record
  of functions on the world; a handle is a number, and \<^verbatim>\<open>INVALID_HANDLE_VALUE\<close> is the
  failure of the call that would return it. A size that is checked or clamped before use is a natural
  number; offsets are 64-bit words, split into two halves for the calls.
\<close>

section \<open>System calls\<close>

datatype access = GENERIC_READ | GENERIC_WRITE | FILE_READ_ATTRIBUTES
datatype share = FILE_SHARE_READ | FILE_SHARE_WRITE | FILE_SHARE_DELETE
datatype disposition = OPEN_EXISTING | CREATE_ALWAYS
datatype file_flags = FILE_ATTRIBUTE_NORMAL | FILE_FLAG_BACKUP_SEMANTICS
datatype move_flags = MOVEFILE_REPLACE_EXISTING | MOVEFILE_WRITE_THROUGH

abbreviation "FILE_ATTRIBUTE_READONLY \<equiv> (0x1 :: dword)"
abbreviation "FILE_ATTRIBUTE_DIRECTORY \<equiv> (0x10 :: dword)"
abbreviation "FILE_ATTRIBUTE_REPARSE_POINT \<equiv> (0x400 :: dword)"

record file_information =
  volume_serial :: dword
  index_high :: dword
  index_low :: dword

record 'w winfs =
  wf_win :: win
  create_file :: "wide \<Rightarrow> access list \<Rightarrow> share list \<Rightarrow> bool \<Rightarrow> disposition \<Rightarrow> file_flags \<Rightarrow> ('w, nat) wincall"
  close_handle :: "nat \<Rightarrow> ('w, unit) wincall"
  get_file_size :: "nat \<Rightarrow> ('w, 64 word) wincall"
  read_file_at :: "nat \<Rightarrow> nat \<Rightarrow> dword \<Rightarrow> dword \<Rightarrow> ('w, bytes) wincall"
  write_file_at :: "nat \<Rightarrow> bytes \<Rightarrow> dword \<Rightarrow> dword \<Rightarrow> ('w, nat) wincall"
  write_file :: "nat \<Rightarrow> bytes \<Rightarrow> ('w, nat) wincall"
  set_file_pointer :: "nat \<Rightarrow> 64 word \<Rightarrow> ('w, unit) wincall"
  set_end_of_file :: "nat \<Rightarrow> ('w, unit) wincall"
  flush_file_buffers :: "nat \<Rightarrow> ('w, unit) wincall"
  move_file :: "wide \<Rightarrow> wide \<Rightarrow> move_flags \<Rightarrow> ('w, unit) wincall"
  delete_file :: "wide \<Rightarrow> ('w, unit) wincall"
  get_file_attributes :: "wide \<Rightarrow> ('w, dword) wincall"
  copy_existing_file :: "wide \<Rightarrow> wide \<Rightarrow> ('w, unit) wincall"
  replace_existing_file :: "wide \<Rightarrow> wide \<Rightarrow> wide \<Rightarrow> ('w, unit) wincall"
  get_file_information :: "nat \<Rightarrow> ('w, file_information) wincall"
  gen_random :: "('w, bytes) wincall"

definition win_msg :: "'w winfs \<Rightarrow> string \<Rightarrow> string \<Rightarrow> dword \<Rightarrow> string" where
  "win_msg fs op path e = op @ '' '' @ path @ '': '' @ win_error (wf_win fs) e"

definition close_now :: "'w winfs \<Rightarrow> nat \<Rightarrow> 'w \<Rightarrow> 'w" where
  "close_now fs h w = snd (close_handle fs h w)"

section \<open>Random access\<close>

definition win_open_file :: "'w winfs \<Rightarrow> string \<Rightarrow> ('w, nat) prog" where
  "win_open_file fs path =
     bindP (liftP (utf8_to_wide (wf_win fs) path)) (\<lambda>wpath.
     winP (create_file fs wpath [GENERIC_READ, GENERIC_WRITE] [FILE_SHARE_READ] False OPEN_EXISTING FILE_ATTRIBUTE_NORMAL)
       (win_msg fs ''open'' path))"

text \<open>The life of a \<^verbatim>\<open>File\<close>\<close>

definition with_win_file :: "'w winfs \<Rightarrow> string \<Rightarrow> (nat \<Rightarrow> ('w, 'a) prog) \<Rightarrow> ('w, 'a) prog" where
  "with_win_file fs path f = bindP (win_open_file fs path) (\<lambda>h. scoped (close_now fs h) (f h))"

definition win_file_size :: "'w winfs \<Rightarrow> nat \<Rightarrow> string \<Rightarrow> ('w, 64 word) prog" where
  "win_file_size fs h path = winP (get_file_size fs h) (win_msg fs ''GetFileSizeEx'' path)"

definition low_half :: "64 word \<Rightarrow> dword" where
  "low_half offset = ucast (offset AND 0xFFFFFFFF)"

definition high_half :: "64 word \<Rightarrow> dword" where
  "high_half offset = ucast (drop_bit 32 offset)"

function win_read_at_loop ::
    "'w winfs \<Rightarrow> nat \<Rightarrow> string \<Rightarrow> 64 word \<Rightarrow> nat \<Rightarrow> bytes \<Rightarrow> 'w \<Rightarrow> bytes result \<times> 'w" where
  "win_read_at_loop fs h path offset len buf w =
     (if len = 0 then (Inr buf, w)
      else case read_file_at fs h (if len > 0x40000000 then 0x40000000 else len) (low_half offset) (high_half offset) w of
        (Inl e, w') \<Rightarrow> (throw (win_msg fs ''ReadFile'' path e), w')
      | (Inr d, w') \<Rightarrow>
          if d = [] then (throw (''ReadFile '' @ path @ '': unexpected EOF''), w')
          else win_read_at_loop fs h path (offset + of_nat (length d)) (len - length d) (buf @ d) w')"
  by pat_completeness auto
termination
  by (relation "measure (\<lambda>(fs, h, path, offset, len, buf, w). len)") auto

declare win_read_at_loop.simps [simp del]

definition win_read_at :: "'w winfs \<Rightarrow> nat \<Rightarrow> string \<Rightarrow> 64 word \<Rightarrow> nat \<Rightarrow> ('w, bytes) prog" where
  "win_read_at fs h path offset len w = Some (win_read_at_loop fs h path offset len [] w)"

function win_write_at_loop ::
    "'w winfs \<Rightarrow> nat \<Rightarrow> string \<Rightarrow> 64 word \<Rightarrow> bytes \<Rightarrow> 'w \<Rightarrow> unit result \<times> 'w" where
  "win_write_at_loop fs h path offset buf w =
     (if buf = [] then (Inr (), w)
      else case write_file_at fs h (take 0x40000000 buf) (low_half offset) (high_half offset) w of
        (Inl e, w') \<Rightarrow> (throw (win_msg fs ''WriteFile'' path e), w')
      | (Inr wrote, w') \<Rightarrow>
          if wrote = 0 then (throw (''WriteFile '' @ path @ '': zero bytes written''), w')
          else win_write_at_loop fs h path (offset + of_nat wrote) (drop wrote buf) w')"
  by pat_completeness auto
termination
  by (relation "measure (\<lambda>(fs, h, path, offset, buf, w). length buf)") auto

declare win_write_at_loop.simps [simp del]

definition win_write_at :: "'w winfs \<Rightarrow> nat \<Rightarrow> string \<Rightarrow> 64 word \<Rightarrow> bytes \<Rightarrow> ('w, unit) prog" where
  "win_write_at fs h path offset buf w = Some (win_write_at_loop fs h path offset buf w)"

definition win_truncate :: "'w winfs \<Rightarrow> nat \<Rightarrow> string \<Rightarrow> 64 word \<Rightarrow> ('w, unit) prog" where
  "win_truncate fs h path new_size =
     bindP (winP (set_file_pointer fs h new_size) (win_msg fs ''SetFilePointerEx'' path)) (\<lambda>_.
     winP (set_end_of_file fs h) (win_msg fs ''SetEndOfFile'' path))"

definition win_flush :: "'w winfs \<Rightarrow> nat \<Rightarrow> string \<Rightarrow> ('w, unit) prog" where
  "win_flush fs h path = winP (flush_file_buffers fs h) (win_msg fs ''FlushFileBuffers'' path)"

section \<open>Whole files\<close>

text \<open>
  The write loop of \<^verbatim>\<open>write_whole_file\<close> and
  \<^verbatim>\<open>atomic_write_private_file\<close>. Unlike that of \<^verbatim>\<open>File::write_at\<close> it goes on
  when nothing was written.
\<close>

partial_function (option) win_write_loop ::
    "'w winfs \<Rightarrow> nat \<Rightarrow> string \<Rightarrow> bytes \<Rightarrow> 'w \<Rightarrow> (unit result \<times> 'w) option" where
  "win_write_loop fs h path data w =
     (if data = [] then Some (Inr (), w)
      else case write_file fs h (take 0x40000000 data) w of
        (Inl e, w') \<Rightarrow> Some (throw (win_msg fs ''WriteFile'' path e), close_now fs h w')
      | (Inr wrote, w') \<Rightarrow> win_write_loop fs h path (drop wrote data) w')"

definition win_write_whole_file :: "'w winfs \<Rightarrow> string \<Rightarrow> bytes \<Rightarrow> ('w, unit) prog" where
  "win_write_whole_file fs path data =
     bindP (liftP (utf8_to_wide (wf_win fs) path)) (\<lambda>wpath.
     bindP (winP (create_file fs wpath [GENERIC_WRITE] [] False CREATE_ALWAYS FILE_ATTRIBUTE_NORMAL)
              (win_msg fs ''open(write)'' path)) (\<lambda>h.
     bindP (win_write_loop fs h path data) (\<lambda>_.
     winP (close_handle fs h) (win_msg fs ''CloseHandle'' path))))"

definition win_atomic_write :: "'w winfs \<Rightarrow> string \<Rightarrow> bytes \<Rightarrow> ('w, unit) prog" where
  "win_atomic_write fs path data =
     (let tmp = path @ ''.tmp'' in
      bindP (liftP (utf8_to_wide (wf_win fs) tmp)) (\<lambda>wtmp.
      bindP (winP (create_file fs wtmp [GENERIC_WRITE] [] False CREATE_ALWAYS FILE_ATTRIBUTE_NORMAL)
               (win_msg fs ''open(write)'' tmp)) (\<lambda>h.
      bindP (win_write_loop fs h tmp data) (\<lambda>_.
      bindP (winP (close_handle fs h) (win_msg fs ''CloseHandle'' tmp)) (\<lambda>_.
      bindP (liftP (utf8_to_wide (wf_win fs) path)) (\<lambda>wfinal.
      winP (move_file fs wtmp wfinal MOVEFILE_REPLACE_EXISTING) (win_msg fs ''MoveFileExW'' path)))))))"

definition win_remove_file :: "'w winfs \<Rightarrow> string \<Rightarrow> ('w, unit) prog" where
  "win_remove_file fs path =
     bindP (liftP (utf8_to_wide (wf_win fs) path)) (\<lambda>wpath w.
       case delete_file fs wpath w of
         (Inl e, w') \<Rightarrow>
           if e = ERROR_FILE_NOT_FOUND \<or> e = ERROR_PATH_NOT_FOUND then Some (Inr (), w')
           else Some (throw (win_msg fs ''DeleteFileW'' path e), w')
       | (Inr _, w') \<Rightarrow> Some (Inr (), w'))"

section \<open>Copying and replacing\<close>

definition random_suffix :: "'w winfs \<Rightarrow> ('w, string) prog" where
  "random_suffix fs =
     bindP (winP (gen_random fs) (\<lambda>status. ''BCryptGenRandom temporary filename: '' @ nt_error status)) (\<lambda>bytes.
     retP (concat (map (\<lambda>c. [''0123456789abcdef'' ! unat (drop_bit 4 c), ''0123456789abcdef'' ! unat (c AND 15)]) bytes)))"

definition win_copy_file :: "'w winfs \<Rightarrow> string \<Rightarrow> string \<Rightarrow> ('w, unit) prog" where
  "win_copy_file fs from to =
     bindP (liftP (utf8_to_wide (wf_win fs) from)) (\<lambda>source.
     bindP (liftP (utf8_to_wide (wf_win fs) to)) (\<lambda>target.
     bindP (winP (get_file_attributes fs source) (win_msg fs ''copy'' from)) (\<lambda>attributes.
     bindP (checkP (attributes AND FILE_ATTRIBUTE_DIRECTORY = 0) (''copy '' @ from @ '': not a regular file'')) (\<lambda>_.
     winP (copy_existing_file fs source target)
       (\<lambda>e. ''CopyFileW '' @ from @ '' -> '' @ to @ '': '' @ win_error (wf_win fs) e)))))"

text \<open>A failure whose message names a wide path, which has to be converted first\<close>

definition throw_path :: "'w winfs \<Rightarrow> wide \<Rightarrow> (string \<Rightarrow> string) \<Rightarrow> ('w, 'a) prog" where
  "throw_path fs path msg = bindP (liftP (from_wide (wf_win fs) path)) (\<lambda>p. throwP (msg p))"

definition check_replaceable :: "'w winfs \<Rightarrow> wide \<Rightarrow> ('w, unit) prog" where
  "check_replaceable fs path w =
     (case get_file_attributes fs path w of
        (Inl e, w') \<Rightarrow> throw_path fs path (\<lambda>p. win_msg fs ''replace'' p e) w'
      | (Inr attributes, w') \<Rightarrow>
          if attributes AND (FILE_ATTRIBUTE_DIRECTORY OR FILE_ATTRIBUTE_REPARSE_POINT) \<noteq> 0
          then throw_path fs path (\<lambda>p. ''replace '' @ p @ '': not a regular file'') w'
          else Some (Inr (), w'))"

definition flush_stage :: "'w winfs \<Rightarrow> string \<Rightarrow> string \<Rightarrow> wide \<Rightarrow> wide \<Rightarrow> ('w, unit) prog" where
  "flush_stage fs staged destination stage target =
     bindP (winP (create_file fs target [GENERIC_READ] [FILE_SHARE_READ, FILE_SHARE_WRITE, FILE_SHARE_DELETE]
                    False OPEN_EXISTING FILE_ATTRIBUTE_NORMAL) (win_msg fs ''open(replace)'' destination)) (\<lambda>original.
     scoped (close_now fs original) (
       bindP (winP (create_file fs stage [GENERIC_READ, GENERIC_WRITE] [] False OPEN_EXISTING FILE_ATTRIBUTE_NORMAL)
                (win_msg fs ''open(replace)'' staged)) (\<lambda>h.
       scoped (close_now fs h) (winP (flush_file_buffers fs h) (win_msg fs ''FlushFileBuffers'' staged)))))"

definition replace_with_backup :: "'w winfs \<Rightarrow> string \<Rightarrow> wide \<Rightarrow> wide \<Rightarrow> wide \<Rightarrow> ('w, unit) prog" where
  "replace_with_backup fs destination stage target backup w =
     (case replace_existing_file fs target stage backup w of
        (Inr _, w') \<Rightarrow> Some (Inr (), snd (delete_file fs backup w'))
      | (Inl e, w') \<Rightarrow>
          if e = ERROR_UNABLE_TO_MOVE_REPLACEMENT_2
          then (case move_file fs backup target MOVEFILE_WRITE_THROUGH w' of
                  (Inl e', w'') \<Rightarrow> throw_path fs backup (\<lambda>b. win_msg fs ''ReplaceFileW'' destination e @
                      ''; restoring original failed: '' @ win_error (wf_win fs) e' @
                      ''; original preserved at '' @ b) w''
                | (Inr _, w'') \<Rightarrow> Some (throw (win_msg fs ''ReplaceFileW'' destination e), w''))
          else Some (throw (win_msg fs ''ReplaceFileW'' destination e), w'))"

definition win_atomic_replace :: "'w winfs \<Rightarrow> string \<Rightarrow> string \<Rightarrow> ('w, unit) prog" where
  "win_atomic_replace fs staged destination =
     bindP (liftP (utf8_to_wide (wf_win fs) staged)) (\<lambda>stage.
     bindP (liftP (utf8_to_wide (wf_win fs) destination)) (\<lambda>target.
     bindP (check_replaceable fs stage) (\<lambda>_.
     bindP (check_replaceable fs target) (\<lambda>_.
     bindP (flush_stage fs staged destination stage target) (\<lambda>_.
     bindP (random_suffix fs) (\<lambda>suffix.
     bindP (liftP (utf8_to_wide (wf_win fs) suffix)) (\<lambda>wsuffix.
     replace_with_backup fs destination stage target (target @ lit ''.aas-sign-backup-'' @ wsuffix))))))))"

text \<open>The loop over both names: a missing file ends it with the answer no\<close>

definition win_identity :: "'w winfs \<Rightarrow> string \<Rightarrow> ('w, file_information option) prog" where
  "win_identity fs path =
     bindP (liftP (utf8_to_wide (wf_win fs) path)) (\<lambda>wpath w.
       case create_file fs wpath [FILE_READ_ATTRIBUTES] [FILE_SHARE_READ, FILE_SHARE_WRITE, FILE_SHARE_DELETE]
              False OPEN_EXISTING FILE_FLAG_BACKUP_SEMANTICS w of
         (Inl e, w') \<Rightarrow>
           if e = ERROR_FILE_NOT_FOUND \<or> e = ERROR_PATH_NOT_FOUND then Some (Inr None, w')
           else Some (throw (win_msg fs ''open(identity)'' path e), w')
       | (Inr h, w') \<Rightarrow>
           scoped (close_now fs h)
             (bindP (winP (get_file_information fs h) (win_msg fs ''GetFileInformationByHandle'' path)) (\<lambda>info.
              retP (Some info))) w')"

definition win_same_file :: "'w winfs \<Rightarrow> string \<Rightarrow> string \<Rightarrow> ('w, bool) prog" where
  "win_same_file fs first second =
     bindP (win_identity fs first) (\<lambda>a.
     case a of None \<Rightarrow> retP False
     | Some a \<Rightarrow> bindP (win_identity fs second) (\<lambda>b.
         case b of None \<Rightarrow> retP False
         | Some b \<Rightarrow> retP (volume_serial a = volume_serial b \<and> index_high a = index_high b \<and> index_low a = index_low b)))"

section \<open>What the calls do to the files\<close>

text \<open>
  A view of the world: the contents of the files by path, and the path of each handle. The
  contracts state the documented effect of the calls on it.
\<close>

record 'w win_view =
  wfiles :: "'w \<Rightarrow> (wide \<rightharpoonup> bytes)"
  whandle :: "'w \<Rightarrow> (nat \<rightharpoonup> wide)"

definition win_quiet_contract :: "'w winfs \<Rightarrow> 'w win_view \<Rightarrow> bool" where
  "win_quiet_contract fs v \<longleftrightarrow>
     (\<forall>p a s i fl w. wfiles v (snd (create_file fs p a s i OPEN_EXISTING fl w)) = wfiles v w) \<and>
     (\<forall>h w. wfiles v (snd (close_handle fs h w)) = wfiles v w) \<and>
     (\<forall>h w. wfiles v (snd (flush_file_buffers fs h w)) = wfiles v w) \<and>
     (\<forall>p w. wfiles v (snd (get_file_attributes fs p w)) = wfiles v w) \<and>
     (\<forall>w. wfiles v (snd (gen_random fs w)) = wfiles v w)"

text \<open>
  \<^verbatim>\<open>ReplaceFileW\<close>, as its documentation lists the failures: with
  \<^verbatim>\<open>ERROR_UNABLE_TO_MOVE_REPLACEMENT_2\<close> the replaced file has already been renamed to the
  backup; with any other code both files keep their names.
\<close>

definition win_rename_contract :: "'w winfs \<Rightarrow> 'w win_view \<Rightarrow> bool" where
  "win_rename_contract fs v \<longleftrightarrow>
     (\<forall>target stage backup w. case replace_existing_file fs target stage backup w of
        (Inr _, w') \<Rightarrow> wfiles v w' = (wfiles v w)(backup := wfiles v w target, target := wfiles v w stage, stage := None)
      | (Inl e, w') \<Rightarrow>
          if e = ERROR_UNABLE_TO_MOVE_REPLACEMENT_2
          then wfiles v w' = (wfiles v w)(target := None, backup := wfiles v w target)
          else wfiles v w' = wfiles v w) \<and>
     (\<forall>p q fl w. case move_file fs p q fl w of
        (Inr _, w') \<Rightarrow> wfiles v w' = (wfiles v w)(p := None, q := wfiles v w p)
      | (Inl _, w') \<Rightarrow> wfiles v w' = wfiles v w) \<and>
     (\<forall>p w. case delete_file fs p w of
        (Inr _, w') \<Rightarrow> wfiles v w' = (wfiles v w)(p := None)
      | (Inl _, w') \<Rightarrow> wfiles v w' = wfiles v w)"

text \<open>UTF-8: ASCII is itself, decoding follows concatenation, and encoding undoes it\<close>

definition utf8_contract :: "win \<Rightarrow> bool" where
  "utf8_contract win \<longleftrightarrow>
     (\<forall>s. list_all (\<lambda>c. of_char c < (128 :: nat)) s \<longrightarrow> decode_utf8 win s = Some (lit s)) \<and>
     (\<forall>s t u v. decode_utf8 win s = Some u \<longrightarrow> decode_utf8 win t = Some v \<longrightarrow> decode_utf8 win (s @ t) = Some (u @ v)) \<and>
     (\<forall>s u. decode_utf8 win s = Some u \<longrightarrow> encode_utf8 win u = Inr s)"

definition win_read_contract :: "'w winfs \<Rightarrow> 'w win_view \<Rightarrow> bool" where
  "win_read_contract fs v \<longleftrightarrow> (\<forall>h p c w. whandle v w h = Some p \<and> wfiles v w p = Some c \<longrightarrow>
     (\<forall>n lo hi. case read_file_at fs h n lo hi w of
        (Inl _, w') \<Rightarrow> wfiles v w' = wfiles v w \<and> whandle v w' h = Some p
      | (Inr d, w') \<Rightarrow> d = take (length d) (drop (unat lo + 2 ^ 32 * unat hi) c) \<and> length d \<le> n \<and>
          wfiles v w' = wfiles v w \<and> whandle v w' h = Some p) \<and>
     (case get_file_size fs h w of
        (Inl _, w') \<Rightarrow> wfiles v w' = wfiles v w
      | (Inr n, w') \<Rightarrow> unat n = length c \<and> wfiles v w' = wfiles v w \<and> whandle v w' h = Some p))"

text \<open>A handle is that of its path, and an exclusive open fails while there is another handle\<close>

definition win_open_contract :: "'w winfs \<Rightarrow> 'w win_view \<Rightarrow> bool" where
  "win_open_contract fs v \<longleftrightarrow>
     (\<forall>p a s i fl w. case create_file fs p a s i OPEN_EXISTING fl w of
        (Inl _, w') \<Rightarrow> True
      | (Inr h, w') \<Rightarrow> whandle v w' h = Some p) \<and>
     (\<forall>p a i fl w h. whandle v w h = Some p \<longrightarrow>
        (case create_file fs p a [] i OPEN_EXISTING fl w of (Inl _, w') \<Rightarrow> True | (Inr _, w') \<Rightarrow> False))"

section \<open>Reading\<close>

lemma halves: "unat (low_half offset) + 2 ^ 32 * unat (high_half offset) = unat offset"
proof -
  have m: "(0xFFFFFFFF :: 64 word) = mask 32" by (simp add: mask_eq_exp_minus_1)
  have "unat (low_half offset) = unat offset mod 2 ^ 32"
    unfolding low_half_def m take_bit_eq_mask [symmetric] unsigned_ucast_eq unat_take_bit
    by (simp add: take_bit_eq_mod)
  moreover have "unat (drop_bit 32 offset) < 2 ^ 32"
    using unsigned_less [of offset, where ?'a = nat] by (simp add: unat_drop_bit less_mult_imp_div_less)
  then have "unat (high_half offset) = unat offset div 2 ^ 32"
    unfolding high_half_def by (simp add: unsigned_ucast_eq take_bit_nat_eq_self unat_drop_bit)
  ultimately show ?thesis by (simp add: mod_mult_div_eq)
qed

abbreviation win_opened :: "'w win_view \<Rightarrow> (wide \<rightharpoonup> bytes) \<Rightarrow> nat \<Rightarrow> wide \<Rightarrow> 'w \<Rightarrow> bool" where
  "win_opened v F h p \<equiv> (\<lambda>w. wfiles v w = F \<and> whandle v w h = Some p)"

lemma win_read_at_loop_content:
  assumes "win_read_contract fs v" "F p = Some content" "length content < 2 ^ 64" "win_opened v F h p w"
  shows "case win_read_at_loop fs h path offset len buf w of (r, w') \<Rightarrow> win_opened v F h p w' \<and>
    (\<forall>bs. r = Inr bs \<longrightarrow> (unat offset + len \<le> length content \<or> len = 0) \<and> bs = buf @ take len (drop (unat offset) content))"
  using assms(4)
proof (induction len arbitrary: offset buf w rule: less_induct)
  case (less len)
  let ?n = "if len > 0x40000000 then 0x40000000 else len"
  obtain r w1 where s: "read_file_at fs h ?n (low_half offset) (high_half offset) w = (r, w1)" by fastforce
  note rc = assms(1) [unfolded win_read_contract_def, rule_format, where w = w and h = h and p = p and c = content,
      THEN conjunct1, rule_format, where n = ?n and lo = "low_half offset" and hi = "high_half offset", unfolded halves s]
  note step = win_read_at_loop.simps [of fs h path offset len buf w, unfolded s]
  show ?case
  proof (cases "len = 0")
    case False
    show ?thesis
    proof (cases r)
      case (Inr d)
      with rc less.prems assms(2) have k: "win_opened v F h p w1" "d = take (length d) (drop (unat offset) content)"
        "length d \<le> ?n" by auto
      show ?thesis
      proof (cases "d = []")
        case d: False
        have dl: "length d \<le> len" using k(3) by (auto split: if_splits)
        note l = read_slice(1) [OF k(2) d] and t = read_slice(2) [OF k(2) d dl]
        have "unat offset + length d < 2 ^ 64" using l assms(3) by linarith
        then have o: "unat (offset + of_nat (length d)) = unat offset + length d"
          by (simp add: unat_word_ariths unat_of_nat)
        have "len - length d < len" using d False by simp
        from less.IH [OF this k(1), of "offset + of_nat (length d)" "buf @ d", unfolded o] l t d dl False
        show ?thesis by (auto simp: step Inr split: prod.splits)
      qed (use k False in \<open>simp add: step Inr\<close>)
    qed (use rc less.prems assms(2) False in \<open>simp add: step\<close>)
  qed (use less.prems in \<open>simp add: win_read_at_loop.simps\<close>)
qed

text \<open>
  A file on Windows as the source of an inspection. The offset of a read is a
  \<^verbatim>\<open>uint64_t\<close>, and no file is longer.
\<close>

definition win_reader :: "'w winfs \<Rightarrow> nat \<Rightarrow> string \<Rightarrow> 'w reader" where
  "win_reader fs h path offset len =
     (if offset < 2 ^ 64 then win_read_at fs h path (of_nat offset) len else throwP ''offset'')"

lemma win_reader_source:
  assumes "win_read_contract fs v" "F p = Some content"
  shows "byte_source (win_reader fs h path) content (\<lambda>w. length content < 2 ^ 64 \<and> win_opened v F h p w) path"
proof
  fix offset len
  show "sim (\<lambda>w. length content < 2 ^ 64 \<and> win_opened v F h p w) (win_reader fs h path offset len)
      (content_reader content path offset len)"
  proof (cases "offset < 2 ^ 64")
    case True
    then have o: "unat (of_nat offset :: 64 word) = offset" by (simp add: unat_of_nat)
    show ?thesis
      unfolding sim_def
    proof (intro allI impI)
      fix w assume "length content < 2 ^ 64 \<and> win_opened v F h p w"
      then have r: "length content < 2 ^ 64" "win_opened v F h p w" by simp_all
      obtain r w' where l: "win_read_at_loop fs h path (of_nat offset) len [] w = (r, w')" by fastforce
      from win_read_at_loop_content [where offset = "of_nat offset" and buf = "[]" and F = F and p = p and path = path and len = len, OF assms r, unfolded o l]
      show "returnsP (win_reader fs h path offset len) (\<lambda>r w'. (length content < 2 ^ 64 \<and> win_opened v F h p w') \<and>
          (\<forall>x. r = Inr x \<longrightarrow> content_reader content path offset len () = Some (Inr x, ()))) w"
        using r True l by (simp add: returnsP_def win_reader_def win_read_at_def content_reader_def)
    qed
  qed (auto simp: sim_def returnsP_def win_reader_def)
qed

section \<open>Replacing\<close>

lemma random_suffix_ascii:
  assumes "random_suffix fs w = Some (Inr suffix, w')"
  shows "list_all (\<lambda>c. of_char c < (128 :: nat)) suffix"
proof -
  have hex: "list_all (\<lambda>c. of_char c < (128 :: nat)) ''0123456789abcdef''" by code_simp
  have i: "unat (drop_bit 4 (c :: byte)) < 16" "unat (c AND 15) < 16" for c
  proof -
    show "unat (drop_bit 4 c) < 16" using unat_byte_less [of c] unfolding unat_drop_bit by (simp add: div_less_iff_less_mult)
    have m: "(15 :: byte) = mask 4" by (simp add: mask_eq_exp_minus_1)
    show "unat (c AND 15) < 16" unfolding m take_bit_eq_mask [symmetric] unat_take_bit by simp
  qed
  have "of_char (''0123456789abcdef'' ! n) < (128 :: nat)" if "n < 16" for n
    using hex that by (simp add: list_all_length)
  with i assms show ?thesis
    by (auto simp: random_suffix_def result_iff list_all_iff)
qed

lemma utf8_ascii:
  assumes "utf8_contract win" "list_all (\<lambda>c. of_char c < (128 :: nat)) s" "utf8_to_wide win s = Inr u"
  shows "u = lit s"
  using assms by (auto simp: utf8_contract_def utf8_to_wide_def lit_def split: if_splits)

lemma from_wide_append:
  assumes "utf8_contract win" "utf8_to_wide win s = Inr u" "list_all (\<lambda>c. of_char c < (128 :: nat)) t" "t \<noteq> []"
  shows "from_wide win (u @ lit t) = Inr (s @ t)"
proof -
  have t: "decode_utf8 win t = Some (lit t)" using assms by (simp add: utf8_contract_def)
  have "decode_utf8 win (s @ t) = Some (u @ lit t)"
  proof (cases "s = []")
    case False
    with assms(2) have "decode_utf8 win s = Some u" by (auto simp: utf8_to_wide_def split: if_splits option.splits)
    with t assms(1) show ?thesis unfolding utf8_contract_def by blast
  qed (use t assms(2) in \<open>simp add: utf8_to_wide_def\<close>)
  with assms(1,4) show ?thesis by (auto simp: utf8_contract_def from_wide_def lit_def)
qed

text \<open>The outcome of a replacement, on the files other than the backup and on the backup\<close>

definition replaced :: "(wide \<rightharpoonup> bytes) \<Rightarrow> (wide \<rightharpoonup> bytes) \<Rightarrow> wide \<Rightarrow> wide \<Rightarrow> wide \<Rightarrow> bool" where
  "replaced F G stage target backup \<longleftrightarrow> G(backup := None) = F(stage := None, target := F stage, backup := None)"

definition untouched :: "(wide \<rightharpoonup> bytes) \<Rightarrow> (wide \<rightharpoonup> bytes) \<Rightarrow> wide \<Rightarrow> bool" where
  "untouched F G backup \<longleftrightarrow> G(backup := None) = F(backup := None)"

definition preserved :: "(wide \<rightharpoonup> bytes) \<Rightarrow> (wide \<rightharpoonup> bytes) \<Rightarrow> wide \<Rightarrow> wide \<Rightarrow> bool" where
  "preserved F G target backup \<longleftrightarrow> G = F(target := None, backup := F target)"

definition backup_suffix :: "string \<Rightarrow> string" where
  "backup_suffix suffix = ''.aas-sign-backup-'' @ suffix"

definition replace_outcome ::
  "'w win_view \<Rightarrow> 'w \<Rightarrow> wide \<Rightarrow> wide \<Rightarrow> string \<Rightarrow> string \<Rightarrow> unit result \<Rightarrow> 'w \<Rightarrow> bool" where
  "replace_outcome v w stage target destination suffix r w' \<longleftrightarrow>
     (let backup = target @ lit (backup_suffix suffix) in
      case r of
        Inr _ \<Rightarrow> replaced (wfiles v w) (wfiles v w') stage target backup
      | Inl e \<Rightarrow> untouched (wfiles v w) (wfiles v w') backup \<or>
          preserved (wfiles v w) (wfiles v w') target backup \<and>
          (\<exists>msg. what e = msg @ ''; original preserved at '' @ destination @ backup_suffix suffix))"

lemma replace_with_backup_outcome:
  assumes c: "win_rename_contract fs v" "utf8_contract (wf_win fs)" "utf8_to_wide (wf_win fs) destination = Inr target"
    and F: "wfiles v u = wfiles v w" and a: "list_all (\<lambda>c. of_char c < (128 :: nat)) suffix" and ne: "stage \<noteq> target"
  shows "returnsP (replace_with_backup fs destination stage target (target @ lit (backup_suffix suffix)))
    (replace_outcome v w stage target destination suffix) u"
proof -
  let ?b = "target @ lit (backup_suffix suffix)"
  have asc: "list_all (\<lambda>c. of_char c < (128 :: nat)) (backup_suffix suffix)" using a by (simp add: backup_suffix_def)
  have b: "from_wide (wf_win fs) ?b = Inr (destination @ backup_suffix suffix)"
    by (rule from_wide_append [OF c(2,3) asc]) (simp add: backup_suffix_def)
  have nb: "?b \<noteq> target" by (simp add: lit_def backup_suffix_def)
  obtain r u1 where s: "replace_existing_file fs target stage ?b u = (r, u1)" by fastforce
  note rc = c(1) [unfolded win_rename_contract_def, THEN conjunct1, rule_format,
      where target = target and stage = stage and backup = ?b and w = u, unfolded s F]
  note mc = c(1) [unfolded win_rename_contract_def, THEN conjunct2, THEN conjunct1, rule_format,
      where p = ?b and q = target and fl = MOVEFILE_WRITE_THROUGH and w = u1]
  note dc = c(1) [unfolded win_rename_contract_def, THEN conjunct2, THEN conjunct2, rule_format, where p = ?b and w = u1]
  show ?thesis
  proof (cases r)
    case (Inr k)
    obtain r2 u2 where d: "delete_file fs ?b u1 = (r2, u2)" by fastforce
    have "replaced (wfiles v w) (wfiles v u2) stage target ?b"
      using rc dc d Inr nb ne by (cases r2) (auto simp: replaced_def fun_eq_iff)
    then show ?thesis
      by (simp add: returnsP_def replace_with_backup_def s Inr d replace_outcome_def)
  next
    case (Inl e)
    show ?thesis
    proof (cases "e = ERROR_UNABLE_TO_MOVE_REPLACEMENT_2")
      case True
      obtain r2 u2 where d: "move_file fs ?b target MOVEFILE_WRITE_THROUGH u1 = (r2, u2)" by fastforce
      show ?thesis
        using rc mc d Inl True nb
        by (cases r2)
          (auto simp: returnsP_def replace_with_backup_def s replace_outcome_def untouched_def preserved_def
            throw_path_def b fun_eq_iff)
    next
      case False
      with rc Inl show ?thesis
        by (simp add: returnsP_def replace_with_backup_def s replace_outcome_def untouched_def)
    qed
  qed
qed

lemma win_quietD:
  assumes "win_quiet_contract fs v"
  shows "wfiles v (snd (create_file fs p a s i OPEN_EXISTING fl u)) = wfiles v u"
    "wfiles v (snd (close_handle fs h u)) = wfiles v u"
    "wfiles v (snd (flush_file_buffers fs h u)) = wfiles v u"
    "wfiles v (snd (get_file_attributes fs p u)) = wfiles v u"
    "wfiles v (snd (gen_random fs u)) = wfiles v u"
  using assms by (simp_all add: win_quiet_contract_def)

lemma returnsP_winP_same:
  "(\<And>u. wfiles v (snd (call u)) = wfiles v u) \<Longrightarrow> wfiles v u = F \<Longrightarrow>
    returnsP (winP call msg) (\<lambda>r w'. wfiles v w' = F \<and> (\<forall>x. r = Inr x \<longrightarrow> call u = (Inr x, w'))) u"
  by (auto simp: wp split: prod.splits sum.splits) (metis snd_conv)+

lemma check_replaceable_quiet:
  assumes "win_quiet_contract fs v" "wfiles v u = F"
  shows "returnsP (check_replaceable fs p) (\<lambda>r w'. wfiles v w' = F) u"
proof -
  obtain r u' where s: "get_file_attributes fs p u = (r, u')" by fastforce
  then have "wfiles v u' = F" using win_quietD(4) [OF assms(1), of p u] assms(2) by simp
  with s show ?thesis
    by (cases r) (auto simp: returnsP_def check_replaceable_def throw_path_def bindP_def split: sum.splits)
qed

lemma flush_stage_quiet:
  assumes q: "win_quiet_contract fs v" and o: "win_open_contract fs v" and F: "wfiles v u = F"
  shows "returnsP (flush_stage fs staged destination stage target)
    (\<lambda>r w'. wfiles v w' = F \<and> (r = Inr () \<longrightarrow> stage \<noteq> target)) u"
  unfolding flush_stage_def
proof (rule returnsP_bindI [OF returnsP_winP_same [OF win_quietD(1) [OF q] F]])
  fix original w1
  assume s: "wfiles v w1 = F \<and> (\<forall>x. Inr original = Inr x \<longrightarrow>
    create_file fs target [GENERIC_READ] [FILE_SHARE_READ, FILE_SHARE_WRITE, FILE_SHARE_DELETE] False OPEN_EXISTING
      FILE_ATTRIBUTE_NORMAL u = (Inr x, w1))"
  then have h: "whandle v w1 original = Some target" and F1: "wfiles v w1 = F"
    using o [unfolded win_open_contract_def, THEN conjunct1, rule_format, where p = target and w = u and a = "[GENERIC_READ]"
        and s = "[FILE_SHARE_READ, FILE_SHARE_WRITE, FILE_SHARE_DELETE]" and i = False and fl = FILE_ATTRIBUTE_NORMAL]
    by auto
  note x = o [unfolded win_open_contract_def, THEN conjunct2, rule_format, OF h, where a = "[GENERIC_READ, GENERIC_WRITE]"
      and i = False and fl = FILE_ATTRIBUTE_NORMAL]
  have "returnsP (bindP (winP (create_file fs stage [GENERIC_READ, GENERIC_WRITE] [] False OPEN_EXISTING FILE_ATTRIBUTE_NORMAL)
              (win_msg fs ''open(replace)'' staged)) (\<lambda>h.
       scoped (close_now fs h) (winP (flush_file_buffers fs h) (win_msg fs ''FlushFileBuffers'' staged))))
     (\<lambda>r w'. wfiles v w' = F \<and> (r = Inr () \<longrightarrow> stage \<noteq> target)) w1"
  proof (rule returnsP_bindI [OF returnsP_winP_same [OF win_quietD(1) [OF q] F1]])
    fix k w2
    assume t: "wfiles v w2 = F \<and> (\<forall>x. Inr k = Inr x \<longrightarrow>
      create_file fs stage [GENERIC_READ, GENERIC_WRITE] [] False OPEN_EXISTING FILE_ATTRIBUTE_NORMAL w1 = (Inr x, w2))"
    then have "stage \<noteq> target" using x by auto
    with t show "returnsP (scoped (close_now fs k) (winP (flush_file_buffers fs k) (win_msg fs ''FlushFileBuffers'' staged)))
        (\<lambda>r w'. wfiles v w' = F \<and> (r = Inr () \<longrightarrow> stage \<noteq> target)) w2"
      unfolding returnsP_scoped close_now_def win_quietD(2) [OF q]
      by (auto intro!: returnsP_weaken [OF returnsP_winP_same [OF win_quietD(3) [OF q]]])
  qed simp
  then show "returnsP (scoped (close_now fs original) (bindP (winP (create_file fs stage [GENERIC_READ, GENERIC_WRITE] [] False
              OPEN_EXISTING FILE_ATTRIBUTE_NORMAL) (win_msg fs ''open(replace)'' staged)) (\<lambda>h.
       scoped (close_now fs h) (winP (flush_file_buffers fs h) (win_msg fs ''FlushFileBuffers'' staged)))))
     (\<lambda>r w'. wfiles v w' = F \<and> (r = Inr () \<longrightarrow> stage \<noteq> target)) w1"
    unfolding returnsP_scoped close_now_def win_quietD(2) [OF q] .
qed simp

lemma random_suffix_quiet:
  assumes "win_quiet_contract fs v" "wfiles v u = F"
  shows "returnsP (random_suffix fs) (\<lambda>r w'. wfiles v w' = F \<and>
    (\<forall>s. r = Inr s \<longrightarrow> list_all (\<lambda>c. of_char c < (128 :: nat)) s)) u"
proof -
  have "returnsP (random_suffix fs) (\<lambda>r w'. wfiles v w' = F) u"
    unfolding random_suffix_def
    by (rule returnsP_bindI [OF returnsP_winP_same [OF win_quietD(5) [OF assms(1)] assms(2)]]) (auto simp: wp)
  then obtain r w' where "random_suffix fs u = Some (r, w')" "wfiles v w' = F" unfolding returnsP_def by blast
  then show ?thesis using random_suffix_ascii [of fs u _ w'] by (auto simp: returnsP_def)
qed

lemma returnsP_bind_lift: "returnsP (bindP (liftP (Inr x)) f) Q w \<longleftrightarrow> returnsP (f x) Q w"
  by (simp add: returnsP_def)

lemma win_atomic_replace_outcome:
  assumes q: "win_quiet_contract fs v" and c: "win_rename_contract fs v" and o: "win_open_contract fs v"
    and t: "utf8_contract (wf_win fs)"
    and p: "utf8_to_wide (wf_win fs) staged = Inr stage" "utf8_to_wide (wf_win fs) destination = Inr target"
  shows "returnsP (win_atomic_replace fs staged destination)
    (\<lambda>r w'. \<exists>suffix. replace_outcome v w stage target destination suffix r w') w"
proof -
  let ?F = "wfiles v w"
  let ?Q = "\<lambda>r w'. \<exists>suffix. replace_outcome v w stage target destination suffix r w'"
  have err: "?Q (Inl e) u" if "wfiles v u = ?F" for e u
    using that by (simp add: replace_outcome_def Let_def untouched_def)
  have tail: "returnsP (bindP (liftP (utf8_to_wide (wf_win fs) suffix)) (\<lambda>wsuffix.
      replace_with_backup fs destination stage target (target @ lit ''.aas-sign-backup-'' @ wsuffix))) ?Q u"
    if F: "wfiles v u = ?F" and a: "list_all (\<lambda>c. of_char c < (128 :: nat)) suffix" and ne: "stage \<noteq> target" for suffix u
  proof (cases "utf8_to_wide (wf_win fs) suffix")
    case (Inl e)
    then show ?thesis using err [OF F] by (simp add: wp)
  next
    case (Inr x)
    then have x: "lit ''.aas-sign-backup-'' @ x = lit (backup_suffix suffix)"
      using utf8_ascii [OF t a Inr] unfolding backup_suffix_def lit_append by blast
    have "returnsP (replace_with_backup fs destination stage target (target @ lit ''.aas-sign-backup-'' @ x)) ?Q u"
      unfolding x by (rule returnsP_weaken [OF replace_with_backup_outcome [OF c t p(2) F a ne]]) blast
    with Inr show ?thesis by (simp add: wp)
  qed
  show ?thesis
    unfolding win_atomic_replace_def p returnsP_bind_lift
    apply (rule returnsP_bindI [OF check_replaceable_quiet [OF q refl]])
     apply (rule err, assumption)
    apply (rule returnsP_bindI [OF check_replaceable_quiet [OF q]], assumption)
     apply (rule err, assumption)
    apply (rule returnsP_bindI [OF flush_stage_quiet [OF q o]], assumption)
     apply (rule err, simp)
    apply (rule returnsP_bindI [OF random_suffix_quiet [OF q, where F = ?F]], simp)
     apply (rule err, simp)
    apply (rule tail, simp_all)
    done
qed

section \<open>Inspection of executables\<close>

text \<open>\<^verbatim>\<open>pe_has_signature\<close>, which is common to all platforms, on the files of this one\<close>

definition win_pe_has_signature :: "'w winfs \<Rightarrow> string \<Rightarrow> ('w, bool) prog" where
  "win_pe_has_signature fs path =
     with_win_file fs path (\<lambda>h.
       bindP (win_file_size fs h path) (\<lambda>fsize. pe_image_signed (win_reader fs h path) (unat fsize) path))"

lemma win_pe_signed:
  assumes q: "win_quiet_contract fs v" and o: "win_open_contract fs v" and r: "win_read_contract fs v"
    and p: "utf8_to_wide (wf_win fs) path = Inr wpath" "wfiles v w wpath = Some content"
  shows "returnsP (win_pe_has_signature fs path)
    (\<lambda>r w'. wfiles v w' = wfiles v w \<and> (r = Inr True \<longrightarrow> signed_image content)) w"
proof -
  let ?F = "wfiles v w"
  let ?P = "\<lambda>r w'. wfiles v w' = ?F \<and> (r = Inr True \<longrightarrow> signed_image content)"
  have body: "returnsP (bindP (win_file_size fs h path) (\<lambda>fsize. pe_image_signed (win_reader fs h path) (unat fsize) path)) ?P u"
    if h: "win_opened v ?F h wpath u" for h u
  proof -
    obtain k u1 where s: "get_file_size fs h u = (k, u1)" by fastforce
    note rc = r [unfolded win_read_contract_def, rule_format, where w = u and h = h and p = wpath and c = content,
        THEN conjunct2, unfolded s]
    show ?thesis
    proof (cases k)
      case (Inl e)
      with rc h p(2) s show ?thesis by (simp add: win_file_size_def returnsP_def bindP_def winP_def)
    next
      case (Inr n)
      with rc h p(2) have n: "unat n = length content" "win_opened v ?F h wpath u1" by simp_all
      then have "length content < 2 ^ 64" using unsigned_less [of n, where ?'a = nat] by simp
      with n byte_source.pe_image_signed_source [OF win_reader_source [where F = ?F and h = h and path = path, OF r p(2)], of u1]
      have "returnsP (pe_image_signed (win_reader fs h path) (unat n) path) ?P u1"
        by (auto elim!: returnsP_weaken)
      with Inr s show ?thesis by (simp add: win_file_size_def returnsP_def bindP_def winP_def)
    qed
  qed
  have opened: "whandle v u h = Some wpath"
    if "create_file fs wpath [GENERIC_READ, GENERIC_WRITE] [FILE_SHARE_READ] False OPEN_EXISTING FILE_ATTRIBUTE_NORMAL w = (Inr h, u)" for h u
    using o [unfolded win_open_contract_def, THEN conjunct1, rule_format, where p = wpath and w = w
        and a = "[GENERIC_READ, GENERIC_WRITE]" and s = "[FILE_SHARE_READ]" and i = False and fl = FILE_ATTRIBUTE_NORMAL] that by simp
  show ?thesis
    unfolding win_pe_has_signature_def with_win_file_def win_open_file_def p returnsP_bindP [of "bindP _ _"] returnsP_bind_lift
    by (rule returnsP_weaken [OF returnsP_winP_same [OF win_quietD(1) [OF q] refl]])
      (auto simp: returnsP_scoped close_now_def win_quietD(2) [OF q] intro!: body opened split: sum.splits)
qed

section \<open>A concrete system\<close>

text \<open>
  Files by path and open handles; only ASCII text is converted; a replacement of
  \<^verbatim>\<open>b.exe\<close> stops after the original has been renamed, and nothing can be renamed back.
\<close>

type_synonym sample_winfiles = "(wide \<rightharpoonup> bytes) \<times> (nat \<rightharpoonup> wide)"

definition sample_win :: win where
  "sample_win =
     \<lparr>winhttp_module = False, format_message = (\<lambda>_ _. None), lenient_utf8 = (\<lambda>_. []),
      decode_utf8 = (\<lambda>s. if list_all (\<lambda>c. of_char c < (128 :: nat)) s then Some (lit s) else None),
      encode_utf8 = (\<lambda>u. if list_all (\<lambda>c. c < 128) u then Inr (map (\<lambda>c. char_of (unat c)) u) else Inl 1113)\<rparr>"

lemma lit_ascii:
  assumes "list_all (\<lambda>c. of_char c < (128 :: nat)) s"
  shows "list_all (\<lambda>c. c < 128) (lit s)" "map (\<lambda>c. char_of (unat c)) (lit s) = s"
proof -
  have u: "unat (of_char c :: 16 word) = of_char c" for c
  proof -
    have "(of_char c :: nat) < 2 ^ LENGTH(16)"
      by (rule less_trans [OF nat_of_char_less_256]) simp
    then have "unat (of_nat (of_char c) :: 16 word) = of_char c" unfolding unat_of_nat by (rule mod_less)
    then show ?thesis by (simp only: of_nat_of_char)
  qed
  show "map (\<lambda>c. char_of (unat c)) (lit s) = s"
    by (simp add: lit_def u comp_def)
  show "list_all (\<lambda>c. c < 128) (lit s)"
    using assms by (simp add: lit_def list_all_iff word_less_nat_alt u)
qed

lemma sample_utf8_contract: "utf8_contract sample_win"
  by (auto simp: utf8_contract_def sample_win_def lit_append lit_ascii)

definition sample_create ::
  "wide \<Rightarrow> access list \<Rightarrow> share list \<Rightarrow> bool \<Rightarrow> disposition \<Rightarrow> file_flags \<Rightarrow> (sample_winfiles, nat) wincall" where
  "sample_create p a s i d fl w =
     (case w of (fs, h) \<Rightarrow>
        let k = (if h 1 = None then 1 else 2) in
        if s = [] \<and> (h 1 = Some p \<or> h 2 = Some p) then (Inl 32, w)
        else if d = CREATE_ALWAYS then (Inr k, (fs(p \<mapsto> []), h(k \<mapsto> p)))
        else if fs p = None then (Inl ERROR_FILE_NOT_FOUND, w)
        else (Inr k, (fs, h(k \<mapsto> p))))"

definition sample_read_file :: "nat \<Rightarrow> nat \<Rightarrow> dword \<Rightarrow> dword \<Rightarrow> (sample_winfiles, bytes) wincall" where
  "sample_read_file h n lo hi w =
     (case snd w h of
        None \<Rightarrow> (Inl 6, w)
      | Some p \<Rightarrow> (case fst w p of
          None \<Rightarrow> (Inl 6, w)
        | Some c \<Rightarrow> (Inr (take n (drop (unat lo + 2 ^ 32 * unat hi) c)), w)))"

definition sample_file_size :: "nat \<Rightarrow> (sample_winfiles, 64 word) wincall" where
  "sample_file_size h w =
     (case snd w h of
        None \<Rightarrow> (Inl 6, w)
      | Some p \<Rightarrow> (case fst w p of
          None \<Rightarrow> (Inl 6, w)
        | Some c \<Rightarrow> if length c < 2 ^ 64 then (Inr (of_nat (length c)), w) else (Inl 6, w)))"

definition sample_replace :: "wide \<Rightarrow> wide \<Rightarrow> wide \<Rightarrow> (sample_winfiles, unit) wincall" where
  "sample_replace target stage backup w =
     (case w of (fs, h) \<Rightarrow>
        if target = lit ''b.exe''
        then (Inl ERROR_UNABLE_TO_MOVE_REPLACEMENT_2, (fs(target := None, backup := fs target), h))
        else (Inr (), (fs(backup := fs target, target := fs stage, stage := None), h)))"

definition sample_winfs :: "sample_winfiles winfs" where
  "sample_winfs =
     \<lparr>wf_win = sample_win, create_file = sample_create, close_handle = (\<lambda>h w. (Inr (), (fst w, (snd w)(h := None)))),
      get_file_size = sample_file_size, read_file_at = sample_read_file,
      write_file_at = (\<lambda>h d lo hi w. (Inl 5, w)), write_file = (\<lambda>h d w. (Inl 5, w)),
      set_file_pointer = (\<lambda>h n w. (Inr (), w)), set_end_of_file = (\<lambda>h w. (Inr (), w)),
      flush_file_buffers = (\<lambda>h w. (Inr (), w)), move_file = (\<lambda>p q fl w. (Inl 5, w)),
      delete_file = (\<lambda>p w. (Inr (), ((fst w)(p := None), snd w))),
      get_file_attributes = (\<lambda>p w. if fst w p = None then (Inl ERROR_FILE_NOT_FOUND, w) else (Inr 0x20, w)),
      copy_existing_file = (\<lambda>p q w. (Inl 5, w)), replace_existing_file = sample_replace,
      get_file_information = (\<lambda>h w. (Inl 5, w)), gen_random = (\<lambda>w. (Inr [0x5A, 0x5A, 0x5A, 0x5A, 0x5A, 0x5A, 0x5A, 0x5A, 0x5A, 0x5A, 0x5A, 0x5A, 0x5A, 0x5A, 0x5A, 0x5A], w))\<rparr>"

definition sample_win_view :: "sample_winfiles win_view" where
  "sample_win_view = \<lparr>wfiles = fst, whandle = (\<lambda>w. snd w |` {1, 2})\<rparr>"

lemma sample_win_contracts:
  "win_quiet_contract sample_winfs sample_win_view"
  "win_open_contract sample_winfs sample_win_view"
  "win_rename_contract sample_winfs sample_win_view"
  "win_read_contract sample_winfs sample_win_view"
  "utf8_contract (wf_win sample_winfs)"
proof -
  show "win_quiet_contract sample_winfs sample_win_view"
    by (auto simp: win_quiet_contract_def sample_winfs_def sample_win_view_def sample_create_def Let_def)
  show "win_open_contract sample_winfs sample_win_view"
    by (auto simp: win_open_contract_def sample_winfs_def sample_win_view_def sample_create_def Let_def restrict_map_def
        split: if_splits)
  show "win_rename_contract sample_winfs sample_win_view"
    by (auto simp: win_rename_contract_def sample_winfs_def sample_win_view_def sample_replace_def split: prod.splits)
  show "win_read_contract sample_winfs sample_win_view"
    by (auto simp: win_read_contract_def sample_winfs_def sample_win_view_def sample_read_file_def sample_file_size_def
        restrict_map_def min_def unat_of_nat split: if_splits option.splits)
  show "utf8_contract (wf_win sample_winfs)"
    using sample_utf8_contract by (simp add: sample_winfs_def)
qed

section \<open>Properties\<close>

text \<open>
  C14: the replacement of a file on Windows never loses the original. The replacement returns.
  If it succeeds, the destination has the contents of the staged file, and no other file but the
  backup has changed. If it throws, either no file but the backup has changed, or the original is
  still there under the name of the backup, the staged file is where it was, and the message of the
  exception names the backup. The last case happens when \<^verbatim>\<open>ReplaceFileW\<close> stops half-way
  and the original cannot be renamed back. It does not matter whether the two names are the same:
  the exclusive open of the staged file then fails before anything is changed.
\<close>

theorem win_replace_keeps_original:
  assumes "win_quiet_contract fs v" "win_rename_contract fs v" "win_open_contract fs v"
    and "utf8_contract (wf_win fs)"
    and "utf8_to_wide (wf_win fs) staged = Inr stage" "utf8_to_wide (wf_win fs) destination = Inr target"
  shows "returnsP (win_atomic_replace fs staged destination) (\<lambda>r w'. \<exists>suffix.
      let backup = target @ lit (backup_suffix suffix); F = wfiles v w; G = wfiles v w' in
      case r of
        Inr _ \<Rightarrow> G(backup := None) = F(stage := None, target := F stage, backup := None)
      | Inl e \<Rightarrow> G(backup := None) = F(backup := None) \<or>
          G = F(target := None, backup := F target) \<and>
          (\<exists>msg. what e = msg @ ''; original preserved at '' @ destination @ backup_suffix suffix)) w"
  using win_atomic_replace_outcome [OF assms]
  unfolding replace_outcome_def replaced_def untouched_def preserved_def Let_def .

text \<open>
  C30: \<^verbatim>\<open>pe_has_signature\<close> over the files of Windows, with offsets split into two halves
  and reads that may be partial: it returns, changes no file, and answers yes only for an image whose
  security directory lies inside the file and holds only well-formed certificates, at least one.
\<close>

theorem win_pe_has_signature_sound:
  assumes "win_quiet_contract fs v" "win_open_contract fs v" "win_read_contract fs v"
    and "utf8_to_wide (wf_win fs) path = Inr wpath" "wfiles v w wpath = Some content"
  shows "returnsP (win_pe_has_signature fs path)
    (\<lambda>r w'. wfiles v w' = wfiles v w \<and> (r = Inr True \<longrightarrow> signed_image content)) w"
  by (rule win_pe_signed [OF assms])

section \<open>Witnesses\<close>

abbreviation sample_before :: sample_winfiles where
  "sample_before \<equiv> ([lit ''b.exe'' \<mapsto> [1, 2], lit ''t'' \<mapsto> [7]], Map.empty)"

lemma sample_utf8: "utf8_to_wide (wf_win sample_winfs) ''b.exe'' = Inr (lit ''b.exe'')"
    "utf8_to_wide (wf_win sample_winfs) ''t'' = Inr (lit ''t'')"
  by (simp_all add: utf8_to_wide_def sample_winfs_def sample_win_def)

theorem win_replace_keeps_original_witness:
  "case win_atomic_replace sample_winfs ''t'' ''b.exe'' sample_before of
     None \<Rightarrow> False
   | Some (r, w') \<Rightarrow> \<exists>suffix. case r of Inr _ \<Rightarrow> False
     | Inl e \<Rightarrow> fst w' (lit ''b.exe'') = None \<and> fst w' (lit ''b.exe'' @ lit (backup_suffix suffix)) = Some [1, 2] \<and>
         fst w' (lit ''t'') = Some [7] \<and>
         (\<exists>msg. what e = msg @ ''; original preserved at b.exe'' @ backup_suffix suffix)"
proof -
  have ne: "lit ''b.exe'' \<noteq> lit ''t''" by (simp add: lit_def)
  have b: "\<And>s. lit ''b.exe'' @ lit (backup_suffix s) \<noteq> lit ''b.exe''" "\<And>s. lit ''b.exe'' @ lit (backup_suffix s) \<noteq> lit ''t''"
    by (simp_all add: lit_def backup_suffix_def)
  obtain r w' where run: "win_atomic_replace sample_winfs ''t'' ''b.exe'' sample_before = Some (r, w')"
    and o: "\<exists>suffix. let backup = lit ''b.exe'' @ lit (backup_suffix suffix);
          F = wfiles sample_win_view sample_before; G = wfiles sample_win_view w' in
        case r of
          Inr _ \<Rightarrow> G(backup := None) = F(lit ''t'' := None, lit ''b.exe'' := F (lit ''t''), backup := None)
        | Inl e \<Rightarrow> G(backup := None) = F(backup := None) \<or> G = F(lit ''b.exe'' := None, backup := F (lit ''b.exe'')) \<and>
            (\<exists>msg. what e = msg @ ''; original preserved at '' @ ''b.exe'' @ backup_suffix suffix)"
    using win_replace_keeps_original [OF sample_win_contracts(1,3,2,5) sample_utf8(2,1), of sample_before]
    unfolding returnsP_def by blast
  have "fst w' (lit ''b.exe'') = None" "\<exists>e. r = Inl e"
    using run
    by (auto simp: win_atomic_replace_def bindP_def check_replaceable_def flush_stage_def winP_def scoped_def
        random_suffix_def replace_with_backup_def sample_replace_def throw_path_def close_now_def sample_create_def
        sample_winfs_def utf8_to_wide_def sample_win_def lit_def from_wide_def split: if_splits option.splits sum.splits)
  then obtain e where g: "fst w' (lit ''b.exe'') = None" "r = Inl e" by blast
  obtain suffix where d: "(fst w')(lit ''b.exe'' @ lit (backup_suffix suffix) := None) =
        (fst sample_before)(lit ''b.exe'' @ lit (backup_suffix suffix) := None) \<or>
      fst w' = (fst sample_before)(lit ''b.exe'' := None, lit ''b.exe'' @ lit (backup_suffix suffix) := Some [1, 2]) \<and>
      (\<exists>msg. what e = msg @ ''; original preserved at '' @ ''b.exe'' @ backup_suffix suffix)"
    using o g(2) ne by (auto simp: Let_def sample_win_view_def)
  have "\<not> (fst w')(lit ''b.exe'' @ lit (backup_suffix suffix) := None) =
        (fst sample_before)(lit ''b.exe'' @ lit (backup_suffix suffix) := None)"
    using g(1) ne b(1) [of suffix] by (auto dest: fun_cong [where x = "lit ''b.exe''"])
  with d have f: "fst w' = (fst sample_before)(lit ''b.exe'' := None, lit ''b.exe'' @ lit (backup_suffix suffix) := Some [1, 2])"
    and m: "\<exists>msg. what e = msg @ ''; original preserved at '' @ ''b.exe'' @ backup_suffix suffix" by blast+
  have "fst w' (lit ''t'') = Some [7]" "fst w' (lit ''b.exe'' @ lit (backup_suffix suffix)) = Some [1, 2]"
    using f ne b(2) [of suffix] by auto
  then show ?thesis using run g m by auto
qed

theorem win_pe_has_signature_sound_witness:
  "returnsP (win_pe_has_signature sample_winfs ''b.exe'')
    (\<lambda>r w'. fst w' = fst sample_before \<and> (if r = Inr True then signed_image [1, 2] else True)) sample_before"
proof -
  have "wfiles sample_win_view sample_before (lit ''b.exe'') = Some [1, 2]"
    by (simp add: sample_win_view_def lit_def)
  from win_pe_has_signature_sound [OF sample_win_contracts(1,2,4) sample_utf8(1) this]
  show ?thesis by (auto simp: sample_win_view_def elim!: returnsP_weaken)
qed

end
