(* ===== verification/Windows_Process.thy ===== *)
theory Windows_Process
  imports Windows_Files Posix_Shell
begin

text \<open>
  Companion processes and temporary directories of \<^verbatim>\<open>src/src/win32.cpp\<close>: the
  quoting of arguments, the environment of a child, the search for an executable, the start of a
  child with the handles it inherits, the capture of its output, and private directories.
\<close>

section \<open>What lies below\<close>

text \<open>
  A function of the system that fills a buffer of a given size returns a count and the text: the
  length of the text when it fits, the size that is needed when it does not, zero on failure.
\<close>

type_synonym 'w sized = "nat \<Rightarrow> 'w \<Rightarrow> (nat \<times> wide) \<times> 'w"

record startup =
  std_input :: nat
  std_output :: nat
  std_error :: nat
  handle_list :: "nat list"

record 'w winproc =
  wp_fs :: "'w winfs"
  last_error :: "'w \<Rightarrow> dword"
  get_full_path_name :: "wide \<Rightarrow> 'w sized"
  get_environment_variable :: "wide \<Rightarrow> 'w sized"
  get_module_file_name :: "'w sized"
  get_environment_strings :: "('w, wide) wincall"
  create_pipe :: "('w, nat \<times> nat) wincall"
  set_not_inherited :: "nat \<Rightarrow> ('w, unit) wincall"
  init_attribute_list :: "('w, unit) wincall"
  set_handle_list :: "nat list \<Rightarrow> ('w, unit) wincall"
  delete_attribute_list :: "'w \<Rightarrow> 'w"
  create_process :: "wide \<Rightarrow> wide \<Rightarrow> wide \<Rightarrow> startup \<Rightarrow> ('w, nat \<times> nat) wincall"
  read_pipe :: "nat \<Rightarrow> nat \<Rightarrow> ('w, string) wincall"
  terminate_process :: "nat \<Rightarrow> 'w \<Rightarrow> 'w"
  wait_process :: "nat \<Rightarrow> ('w, unit) wincall"
  get_exit_code :: "nat \<Rightarrow> ('w, dword) wincall"
  wp_temp_directory :: "'w \<Rightarrow> (string + wide) \<times> 'w"
  open_token :: "('w, nat) wincall"
  get_token_user :: "nat \<Rightarrow> ('w, bytes) wincall"
  sid_to_string :: "bytes \<Rightarrow> ('w, wide) wincall"
  make_descriptor :: "wide \<Rightarrow> ('w, nat) wincall"
  free_descriptor :: "nat \<Rightarrow> 'w \<Rightarrow> 'w"
  create_directory :: "wide \<Rightarrow> nat option \<Rightarrow> ('w, unit) wincall"
  list_recursively :: "wide \<Rightarrow> 'w \<Rightarrow> wide list"
  set_file_attributes :: "wide \<Rightarrow> dword \<Rightarrow> 'w \<Rightarrow> 'w"
  wp_remove_all :: "wide \<Rightarrow> 'w \<Rightarrow> 'w"

abbreviation wp_win :: "'w winproc \<Rightarrow> win" where
  "wp_win wp \<equiv> wf_win (wp_fs wp)"

abbreviation wp_msg :: "'w winproc \<Rightarrow> string \<Rightarrow> string \<Rightarrow> dword \<Rightarrow> string" where
  "wp_msg wp \<equiv> win_msg (wp_fs wp)"

section \<open>Paths\<close>

definition absolute_wpath :: "'w winproc \<Rightarrow> wide \<Rightarrow> ('w, wide) prog" where
  "absolute_wpath wp path w =
     (let fail = (\<lambda>u. throw_path (wp_fs wp) path (\<lambda>p. ''resolve '' @ p @ '': '' @ win_error (wp_win wp) (last_error wp u)) u) in
      case get_full_path_name wp path 0 w of
        ((need, _), w') \<Rightarrow>
          if need = 0 then fail w'
          else (case get_full_path_name wp path need w' of
                  ((n, buffer), w'') \<Rightarrow>
                    if n = 0 \<or> need \<le> n then fail w'' else Some (Inr (take n buffer), w'')))"

definition win_is_executable :: "'w winproc \<Rightarrow> wide \<Rightarrow> 'w \<Rightarrow> bool \<times> 'w" where
  "win_is_executable wp path w =
     (case get_file_attributes (wp_fs wp) path w of
        (Inl _, w') \<Rightarrow> (False, w')
      | (Inr attributes, w') \<Rightarrow> (attributes AND FILE_ATTRIBUTE_DIRECTORY = 0, w'))"

section \<open>Arguments\<close>

abbreviation "wslash \<equiv> (0x5C :: 16 word)"
abbreviation "wquote \<equiv> (0x22 :: 16 word)"
abbreviation "wspace \<equiv> (0x20 :: 16 word)"

text \<open>The loop of \<^verbatim>\<open>quote_argument\<close>: the text so far and the backslashes not yet written\<close>

primrec quote_loop :: "wide \<Rightarrow> nat \<Rightarrow> wide \<Rightarrow> wide \<times> nat" where
  "quote_loop [] slashes res = (res, slashes)"
| "quote_loop (c # cs) slashes res =
     (if c = wslash then quote_loop cs (slashes + 1) res
      else quote_loop cs 0 (res @ replicate (if c = wquote then slashes * 2 + 1 else slashes) wslash @ [c]))"

definition quote_argument :: "win \<Rightarrow> string \<Rightarrow> wide result" where
  "quote_argument win arg =
     (if CHR 0x00 \<in> set arg then throw ''execute: argument contains NUL''
      else bindE (utf8_to_wide win arg) (\<lambda>inp.
        case quote_loop inp 0 [wquote] of
          (res, slashes) \<Rightarrow> Inr (res @ replicate (slashes * 2) wslash @ [wquote])))"

primrec append_arguments :: "win \<Rightarrow> string list \<Rightarrow> wide \<Rightarrow> wide result" where
  "append_arguments win [] command = Inr command"
| "append_arguments win (arg # args) command =
     bindE (quote_argument win arg) (\<lambda>q. append_arguments win args (command @ wspace # q))"

definition command_line :: "win \<Rightarrow> string \<Rightarrow> string list \<Rightarrow> wide result" where
  "command_line win resolved args = bindE (quote_argument win resolved) (append_arguments win args)"

section \<open>The environment of a child\<close>

primrec wide_index :: "16 word \<Rightarrow> wide \<Rightarrow> nat option" where
  "wide_index c [] = None"
| "wide_index c (x # xs) = (if x = c then Some 0 else map_option Suc (wide_index c xs))"

definition wide_starts_with :: "wide \<Rightarrow> string \<Rightarrow> bool" where
  "wide_starts_with s p \<longleftrightarrow> take (length p) s = lit p"

text \<open>\<^verbatim>\<open>std::towupper\<close> in the \<^verbatim>\<open>C\<close> locale\<close>

definition wide_upper :: "16 word \<Rightarrow> 16 word" where
  "wide_upper c = (if 0x61 \<le> c \<and> c \<le> 0x7A then c - 0x20 else c)"

text \<open>The name of an entry; the hidden entries for the drives start with an equals sign\<close>

definition win_env_name :: "wide \<Rightarrow> wide" where
  "win_env_name entry =
     (let from_pos = (if hd entry = 0x3D then 1 else 0) in
      map wide_upper
        (case wide_index 0x3D (drop from_pos entry) of
           None \<Rightarrow> entry
         | Some i \<Rightarrow> take (from_pos + i) entry))"

definition win_private :: "wide \<Rightarrow> bool" where
  "win_private entry \<longleftrightarrow>
     (let name = win_env_name entry in
      wide_starts_with name ''AZURE_'' \<or> wide_starts_with name ''ACTIONS_ID_TOKEN_'' \<or>
      name = lit ''GH_TOKEN'' \<or> name = lit ''GITHUB_TOKEN'' \<or> name = lit ''INPUT_TOKEN'' \<or>
      name = lit ''GH_ENTERPRISE_TOKEN'' \<or> name = lit ''GITHUB_ENTERPRISE_TOKEN'')"

text \<open>
  The loop over the block of the parent: entries that end with a zero, and an empty one at the end
\<close>

function env_loop :: "wide \<Rightarrow> wide \<Rightarrow> wide" where
  "env_loop block filtered =
     (let entry = takeWhile (\<lambda>c. c \<noteq> 0) block in
      if entry = [] then filtered
      else env_loop (drop (length entry + 1) block)
             (if win_private entry then filtered else filtered @ entry @ [0]))"
  by pat_completeness auto
termination
proof (relation "measure (\<lambda>(block, filtered). length block)", goal_cases)
  case (2 block filtered entry)
  then have "block \<noteq> []" by auto
  then show ?case by (simp add: diff_less)
qed simp

declare env_loop.simps [simp del]

definition win_child_block :: "wide \<Rightarrow> wide" where
  "win_child_block block =
     (let filtered = env_loop block [] in (if filtered = [] then filtered @ [0] else filtered) @ [0])"

definition win_child_environment :: "'w winproc \<Rightarrow> ('w, wide) prog" where
  "win_child_environment wp =
     bindP (winP (get_environment_strings wp) (\<lambda>e. ''GetEnvironmentStringsW: '' @ win_error (wp_win wp) e)) (\<lambda>block.
     retP (win_child_block block))"

section \<open>The search for an executable\<close>

text \<open>\<^verbatim>\<open>std::filesystem::path::extension\<close>, as far as it matters whether it is empty\<close>

definition last_component :: "wide \<Rightarrow> wide" where
  "last_component p =
     (let q = (if 2 \<le> length p \<and> p ! 1 = 0x3A then drop 2 p else p) in
      rev (takeWhile (\<lambda>c. c \<noteq> wslash \<and> c \<noteq> 0x2F) (rev q)))"

definition has_no_extension :: "wide \<Rightarrow> bool" where
  "has_no_extension p \<longleftrightarrow>
     (let name = last_component p in name = lit ''..'' \<or> 0x2E \<notin> set (tl name))"

definition unquote :: "wide \<Rightarrow> wide" where
  "unquote dir =
     (if 2 \<le> length dir \<and> hd dir = wquote \<and> last dir = wquote then take (length dir - 2) (drop 1 dir) else dir)"

function win_path_loop :: "'w winproc \<Rightarrow> string \<Rightarrow> wide \<Rightarrow> wide \<Rightarrow> 'w \<Rightarrow> (string result \<times> 'w) option" where
  "win_path_loop wp name filename path w =
     (let semi = wide_index 0x3B path;
          dir = unquote (case semi of None \<Rightarrow> path | Some i \<Rightarrow> take i path);
          candidate = dir @ wslash # filename;
          (found, w') = (if dir = [] then (False, w) else win_is_executable wp candidate w)
      in if found then bindP (absolute_wpath wp candidate) (\<lambda>p. liftP (from_wide (wp_win wp) p)) w'
         else (case semi of
                 None \<Rightarrow> Some (throw (''find executable '' @ name @ '': not found on PATH''), w')
               | Some i \<Rightarrow> win_path_loop wp name filename (drop (i + 1) path) w'))"
  by pat_completeness auto
termination
proof (relation "measure (\<lambda>(wp, name, filename, path, w). length path)", goal_cases)
  case (2 wp name filename path w semi dir candidate found w' i)
  have "wide_index c p = Some k \<Longrightarrow> p \<noteq> []" for c p k by (cases p) simp_all
  with 2 show ?case by fastforce
qed simp

declare win_path_loop.simps [simp del]

definition win_find_executable :: "'w winproc \<Rightarrow> string \<Rightarrow> ('w, string) prog" where
  "win_find_executable wp name =
     bindP (checkP (\<not> (name = [] \<or> CHR 0x00 \<in> set name)) ''find executable: empty or invalid name'') (\<lambda>_.
     bindP (liftP (utf8_to_wide (wp_win wp) name)) (\<lambda>wname.
     let filename = (if has_no_extension wname then wname @ lit ''.exe'' else wname) in
     if list_ex (\<lambda>c. c = CHR ''/'' \<or> c = CHR 0x5C \<or> c = CHR '':'') name
     then (\<lambda>w. case win_is_executable wp filename w of
              (True, w') \<Rightarrow> bindP (absolute_wpath wp filename) (\<lambda>p. liftP (from_wide (wp_win wp) p)) w'
            | (False, w') \<Rightarrow> Some (throw (''find executable '' @ name @ '': not an executable file''), w'))
     else (\<lambda>w. case get_environment_variable wp (lit ''PATH'') 0 w of
              ((need, _), w') \<Rightarrow>
                if need = 0 then Some (throw (''find executable '' @ name @ '': PATH is empty''), w')
                else (case get_environment_variable wp (lit ''PATH'') need w' of
                        ((n, buffer), w'') \<Rightarrow>
                          if n = 0 \<or> need \<le> n
                          then Some (throw (''read PATH: '' @ win_error (wp_win wp) (last_error wp w'')), w'')
                          else win_path_loop wp name filename (take n buffer) w''))))"

text \<open>The buffer starts with 1024 characters and is doubled: \<open>k\<close> counts the doublings\<close>

function win_self_loop :: "'w winproc \<Rightarrow> nat \<Rightarrow> 'w \<Rightarrow> string result \<times> 'w" where
  "win_self_loop wp k w =
     (let len = 1024 * 2 ^ k in
      case get_module_file_name wp len w of
        ((n, buffer), w') \<Rightarrow>
          if n = 0 then (throw (''GetModuleFileNameW: '' @ win_error (wp_win wp) (last_error wp w')), w')
          else if n < len then (from_wide (wp_win wp) (take n buffer), w')
          else if 32768 \<le> len then (throw ''GetModuleFileNameW: executable path too long'', w')
          else win_self_loop wp (k + 1) w')"
  by pat_completeness auto
termination
proof (relation "measure (\<lambda>(wp, k, w). 32768 - 1024 * 2 ^ k)", goal_cases)
  case (2 wp k w len p w' n buffer)
  have "0 < (2::nat) ^ k" by simp
  with 2 have "1024 * 2 ^ k < (32768::nat)" "1024 * 2 ^ k < (2048 * 2 ^ k :: nat)" by simp_all
  then show ?case by (simp add: diff_less_mono2)
qed auto

declare win_self_loop.simps [simp del]

definition win_executable_path :: "'w winproc \<Rightarrow> ('w, string) prog" where
  "win_executable_path wp w = Some (win_self_loop wp 0 w)"

section \<open>Running a companion\<close>

definition start_win_child ::
  "'w winproc \<Rightarrow> string \<Rightarrow> wide \<Rightarrow> wide \<Rightarrow> wide \<Rightarrow> nat \<Rightarrow> nat \<Rightarrow> nat \<Rightarrow> ('w, nat \<times> nat) prog" where
  "start_win_child wp executable application command environment read_end write_end input_end =
     bindP (winP (init_attribute_list wp) (wp_msg wp ''InitializeProcThreadAttributeList'' executable)) (\<lambda>_.
     on_throw (delete_attribute_list wp) (
       let inherited = [write_end, input_end] in
       bindP (winP (set_handle_list wp inherited) (wp_msg wp ''UpdateProcThreadAttribute'' executable)) (\<lambda>_.
       winP (create_process wp application command environment
               \<lparr>std_input = input_end, std_output = write_end, std_error = write_end, handle_list = inherited\<rparr>)
         (wp_msg wp ''execute'' executable))))"

text \<open>
  The set-up: the pipe, its reading end taken out of the inheritance, the null device as the input.
  The two ends of the child are closed as soon as it runs, or by their scope when its start fails.
\<close>

definition open_child ::
  "'w winproc \<Rightarrow> string \<Rightarrow> wide \<Rightarrow> wide \<Rightarrow> wide \<Rightarrow> nat \<Rightarrow> nat \<Rightarrow> ('w, nat \<times> nat) prog" where
  "open_child wp executable application command environment read_end write_end =
     (let close = close_now (wp_fs wp) in
      bindP (on_throw (close write_end)
        (bindP (winP (set_not_inherited wp read_end) (wp_msg wp ''SetHandleInformation'' executable)) (\<lambda>_.
         bindP (winP (create_file (wp_fs wp) (lit ''NUL'') [GENERIC_READ] [FILE_SHARE_READ, FILE_SHARE_WRITE] True
                        OPEN_EXISTING FILE_ATTRIBUTE_NORMAL) (wp_msg wp ''open NUL'' executable)) (\<lambda>input_end.
         bindP (on_throw (close input_end)
                  (start_win_child wp executable application command environment read_end write_end input_end)) (\<lambda>child.
         retP (child, input_end)))))) (\<lambda>(child, input_end).
      bindP (doP (close write_end)) (\<lambda>_.
      bindP (doP (close input_end)) (\<lambda>_.
      retP child))))"

text \<open>The capture loop: the output so far and the code of the failed read, zero if there was none\<close>

partial_function (option) win_capture_loop ::
    "'w winproc \<Rightarrow> nat \<Rightarrow> nat \<Rightarrow> string \<Rightarrow> 'w \<Rightarrow> ((string \<times> dword) \<times> 'w) option" where
  "win_capture_loop wp read_end process out w =
     (case read_pipe wp read_end 16384 w of
        (Inl e, w') \<Rightarrow>
          if e \<noteq> ERROR_BROKEN_PIPE then Some ((out, e), terminate_process wp process w')
          else Some ((out, 0), w')
      | (Inr buffer, w') \<Rightarrow>
          if buffer = [] then Some ((out, 0), w')
          else win_capture_loop wp read_end process
                 (out @ take (min (length buffer) (output_limit - length out)) buffer) w')"

definition win_collect :: "'w winproc \<Rightarrow> string \<Rightarrow> nat \<Rightarrow> nat \<Rightarrow> ('w, ProcessResult) prog" where
  "win_collect wp executable read_end process w =
     (case win_capture_loop wp read_end process [] w of
        None \<Rightarrow> None
      | Some ((out, read_error), w1) \<Rightarrow>
          bindP (winP (wait_process wp process) (wp_msg wp ''wait for'' executable)) (\<lambda>_.
          bindP (checkP (read_error = 0) (wp_msg wp ''capture'' executable read_error)) (\<lambda>_.
          bindP (winP (get_exit_code wp process) (wp_msg wp ''GetExitCodeProcess'' executable)) (\<lambda>status.
          retP \<lparr>exit_code = (if status \<le> 0x7FFFFFFF then uint status else -1), captured = out\<rparr>))) w1)"

definition win_run_process :: "'w winproc \<Rightarrow> string \<Rightarrow> string list \<Rightarrow> ('w, ProcessResult) prog" where
  "win_run_process wp executable args =
     (let close = close_now (wp_fs wp) in
      bindP (win_find_executable wp executable) (\<lambda>resolved.
      bindP (liftP (command_line (wp_win wp) resolved args)) (\<lambda>command.
      bindP (checkP (length command < 32767) (''execute '' @ executable @ '': command line exceeds Windows limit'')) (\<lambda>_.
      bindP (liftP (utf8_to_wide (wp_win wp) resolved)) (\<lambda>application.
      bindP (win_child_environment wp) (\<lambda>environment.
      bindP (winP (create_pipe wp) (wp_msg wp ''CreatePipe'' executable)) (\<lambda>(read_end, write_end).
      scoped (close read_end) (
        bindP (open_child wp executable application command environment read_end write_end) (\<lambda>(process, thread).
        scoped (delete_attribute_list wp) (
        scoped (close process) (
        scoped (close thread) (
          win_collect wp executable read_end process))))))))))))"

section \<open>Private directories\<close>

primrec win_temp_attempts :: "'w winproc \<Rightarrow> wide \<Rightarrow> nat \<Rightarrow> nat \<Rightarrow> ('w, string) prog" where
  "win_temp_attempts wp base descriptor 0 =
     throw_path (wp_fs wp) base (\<lambda>p. ''temporary directory '' @ p @ '': exhausted unique names'')"
| "win_temp_attempts wp base descriptor (Suc n) =
     bindP (random_suffix (wp_fs wp)) (\<lambda>suffix.
     bindP (liftP (utf8_to_wide (wp_win wp) suffix)) (\<lambda>wsuffix w.
     let candidate = base @ wslash # lit ''.aas-sign-'' @ wsuffix in
     case create_directory wp candidate (Some descriptor) w of
       (Inr _, w') \<Rightarrow> Some (from_wide (wp_win wp) candidate, w')
     | (Inl e, w') \<Rightarrow>
         if e \<noteq> ERROR_ALREADY_EXISTS
         then throw_path (wp_fs wp) candidate (\<lambda>p. wp_msg wp ''CreateDirectoryW'' p e) w'
         else win_temp_attempts wp base descriptor n w'))"

text \<open>
  \<^verbatim>\<open>TempDir\<close>: the directory is private to the user of the process, whose identifier
  is looked up in the token of the process
\<close>

definition win_temp_dir :: "'w winproc \<Rightarrow> string \<Rightarrow> ('w, string) prog" where
  "win_temp_dir wp parent =
     (let err = (\<lambda>call e. ''temporary directory'' @ call @ '': '' @ win_error (wp_win wp) e) in
      bindP (if parent = []
             then (\<lambda>w. case wp_temp_directory wp w of
                     (Inl msg, w') \<Rightarrow> Some (throw (''temporary directory: '' @ msg), w')
                   | (Inr base, w') \<Rightarrow> Some (Inr base, w'))
             else liftP (utf8_to_wide (wp_win wp) parent)) (\<lambda>given.
      bindP (absolute_wpath wp given) (\<lambda>base.
      bindP (winP (open_token wp) (err '' OpenProcessToken'')) (\<lambda>token.
      scoped (close_now (wp_fs wp) token) (
        bindP (winP (get_token_user wp token) (err '' GetTokenInformation'')) (\<lambda>user.
        bindP (winP (sid_to_string wp user) (err '' ConvertSidToStringSidW'')) (\<lambda>sid.
        bindP (winP (make_descriptor wp (lit ''D:P(A;OICI;FA;;;'' @ sid @ lit '')'')) (err '' security'')) (\<lambda>descriptor.
        scoped (free_descriptor wp descriptor) (win_temp_attempts wp base descriptor 32)))))))))"

text \<open>The destructor: read-only attributes are removed first, since they prevent the removal\<close>

primrec make_writable :: "'w winproc \<Rightarrow> wide list \<Rightarrow> 'w \<Rightarrow> 'w" where
  "make_writable wp [] w = w"
| "make_writable wp (p # ps) w =
     (case get_file_attributes (wp_fs wp) p w of
        (Inl _, w') \<Rightarrow> make_writable wp ps w'
      | (Inr attributes, w') \<Rightarrow>
          make_writable wp ps
            (if attributes AND FILE_ATTRIBUTE_READONLY \<noteq> 0
             then set_file_attributes wp p (attributes AND NOT FILE_ATTRIBUTE_READONLY) w' else w'))"

definition remove_temp_dir :: "'w winproc \<Rightarrow> string \<Rightarrow> 'w \<Rightarrow> 'w" where
  "remove_temp_dir wp path w =
     (case utf8_to_wide (wp_win wp) path of
        Inl _ \<Rightarrow> w
      | Inr p \<Rightarrow> wp_remove_all wp p (make_writable wp (list_recursively wp p w) w))"

definition with_win_temp_dir :: "'w winproc \<Rightarrow> string \<Rightarrow> (string \<Rightarrow> ('w, 'a) prog) \<Rightarrow> ('w, 'a) prog" where
  "with_win_temp_dir wp parent f =
     bindP (win_temp_dir wp parent) (\<lambda>dir. scoped (remove_temp_dir wp dir) (f dir))"

section \<open>How a child reads its command line\<close>

text \<open>
  The documented rules by which a C program on Windows splits its command line. The program name is
  the text between quotation marks, or up to a blank. In the arguments, backslashes are literal
  unless a quotation mark follows: then each pair of them is one backslash, and the mark is literal
  if their number is odd. Other marks switch between quoted text, in which blanks do not end the
  argument, and unquoted text; two marks in a row within quoted text are one literal mark. The
  arguments of the function are whether the text is quoted, the backslashes before this point,
  and the argument so far.
\<close>

fun crt_arg :: "bool \<Rightarrow> nat \<Rightarrow> wide \<Rightarrow> wide \<Rightarrow> wide \<times> wide" where
  "crt_arg quoted n arg [] = (arg @ replicate n wslash, [])"
| "crt_arg quoted n arg (c # cs) =
     (if c = wslash then crt_arg quoted (n + 1) arg cs
      else if c = wquote then
        if odd n then crt_arg quoted 0 (arg @ replicate (n div 2) wslash @ [wquote]) cs
        else if quoted \<and> take 1 cs = [wquote] then crt_arg quoted 0 (arg @ replicate (n div 2) wslash @ [wquote]) (drop 1 cs)
        else crt_arg (\<not> quoted) 0 (arg @ replicate (n div 2) wslash) cs
      else if \<not> quoted \<and> c \<in> {wspace, 9} then (arg @ replicate n wslash, cs)
      else crt_arg quoted 0 (arg @ replicate n wslash @ [c]) cs)"

lemma crt_arg_rest: "length (snd (crt_arg quoted n arg cs)) \<le> length cs"
  by (induction quoted n arg cs rule: crt_arg.induct) (auto intro: le_trans)

function crt_args :: "wide \<Rightarrow> wide list" where
  "crt_args line =
     (case dropWhile (\<lambda>c. c \<in> {wspace, 9}) line of
        [] \<Rightarrow> []
      | c # cs \<Rightarrow> (case crt_arg False 0 [] (c # cs) of (arg, rest) \<Rightarrow> arg # crt_args rest))"
  by pat_completeness auto
termination
proof (relation "measure length", goal_cases)
  case (2 line c cs arg rest)
  have "c \<notin> {wspace, 9}" using 2(1) by (auto simp: dropWhile_eq_Cons_conv)
  then have "length (snd (crt_arg False 0 [] (c # cs))) \<le> length cs"
    using crt_arg_rest [of _ _ _ cs] by auto
  moreover have "length (c # cs) \<le> length line"
    using length_dropWhile_le [of "\<lambda>c. c \<in> {wspace, 9}" line] 2(1) by simp
  ultimately show ?case using 2(2) by (auto dest: arg_cong [where f = snd])
qed simp

declare crt_args.simps [simp del]

definition crt_argv :: "wide \<Rightarrow> wide list" where
  "crt_argv line =
     (if take 1 line = [wquote]
      then takeWhile (\<lambda>c. c \<noteq> wquote) (drop 1 line) # crt_args (drop 1 (dropWhile (\<lambda>c. c \<noteq> wquote) (drop 1 line)))
      else takeWhile (\<lambda>c. c \<notin> {wspace, 9}) line # crt_args (dropWhile (\<lambda>c. c \<notin> {wspace, 9}) line))"

section \<open>The command line\<close>

text \<open>What the quoting loop writes after the opening mark, with the backslashes that are due\<close>

primrec quoted_rest :: "nat \<Rightarrow> wide \<Rightarrow> wide" where
  "quoted_rest n [] = replicate (n * 2) wslash @ [wquote]"
| "quoted_rest n (c # cs) =
     (if c = wslash then quoted_rest (n + 1) cs
      else replicate (if c = wquote then n * 2 + 1 else n) wslash @ c # quoted_rest 0 cs)"

lemma quote_loop_rest:
  "(case quote_loop inp n res of (r, k) \<Rightarrow> r @ replicate (k * 2) wslash @ [wquote]) = res @ quoted_rest n inp"
  by (induction inp arbitrary: n res) simp_all

lemma quote_argument_Inr [result_iff]:
  "quote_argument win arg = Inr q \<longleftrightarrow>
    CHR 0x00 \<notin> set arg \<and> (\<exists>u. utf8_to_wide win arg = Inr u \<and> q = wquote # quoted_rest 0 u)"
proof -
  have "(case quote_loop u 0 [wquote] of (r, k) \<Rightarrow> Inr (r @ replicate (k * 2) wslash @ [wquote])) =
      (Inr (wquote # quoted_rest 0 u) :: wide result)" for u
    using quote_loop_rest [of u 0 "[wquote]"] by (simp split: prod.splits)
  then show ?thesis by (auto simp: quote_argument_def bindE_Inr_iff)
qed

lemma crt_arg_slashes: "crt_arg quoted n arg (replicate k wslash @ rest) = crt_arg quoted (n + k) arg rest"
  by (induction k arbitrary: n) simp_all

text \<open>A quoted argument is read back, and what follows it is left\<close>

lemma crt_arg_quoted:
  assumes "take 1 rest \<noteq> [wquote]"
  shows "crt_arg True 0 arg (quoted_rest n u @ rest) = crt_arg False 0 (arg @ replicate n wslash @ u) rest"
proof (induction u arbitrary: n arg)
  case Nil
  have "n * 2 div 2 = n" by simp
  with assms show ?case by (simp add: crt_arg_slashes)
next
  case (Cons c u)
  consider "c = wslash" | "c = wquote" | "c \<noteq> wslash" "c \<noteq> wquote" by blast
  then show ?case
  proof cases
    case 1
    then show ?thesis using Cons.IH [of arg "n + 1"] by (simp add: replicate_app_Cons_same)
  next
    case 2
    have "Suc (n * 2) div 2 = n" by simp
    with 2 Cons.IH [of "arg @ replicate n wslash @ [wquote]" 0] show ?thesis
      using crt_arg_slashes [of True 0 arg "Suc (n * 2)" "wquote # quoted_rest 0 u @ rest"] by simp
  next
    case 3
    with Cons.IH [of "arg @ replicate n wslash @ [c]" 0] show ?thesis
      using crt_arg_slashes [of True 0 arg n "c # quoted_rest 0 u @ rest"] by simp
  qed
qed

lemma crt_args_quoted:
  assumes "rest = [] \<or> hd rest = wspace"
  shows "crt_args (wspace # wquote # quoted_rest 0 u @ rest) = u # crt_args rest"
proof -
  have "crt_arg False 0 [] (wquote # quoted_rest 0 u @ rest) = crt_arg True 0 [] (quoted_rest 0 u @ rest)"
    by simp
  also have "\<dots> = crt_arg False 0 u rest"
    using crt_arg_quoted [of rest "[]" 0 u] assms by (cases rest) auto
  finally have q: "crt_arg False 0 [] (wquote # quoted_rest 0 u @ rest) = crt_arg False 0 u rest" .
  have e: "crt_args (wspace # ts) = crt_args ts" for ts
    by (simp add: crt_args.simps [of "wspace # ts"] crt_args.simps [of ts])
  have step: "crt_args (wspace # wquote # quoted_rest 0 u @ rest) = (case crt_arg False 0 u rest of (arg, r) \<Rightarrow> arg # crt_args r)"
    by (simp add: crt_args.simps [of "wspace # wquote # _"] q del: crt_arg.simps(2))
  show ?thesis
  proof (cases rest)
    case Nil
    with step show ?thesis by (simp add: crt_args.simps [of "[]"])
  next
    case (Cons c ts)
    with assms have "rest = wspace # ts" by simp
    with step e show ?thesis by simp
  qed
qed

lemma append_arguments_rest:
  assumes "append_arguments win args command = Inr line"
  shows "\<exists>us. list_all2 (\<lambda>a u. utf8_to_wide win a = Inr u) args us \<and>
    line = command @ concat (map (\<lambda>u. wspace # wquote # quoted_rest 0 u) us)"
  using assms
proof (induction args arbitrary: command)
  case (Cons a args)
  then obtain u where u: "utf8_to_wide win a = Inr u"
    and r: "append_arguments win args (command @ wspace # wquote # quoted_rest 0 u) = Inr line"
    by (auto simp: bindE_Inr_iff quote_argument_Inr)
  from Cons.IH [OF r] obtain us where "list_all2 (\<lambda>a u. utf8_to_wide win a = Inr u) args us"
    "line = (command @ wspace # wquote # quoted_rest 0 u) @ concat (map (\<lambda>u. wspace # wquote # quoted_rest 0 u) us)"
    by blast
  with u show ?case by (intro exI [of _ "u # us"]) simp
qed simp

lemma crt_args_line: "crt_args (concat (map (\<lambda>u. wspace # wquote # quoted_rest 0 u) us)) = us"
proof (induction us)
  case (Cons u us)
  have "concat (map (\<lambda>u. wspace # wquote # quoted_rest 0 u) us) = [] \<or>
      hd (concat (map (\<lambda>u. wspace # wquote # quoted_rest 0 u) us)) = wspace"
    by (cases us) simp_all
  from crt_args_quoted [OF this, of u] Cons show ?case by simp
qed (simp add: crt_args.simps [of "[]"])

text \<open>A path is no text that ends with a backslash or holds a quotation mark\<close>

lemma quoted_rest_path:
  assumes "wquote \<notin> set u" "u = [] \<and> n = 0 \<or> u \<noteq> [] \<and> last u \<noteq> wslash"
  shows "quoted_rest n u = replicate n wslash @ u @ [wquote]"
  using assms
proof (induction u arbitrary: n)
  case (Cons c u)
  show ?case
  proof (cases "c = wslash")
    case True
    with Cons.prems have "u \<noteq> []" "last u \<noteq> wslash" by (auto split: if_splits)
    with Cons True show ?thesis by (simp add: replicate_app_Cons_same)
  next
    case False
    from Cons.prems have "wquote \<notin> set u" "u = [] \<and> 0 = (0 :: nat) \<or> u \<noteq> [] \<and> last u \<noteq> wslash"
      by (auto split: if_splits)
    from Cons.IH [OF this] False Cons.prems(1) show ?thesis by auto
  qed
qed simp

lemma crt_argv_command_line:
  assumes "command_line win resolved args = Inr line" "utf8_to_wide win resolved = Inr program"
    and "wquote \<notin> set program" "program = [] \<or> last program \<noteq> wslash"
  shows "\<exists>us. list_all2 (\<lambda>a u. utf8_to_wide win a = Inr u) args us \<and> crt_argv line = program # us"
proof -
  have p: "quoted_rest 0 program = program @ [wquote]"
    using quoted_rest_path [OF assms(3), of 0] assms(4) by auto
  from assms(1,2) obtain us where us: "list_all2 (\<lambda>a u. utf8_to_wide win a = Inr u) args us"
    and l: "line = (wquote # quoted_rest 0 program) @ concat (map (\<lambda>u. wspace # wquote # quoted_rest 0 u) us)"
    by (auto simp: command_line_def bindE_Inr_iff quote_argument_Inr dest!: append_arguments_rest)
  have t: "takeWhile (\<lambda>c. c \<noteq> wquote) (program @ wquote # rest) = program"
    "dropWhile (\<lambda>c. c \<noteq> wquote) (program @ wquote # rest) = wquote # rest" for rest
    using assms(3) by (simp_all add: takeWhile_append dropWhile_append)
  have "crt_argv line = program # us"
    unfolding l p crt_argv_def by (simp add: t crt_args_line)
  with us show ?thesis by blast
qed

section \<open>The environment\<close>

text \<open>The entries of a block, and the block of a list of entries\<close>

function block_entries :: "wide \<Rightarrow> wide list" where
  "block_entries block =
     (let entry = takeWhile (\<lambda>c. c \<noteq> 0) block in
      if entry = [] then [] else entry # block_entries (drop (length entry + 1) block))"
  by pat_completeness auto
termination
proof (relation "measure length", goal_cases)
  case (2 block entry)
  then have "block \<noteq> []" by auto
  then show ?case by (simp add: diff_less)
qed simp

declare block_entries.simps [simp del]

definition env_block :: "wide list \<Rightarrow> wide" where
  "env_block es = concat (map (\<lambda>e. e @ [0]) es) @ [0]"

definition proper_entries :: "wide list \<Rightarrow> bool" where
  "proper_entries es \<longleftrightarrow> list_all (\<lambda>e. e \<noteq> [] \<and> 0 \<notin> set e) es"

lemma env_block_simps [simp]:
  "env_block [] = [0]" "env_block (e # es) = e @ 0 # env_block es"
  by (simp_all add: env_block_def)

lemma first_entry: "0 \<notin> set e \<Longrightarrow> takeWhile (\<lambda>c. c \<noteq> 0) (e @ 0 # rest) = e" for e :: wide
  by (induction e) auto

lemma env_loop_block:
  "proper_entries es \<Longrightarrow>
    env_loop (env_block es) filtered = filtered @ concat (map (\<lambda>e. e @ [0]) (filter (\<lambda>e. \<not> win_private e) es))"
proof (induction es arbitrary: filtered)
  case (Cons e es)
  then have e: "e \<noteq> []" "0 \<notin> set e" and "proper_entries es" by (simp_all add: proper_entries_def)
  with Cons.IH show ?case
    by (subst env_loop.simps) (simp add: first_entry Let_def)
qed (simp add: env_loop.simps)

lemma block_entries_block: "proper_entries es \<Longrightarrow> block_entries (env_block es) = es"
proof (induction es)
  case (Cons e es)
  then show ?case
    by (subst block_entries.simps) (simp add: first_entry Let_def proper_entries_def)
qed (simp add: block_entries.simps)

lemma win_child_block_entries:
  assumes "proper_entries es"
  shows "block_entries (win_child_block (env_block es)) = filter (\<lambda>e. \<not> win_private e) es"
proof -
  let ?es = "filter (\<lambda>e. \<not> win_private e) es"
  have p: "proper_entries ?es" using assms by (auto simp: proper_entries_def list_all_iff)
  have f: "env_loop (env_block es) [] = concat (map (\<lambda>e. e @ [0]) ?es)"
    using env_loop_block [OF assms, of "[]"] by simp
  show ?thesis
  proof (cases "concat (map (\<lambda>e. e @ [0]) ?es) = []")
    case True
    then have "?es = []" by (auto simp: filter_empty_conv)
    moreover have "win_child_block (env_block es) = [0, 0]"
      unfolding win_child_block_def f True by simp
    ultimately show ?thesis by (simp add: block_entries.simps)
  next
    case False
    then have "win_child_block (env_block es) = env_block ?es"
      unfolding win_child_block_def f by (simp add: Let_def env_block_def)
    then show ?thesis by (simp add: block_entries_block [OF p])
  qed
qed

section \<open>What a child is given\<close>

text \<open>The environment of the process, and what the system says of the path of a file\<close>

definition environment_contract :: "'w winproc \<Rightarrow> wide list \<Rightarrow> bool" where
  "environment_contract wp es \<longleftrightarrow> proper_entries es \<and>
     (\<forall>w. case get_environment_strings wp w of (Inl _, w') \<Rightarrow> True | (Inr block, w') \<Rightarrow> block = env_block es)"

definition plain_path :: "wide \<Rightarrow> bool" where
  "plain_path u \<longleftrightarrow> wquote \<notin> set u \<and> (u = [] \<or> last u \<noteq> wslash)"

definition file_path_contract :: "'w winproc \<Rightarrow> bool" where
  "file_path_contract wp \<longleftrightarrow>
     (\<forall>path w a w' need u n buffer u'. get_file_attributes (wp_fs wp) path w = (Inr a, w') \<longrightarrow>
        a AND FILE_ATTRIBUTE_DIRECTORY = 0 \<longrightarrow> get_full_path_name wp path need u = ((n, buffer), u') \<longrightarrow>
        n < need \<longrightarrow> plain_path (take n buffer)) \<and>
     (\<forall>s u. encode_utf8 (wp_win wp) u = Inr s \<longrightarrow> decode_utf8 (wp_win wp) s = Some u)"

lemma absolute_wpath_Inr:
  assumes "absolute_wpath wp path w = Some (Inr u, w')"
  shows "\<exists>need n buffer v v'. get_full_path_name wp path need v = ((n, buffer), v') \<and> n < need \<and> u = take n buffer"
  using assms
  by (fastforce simp: absolute_wpath_def throw_path_def bindP_def Let_def split: prod.splits if_splits sum.splits)

lemma found_path_plain:
  assumes c: "file_path_contract wp" and x: "win_is_executable wp path w = (True, w')"
    and r: "bindP (absolute_wpath wp path) (\<lambda>p. liftP (from_wide (wp_win wp) p)) w' = Some (Inr p, w'')"
    and u: "utf8_to_wide (wp_win wp) p = Inr u"
  shows "plain_path u"
proof -
  from r obtain q v where q: "absolute_wpath wp path w' = Some (Inr q, v)" "from_wide (wp_win wp) q = Inr p"
    by (auto simp: bindP_Inr_iff)
  from x obtain a where "get_file_attributes (wp_fs wp) path w = (Inr a, w')" "a AND FILE_ATTRIBUTE_DIRECTORY = 0"
    by (auto simp: win_is_executable_def split: prod.splits sum.splits)
  with c absolute_wpath_Inr [OF q(1)] have plain: "plain_path q" unfolding file_path_contract_def by blast
  show ?thesis
  proof (cases "q = [] \<or> p = []")
    case True
    with q(2) u show ?thesis by (auto simp: plain_path_def from_wide_def utf8_to_wide_def)
  next
    case False
    with q(2) have "encode_utf8 (wp_win wp) q = Inr p" by (auto simp: from_wide_def split: sum.splits)
    with c have "decode_utf8 (wp_win wp) p = Some q" unfolding file_path_contract_def by blast
    with False u have "u = q" by (auto simp: utf8_to_wide_def split: if_splits)
    with plain show ?thesis by simp
  qed
qed

lemma wide_index_pos: "wide_index c p = Some i \<Longrightarrow> p \<noteq> []"
  by (cases p) simp_all

lemma win_path_loop_plain:
  assumes c: "file_path_contract wp" and u: "utf8_to_wide (wp_win wp) p = Inr u"
  shows "win_path_loop wp name filename path w = Some (Inr p, w') \<Longrightarrow> plain_path u"
proof (induction path arbitrary: w rule: measure_induct_rule [of length])
  case (less path)
  let ?dir = "unquote (case wide_index 0x3B path of None \<Rightarrow> path | Some i \<Rightarrow> take i path)"
  obtain found w1 where x: "(if ?dir = [] then (False, w) else win_is_executable wp (?dir @ wslash # filename) w) = (found, w1)"
    by fastforce
  note run = less.prems [unfolded win_path_loop.simps [of wp name filename path w] Let_def x prod.case]
  show ?case
  proof (cases found)
    case True
    with x have "win_is_executable wp (?dir @ wslash # filename) w = (True, w1)" by (auto split: if_splits)
    from found_path_plain [OF c this _ u] run True show ?thesis by simp
  next
    case False
    with run obtain i where i: "wide_index 0x3B path = Some i"
      "win_path_loop wp name filename (drop (i + 1) path) w1 = Some (Inr p, w')"
      by (auto split: option.splits)
    have "length (drop (i + 1) path) < length path"
      using wide_index_pos [OF i(1)] by (simp add: diff_less)
    from less.IH [OF this i(2)] show ?thesis .
  qed
qed

lemma win_find_plain:
  assumes c: "file_path_contract wp" and u: "utf8_to_wide (wp_win wp) p = Inr u"
    and run: "win_find_executable wp name w = Some (Inr p, w')"
  shows "plain_path u"
proof -
  from run obtain wname where r: "(let filename = (if has_no_extension wname then wname @ lit ''.exe'' else wname) in
     if list_ex (\<lambda>c. c = CHR ''/'' \<or> c = CHR 0x5C \<or> c = CHR '':'') name
     then (\<lambda>w. case win_is_executable wp filename w of
              (True, w') \<Rightarrow> bindP (absolute_wpath wp filename) (\<lambda>p. liftP (from_wide (wp_win wp) p)) w'
            | (False, w') \<Rightarrow> Some (throw (''find executable '' @ name @ '': not an executable file''), w'))
     else (\<lambda>w. case get_environment_variable wp (lit ''PATH'') 0 w of
              ((need, _), w') \<Rightarrow>
                if need = 0 then Some (throw (''find executable '' @ name @ '': PATH is empty''), w')
                else (case get_environment_variable wp (lit ''PATH'') need w' of
                        ((n, buffer), w'') \<Rightarrow>
                          if n = 0 \<or> need \<le> n
                          then Some (throw (''read PATH: '' @ win_error (wp_win wp) (last_error wp w'')), w'')
                          else win_path_loop wp name filename (take n buffer) w''))) w = Some (Inr p, w')"
    unfolding win_find_executable_def bindP_Inr_iff prog_Inr_iff by blast
  show ?thesis
  proof (cases "list_ex (\<lambda>c. c = CHR ''/'' \<or> c = CHR 0x5C \<or> c = CHR '':'') name")
    case True
    let ?f = "if has_no_extension wname then wname @ lit ''.exe'' else wname"
    obtain found w1 where x: "win_is_executable wp ?f w = (found, w1)" by fastforce
    from r True have "found" "bindP (absolute_wpath wp ?f) (\<lambda>p. liftP (from_wide (wp_win wp) p)) w1 = Some (Inr p, w')"
      by (auto simp: Let_def x split: bool.splits)
    with x show ?thesis using found_path_plain [OF c _ _ u] by simp
  next
    case False
    with r show ?thesis
      by (auto simp: Let_def split: prod.splits if_splits intro: win_path_loop_plain [OF c u])
  qed
qed

lemma win_capture_bounded:
  assumes "win_capture_loop wp h ph out w = Some rw"
  shows "length out \<le> output_limit \<longrightarrow> length (fst (fst rw)) \<le> output_limit"
proof (rule win_capture_loop.raw_induct [where P = "\<lambda>wp h ph out w rw. length out \<le> output_limit \<longrightarrow>
    length (fst (fst rw)) \<le> output_limit", OF _ assms], goal_cases)
  case (1 f wp h ph out w rw)
  obtain r w1 where r: "read_pipe wp h 16384 w = (r, w1)" by fastforce
  show ?case
  proof (cases r)
    case (Inl e)
    with 1 r show ?thesis by (auto split: if_splits)
  next
    case (Inr buffer)
    show ?thesis
    proof (cases "buffer = []")
      case True
      with 1 r Inr show ?thesis by auto
    next
      case False
      let ?out = "out @ take (min (length buffer) (output_limit - length out)) buffer"
      from False 1(2) r Inr have "f wp h ph ?out w1 = Some rw" by simp
      from 1(1) [OF this] have "length ?out \<le> output_limit \<longrightarrow> length (fst (fst rw)) \<le> output_limit" .
      then show ?thesis by auto
    qed
  qed
qed

lemma win_collect_bounded:
  assumes "win_collect wp executable h ph w = Some (Inr res, w')"
  shows "length (captured res) \<le> output_limit"
proof -
  from assms obtain out e w1 where l: "win_capture_loop wp h ph [] w = Some ((out, e), w1)" and "captured res = out"
    by (auto simp: win_collect_def bindP_Inr_iff split: option.splits prod.splits)
  with win_capture_bounded [OF l] show ?thesis by simp
qed

lemma open_child_created:
  assumes "open_child wp executable application command environment h write_end w = Some (Inr child, w')"
  shows "\<exists>input_end u v x y. create_process wp application command environment
      \<lparr>std_input = input_end, std_output = write_end, std_error = write_end, handle_list = [write_end, input_end]\<rparr> u = (Inr child, v) \<and>
    create_file (wp_fs wp) (lit ''NUL'') [GENERIC_READ] [FILE_SHARE_READ, FILE_SHARE_WRITE] True OPEN_EXISTING
      FILE_ATTRIBUTE_NORMAL x = (Inr input_end, y)"
  using assms unfolding open_child_def start_win_child_def Let_def
  by (clarsimp simp: bindP_Inr_iff on_throw_Inr_iff winP_Inr_iff prog_Inr_iff) blast

lemma child_environment_entries:
  assumes "environment_contract wp es" "win_child_environment wp w = Some (Inr block, w')"
  shows "block_entries block = filter (\<lambda>e. \<not> win_private e) es"
proof -
  from assms(2) obtain b v where "get_environment_strings wp w = (Inr b, v)" "block = win_child_block b"
    by (auto simp: win_child_environment_def bindP_Inr_iff winP_Inr_iff prog_Inr_iff)
  with assms(1) [unfolded environment_contract_def, THEN conjunct2, rule_format, of w] assms(1)
  show ?thesis by (auto simp: environment_contract_def win_child_block_entries)
qed

lemma win_run_process_created:
  assumes c: "environment_contract wp es" "file_path_contract wp"
    and run: "win_run_process wp executable args w = Some (Inr res, w')"
  shows "\<exists>application us command environment st child u v.
    create_process wp application command environment st u = (Inr child, v) \<and>
    handle_list st = [std_output st, std_input st] \<and> std_error st = std_output st \<and>
    (\<exists>h x y. create_pipe wp x = (Inr (h, std_output st), y)) \<and>
    (\<exists>x y. create_file (wp_fs wp) (lit ''NUL'') [GENERIC_READ] [FILE_SHARE_READ, FILE_SHARE_WRITE] True OPEN_EXISTING
       FILE_ATTRIBUTE_NORMAL x = (Inr (std_input st), y)) \<and>
    length command < 32767 \<and> crt_argv command = application # us \<and>
    list_all2 (\<lambda>a x. utf8_to_wide (wp_win wp) a = Inr x) args us \<and>
    block_entries environment = filter (\<lambda>e. \<not> win_private e) es \<and>
    length (captured res) \<le> output_limit"
proof -
  from run obtain resolved command application environment h write_end child u0 u1 u2 u3 u4 u5 u6 ph where
    f: "win_find_executable wp executable w = Some (Inr resolved, u0)" and
    l: "command_line (wp_win wp) resolved args = Inr command" "length command < 32767"
      "utf8_to_wide (wp_win wp) resolved = Inr application" and
    e: "win_child_environment wp u1 = Some (Inr environment, u2)" and
    pi: "create_pipe wp u2 = (Inr (h, write_end), u3)" and
    o: "open_child wp executable application command environment h write_end u3 = Some (Inr child, u4)" and
    g: "win_collect wp executable h ph u5 = Some (Inr res, u6)"
    unfolding win_run_process_def Let_def
    by (clarsimp simp: bindP_Inr_iff prog_Inr_iff scoped_Inr_iff checkE_Inr_iff winP_Inr_iff split: prod.splits)
  from win_find_plain [OF c(2) l(3) f] have p: "wquote \<notin> set application" "application = [] \<or> last application \<noteq> wslash"
    by (simp_all add: plain_path_def)
  from crt_argv_command_line [OF l(1,3) p] obtain us where
    us: "list_all2 (\<lambda>a u. utf8_to_wide (wp_win wp) a = Inr u) args us" "crt_argv command = application # us" by blast
  from open_child_created [OF o] obtain input_end u v x y where
    k: "create_process wp application command environment
      \<lparr>std_input = input_end, std_output = write_end, std_error = write_end, handle_list = [write_end, input_end]\<rparr> u = (Inr child, v)"
    and n: "create_file (wp_fs wp) (lit ''NUL'') [GENERIC_READ] [FILE_SHARE_READ, FILE_SHARE_WRITE] True OPEN_EXISTING
      FILE_ATTRIBUTE_NORMAL x = (Inr input_end, y)"
    by blast
  have n': "\<exists>x y. create_file (wp_fs wp) (lit ''NUL'') [GENERIC_READ] [FILE_SHARE_READ, FILE_SHARE_WRITE] True OPEN_EXISTING
      FILE_ATTRIBUTE_NORMAL x = (Inr input_end, y)" and pi': "\<exists>h x y. create_pipe wp x = (Inr (h, write_end), y)"
    using n pi by blast+
  show ?thesis
    using k us l(2) n' pi' child_environment_entries [OF c(1) e] win_collect_bounded [OF g]
    by (intro exI [of _ application] exI [of _ us] exI [of _ command] exI [of _ environment]
        exI [of _ "\<lparr>std_input = input_end, std_output = write_end, std_error = write_end, handle_list = [write_end, input_end]\<rparr>"]
        exI [of _ child] exI [of _ u] exI [of _ v]) simp
qed

section \<open>A concrete system\<close>

definition sample_entries :: "wide list" where
  "sample_entries = [lit ''=C:=C:'', lit ''PATH=x'', lit ''Azure_Client_Secret=s'', lit ''gh_token=t'']"

definition sample_full_path :: "wide \<Rightarrow> sample_winfiles sized" where
  "sample_full_path path need w =
     (if \<not> plain_path path then ((0, []), w)
      else if need = 0 then ((length path + 1, []), w) else ((length path, path), w))"

definition sample_winproc :: "sample_winfiles winproc" where
  "sample_winproc =
     \<lparr>wp_fs = sample_winfs, last_error = (\<lambda>_. 5), get_full_path_name = sample_full_path,
      get_environment_variable = (\<lambda>n need w. ((0, []), w)), get_module_file_name = (\<lambda>need w. ((0, []), w)),
      get_environment_strings = (\<lambda>w. (Inr (env_block sample_entries), w)), create_pipe = (\<lambda>w. (Inr (5, 6), w)),
      set_not_inherited = (\<lambda>h w. (Inr (), w)), init_attribute_list = (\<lambda>w. (Inr (), w)),
      set_handle_list = (\<lambda>hs w. (Inr (), w)), delete_attribute_list = (\<lambda>w. w),
      create_process = (\<lambda>a c e st w. (Inr (7, 8), w)), read_pipe = (\<lambda>h n w. (Inl ERROR_BROKEN_PIPE, w)),
      terminate_process = (\<lambda>p w. w), wait_process = (\<lambda>p w. (Inr (), w)), get_exit_code = (\<lambda>p w. (Inr 3, w)),
      wp_temp_directory = (\<lambda>w. (Inr (lit ''t''), w)), open_token = (\<lambda>w. (Inr 9, w)),
      get_token_user = (\<lambda>h w. (Inr [], w)), sid_to_string = (\<lambda>s w. (Inr (lit ''S-1''), w)),
      make_descriptor = (\<lambda>s w. (Inr 1, w)), free_descriptor = (\<lambda>d w. w), create_directory = (\<lambda>p d w. (Inr (), w)),
      list_recursively = (\<lambda>p w. []), set_file_attributes = (\<lambda>p a w. w), wp_remove_all = (\<lambda>p w. w)\<rparr>"

lemma sample_environment_contract: "environment_contract sample_winproc sample_entries"
  by (simp add: environment_contract_def sample_winproc_def proper_entries_def sample_entries_def lit_def)

lemma sample_file_path_contract: "file_path_contract sample_winproc"
proof -
  have "decode_utf8 sample_win s = Some u" if e: "encode_utf8 sample_win u = Inr s" for s u
  proof -
    from e have a: "list_all (\<lambda>c. c < 128) u" and s: "s = map (\<lambda>c. char_of (unat c)) u"
      by (auto simp: sample_win_def split: if_splits)
    have b: "of_char (char_of (unat c)) = unat c" "(of_char (char_of (unat c)) :: 16 word) = c" if "c < 128" for c :: "16 word"
    proof -
      have "unat c < 256" using that by (simp add: word_less_nat_alt)
      then show n: "of_char (char_of (unat c)) = unat c" by simp
      have "(of_char (char_of (unat c)) :: 16 word) = of_nat (of_char (char_of (unat c)))" by (simp only: of_nat_of_char)
      then show "(of_char (char_of (unat c)) :: 16 word) = c" by (simp only: n) simp
    qed
    have "lit s = u" using a b(2) unfolding s lit_def by (simp add: map_idI list_all_iff)
    moreover have "list_all (\<lambda>c. of_char c < (128 :: nat)) s"
      using a b(1) unfolding s by (auto simp: list_all_iff word_less_nat_alt)
    ultimately show ?thesis by (simp add: sample_win_def)
  qed
  then show ?thesis
    by (auto simp: file_path_contract_def sample_winproc_def sample_full_path_def sample_winfs_def plain_path_def [of "[]"] split: if_splits)
qed

abbreviation sample_tools :: sample_winfiles where
  "sample_tools \<equiv> ([lit ''x/b.exe'' \<mapsto> [1], lit ''NUL'' \<mapsto> []], Map.empty)"

abbreviation sample_args :: "string list" where
  "sample_args \<equiv> [''a b'', [CHR ''q'', CHR 0x22], [CHR ''d'', CHR 0x5C], []]"

lemma sample_find:
  "win_find_executable sample_winproc ''x/b.exe'' sample_tools = Some (Inr ''x/b.exe'', sample_tools)"
  by (simp add: win_find_executable_def utf8_to_wide_def from_wide_def sample_winproc_def sample_winfs_def sample_win_def
      has_no_extension_def last_component_def Let_def bindP_def win_is_executable_def absolute_wpath_def
      sample_full_path_def plain_path_def lit_def) code_simp

lemma sample_command:
  "\<exists>command. command_line (wp_win sample_winproc) ''x/b.exe'' sample_args = Inr command \<and> length command < 32767"
  by (simp add: command_line_def quote_argument_def utf8_to_wide_def sample_winproc_def sample_winfs_def sample_win_def lit_def)

lemma sample_win_run:
  "\<exists>w'. win_run_process sample_winproc ''x/b.exe'' sample_args sample_tools = Some (Inr \<lparr>exit_code = 3, captured = []\<rparr>, w')"
proof -
  have c: "win_capture_loop sample_winproc h p [] w = Some (([], 0), w)" for h p w
    by (simp add: win_capture_loop.simps sample_winproc_def)
  obtain command where l: "command_line (wp_win sample_winproc) ''x/b.exe'' sample_args = Inr command" "length command < 32767"
    using sample_command by blast
  have u: "utf8_to_wide (wp_win sample_winproc) ''x/b.exe'' = Inr (lit ''x/b.exe'')"
    by (simp add: utf8_to_wide_def sample_winproc_def sample_winfs_def sample_win_def)
  have e: "win_child_environment sample_winproc w = Some (Inr (win_child_block (env_block sample_entries)), w)" for w
    by (simp add: win_child_environment_def sample_winproc_def winP_def bindP_def)
  have p: "create_pipe sample_winproc w = (Inr (5, 6), w)" for w by (simp add: sample_winproc_def)
  have o: "\<exists>w'. open_child sample_winproc ''x/b.exe'' a cmd env 5 6 sample_tools = Some (Inr (7, 8), w')" for a cmd env
    by (simp add: open_child_def start_win_child_def Let_def bindP_def on_throw_def winP_def sample_winproc_def sample_winfs_def
        sample_create_def lit_def)
  have g: "\<exists>w'. win_collect sample_winproc ''x/b.exe'' 5 7 w = Some (Inr \<lparr>exit_code = 3, captured = []\<rparr>, w')" for w
    by (simp add: win_collect_def c) (simp add: bindP_def winP_def sample_winproc_def)
  obtain w1 where o1: "open_child sample_winproc ''x/b.exe'' (lit ''x/b.exe'') command
      (win_child_block (env_block sample_entries)) 5 6 sample_tools = Some (Inr (7, 8), w1)" using o by blast
  obtain w2 where g1: "win_collect sample_winproc ''x/b.exe'' 5 7 w1 = Some (Inr \<lparr>exit_code = 3, captured = []\<rparr>, w2)" using g by blast
  show ?thesis
    unfolding win_run_process_def Let_def
    by (simp add: bindP_def scoped_def winP_def sample_find l u e p o1 g1)
qed

section \<open>Properties\<close>

text \<open>
  C26: a companion on Windows receives exactly the arguments it is meant to receive: the command line
  that \<^verbatim>\<open>run_process\<close> builds, split by the documented rules for a C program, gives the
  path of the program and the arguments, whatever blanks, quotation marks and backslashes they
  contain, and however many. (The path itself holds no quotation mark and does not end with a
  backslash, as no file name does.)
\<close>

theorem win_command_line_parses:
  assumes "command_line win resolved args = Inr line" "utf8_to_wide win resolved = Inr program"
    and "wquote \<notin> set program" "program = [] \<or> last program \<noteq> wslash"
  shows "\<exists>us. list_all2 (\<lambda>a u. utf8_to_wide win a = Inr u) args us \<and> crt_argv line = program # us"
  by (rule crt_argv_command_line [OF assms])

theorem win_command_line_parses_witness:
  "\<exists>line us. command_line sample_win ''x/b.exe'' sample_args = Inr line \<and>
     list_all2 (\<lambda>a u. utf8_to_wide sample_win a = Inr u) sample_args us \<and> crt_argv line = lit ''x/b.exe'' # us"
proof -
  obtain line where l: "command_line sample_win ''x/b.exe'' sample_args = Inr line"
    using sample_command by (auto simp: sample_winproc_def sample_winfs_def)
  have u: "utf8_to_wide sample_win ''x/b.exe'' = Inr (lit ''x/b.exe'')"
    by (simp add: utf8_to_wide_def sample_win_def)
  have p: "wquote \<notin> set (lit ''x/b.exe'')" "lit ''x/b.exe'' = [] \<or> last (lit ''x/b.exe'') \<noteq> wslash"
    by (simp_all add: lit_def)
  from win_command_line_parses [OF l u p] l show ?thesis by blast
qed


lemma sample_entries_kept: "filter (\<lambda>e. \<not> win_private e) sample_entries = [lit ''=C:=C:'', lit ''PATH=x'']"
  by code_simp


end
