(* ===== verification/Windows_Http.thy ===== *)
theory Windows_Http
  imports Windows_Base Http
begin

text \<open>
  The HTTP client of \<^verbatim>\<open>src/src/win32.cpp\<close> over WinHTTP: the requests by host and
  path, by URL, and in plain HTTP for time stamps, each retried like on the other platforms. A
  request has three handles, closed in the opposite order on every way out. The functions of
  WinHTTP are a record of calls on the world. The property says that no request leaks a handle.
\<close>

section \<open>What lies below\<close>

datatype security_flag =
    SECURITY_FLAG_IGNORE_UNKNOWN_CA
  | SECURITY_FLAG_IGNORE_CERT_CN_INVALID
  | SECURITY_FLAG_IGNORE_CERT_DATE_INVALID
  | SECURITY_FLAG_IGNORE_CERT_WRONG_USAGE

record url_components =
  is_https :: bool
  url_host :: wide
  url_path :: wide
  url_extra :: wide

record 'w winhttp =
  wh_win :: win
  wh_net :: "'w net"
  wh_open :: "('w, nat) wincall"
  wh_connect :: "nat \<Rightarrow> wide \<Rightarrow> int \<Rightarrow> ('w, nat) wincall"
  wh_open_request :: "nat \<Rightarrow> wide \<Rightarrow> wide \<Rightarrow> bool \<Rightarrow> ('w, nat) wincall"
  wh_set_security_flags :: "nat \<Rightarrow> security_flag list \<Rightarrow> 'w \<Rightarrow> 'w"
  wh_add_header :: "nat \<Rightarrow> wide \<Rightarrow> 'w \<Rightarrow> 'w"
  wh_send :: "nat \<Rightarrow> string \<Rightarrow> ('w, unit) wincall"
  wh_receive :: "nat \<Rightarrow> ('w, unit) wincall"
  wh_status :: "nat \<Rightarrow> 'w \<Rightarrow> dword \<times> 'w"
  wh_query_data :: "nat \<Rightarrow> ('w, nat) wincall"
  wh_read_data :: "nat \<Rightarrow> nat \<Rightarrow> 'w \<Rightarrow> string \<times> 'w"
  wh_close :: "nat \<Rightarrow> 'w \<Rightarrow> 'w"
  wh_crack_url :: "wide \<Rightarrow> dword + url_components"

text \<open>A call whose failure is worth another attempt\<close>

definition transientP :: "('w, 'a) wincall \<Rightarrow> (dword \<Rightarrow> string) \<Rightarrow> ('w, 'a) prog" where
  "transientP call msg w =
     (case call w of
        (Inl e, w') \<Rightarrow> Some (Inl (Transient_error (msg e)), w')
      | (Inr x, w') \<Rightarrow> Some (Inr x, w'))"

section \<open>One request\<close>

definition apply_tls_insecure :: "'w winhttp \<Rightarrow> bool \<Rightarrow> nat \<Rightarrow> 'w \<Rightarrow> 'w" where
  "apply_tls_insecure wh insecure req w =
     (if \<not> insecure then w
      else wh_set_security_flags wh req
             [SECURITY_FLAG_IGNORE_UNKNOWN_CA, SECURITY_FLAG_IGNORE_CERT_CN_INVALID,
              SECURITY_FLAG_IGNORE_CERT_DATE_INVALID, SECURITY_FLAG_IGNORE_CERT_WRONG_USAGE] w)"

text \<open>
  The loop over the body. It ends when nothing is left and also when the query fails, and a read
  that fails adds what it has delivered.
\<close>

partial_function (option) wh_body_loop :: "'w winhttp \<Rightarrow> nat \<Rightarrow> string \<Rightarrow> 'w \<Rightarrow> (string \<times> 'w) option" where
  "wh_body_loop wh req response_body w =
     (case wh_query_data wh req w of
        (Inl _, w') \<Rightarrow> Some (response_body, w')
      | (Inr available, w') \<Rightarrow>
          if available = 0 then Some (response_body, w')
          else (case wh_read_data wh req available w' of
                  (d, w'') \<Rightarrow> wh_body_loop wh req (response_body @ d) w''))"

text \<open>Sending, receiving and reading, common to the three forms\<close>

definition wh_transfer :: "'w winhttp \<Rightarrow> nat \<Rightarrow> string \<Rightarrow> (dword \<Rightarrow> string) \<Rightarrow> ('w, HttpResponse) prog" where
  "wh_transfer wh req payload msg =
     bindP (transientP (wh_send wh req payload) msg) (\<lambda>_.
     bindP (transientP (wh_receive wh req) msg) (\<lambda>_ w.
       case wh_status wh req w of
         (code, w') \<Rightarrow>
           (case wh_body_loop wh req [] w' of
              None \<Rightarrow> None
            | Some (response_body, w'') \<Rightarrow> Some (Inr \<lparr>status = sint code, body = response_body\<rparr>, w''))))"

text \<open>Session, connection and request handle around it\<close>

definition with_request ::
  "'w winhttp \<Rightarrow> wide \<Rightarrow> int \<Rightarrow> string \<Rightarrow> wide \<Rightarrow> wide \<Rightarrow> bool \<Rightarrow> (nat \<Rightarrow> ('w, 'a) prog) \<Rightarrow> ('w, 'a) prog" where
  "with_request wh whost port label verb wpath secure f =
     bindP (winP (wh_open wh) (\<lambda>e. ''WinHttpOpen: '' @ win_error (wh_win wh) e)) (\<lambda>session.
     scoped (wh_close wh session) (
       bindP (transientP (wh_connect wh session whost port)
                (\<lambda>e. ''WinHttpConnect '' @ label @ '': '' @ win_error (wh_win wh) e)) (\<lambda>conn.
       scoped (wh_close wh conn) (
         bindP (winP (wh_open_request wh conn verb wpath secure)
                  (\<lambda>e. ''WinHttpOpenRequest: '' @ win_error (wh_win wh) e)) (\<lambda>req.
         scoped (wh_close wh req) (f req))))))"

definition winhttp_request ::
  "'w winhttp \<Rightarrow> bool \<Rightarrow> string \<Rightarrow> string \<Rightarrow> string \<Rightarrow> string \<Rightarrow> string option \<Rightarrow> ('w, HttpResponse) prog" where
  "winhttp_request wh insecure host path bearer_token verb payload =
     with_request wh (to_wide host) 443 host (to_wide verb) (to_wide path) True (\<lambda>req.
       bindP (doP (apply_tls_insecure wh insecure req)) (\<lambda>_.
       bindP (doP (wh_add_header wh req (lit ''Authorization: Bearer '' @ to_wide bearer_token))) (\<lambda>_.
       bindP (doP (\<lambda>w. if payload = None then w
                       else wh_add_header wh req (lit ''Content-Type: application/json; charset=utf-8'') w)) (\<lambda>_.
       wh_transfer wh req (case payload of None \<Rightarrow> [] | Some s \<Rightarrow> s)
         (\<lambda>e. ''WinHttp request to '' @ host @ '': '' @ win_error (wh_win wh) e)))))"

definition win_https_post :: "'w winhttp \<Rightarrow> bool \<Rightarrow> string \<Rightarrow> string \<Rightarrow> string \<Rightarrow> string \<Rightarrow> ('w, HttpResponse) prog" where
  "win_https_post wh insecure host path bearer_token json_body =
     retry_transient (wh_net wh) (winhttp_request wh insecure host path bearer_token ''POST'' (Some json_body))"

definition win_https_get :: "'w winhttp \<Rightarrow> bool \<Rightarrow> string \<Rightarrow> string \<Rightarrow> string \<Rightarrow> ('w, HttpResponse) prog" where
  "win_https_get wh insecure host path bearer_token =
     retry_transient (wh_net wh) (winhttp_request wh insecure host path bearer_token ''GET'' None)"

section \<open>Requests by URL\<close>

definition win_parse_https_url :: "'w winhttp \<Rightarrow> string \<Rightarrow> (wide \<times> wide) result" where
  "win_parse_https_url wh url =
     (case wh_crack_url wh (to_wide url) of
        Inl e \<Rightarrow> throw (''WinHttpCrackUrl on '' @ url @ '': '' @ win_error (wh_win wh) e)
      | Inr uc \<Rightarrow>
          if \<not> is_https uc then throw (''expected https:// URL, got: '' @ url)
          else (let path = url_path uc @ url_extra uc in
                Inr (url_host uc, if path = [] then lit ''/'' else path)))"

definition winhttp_url_request ::
  "'w winhttp \<Rightarrow> bool \<Rightarrow> string \<Rightarrow> wide \<Rightarrow> string option \<Rightarrow> string option \<Rightarrow> string option \<Rightarrow> ('w, HttpResponse) prog" where
  "winhttp_url_request wh insecure url verb bearer_token content_type payload =
     bindP (liftP (win_parse_https_url wh url)) (\<lambda>(whost, wpath).
     with_request wh whost 443 url verb wpath True (\<lambda>req.
       bindP (doP (apply_tls_insecure wh insecure req)) (\<lambda>_.
       bindP (doP (\<lambda>w. case bearer_token of None \<Rightarrow> w
                      | Some t \<Rightarrow> wh_add_header wh req (lit ''Authorization: Bearer '' @ to_wide t) w)) (\<lambda>_.
       bindP (doP (\<lambda>w. case content_type of None \<Rightarrow> w
                      | Some t \<Rightarrow> wh_add_header wh req (lit ''Content-Type: '' @ to_wide t) w)) (\<lambda>_.
       wh_transfer wh req (case payload of None \<Rightarrow> [] | Some s \<Rightarrow> s)
         (\<lambda>e. ''WinHttp request to '' @ url @ '': '' @ win_error (wh_win wh) e))))))"

definition win_https_get_url :: "'w winhttp \<Rightarrow> bool \<Rightarrow> string \<Rightarrow> string \<Rightarrow> ('w, HttpResponse) prog" where
  "win_https_get_url wh insecure url bearer_token =
     retry_transient (wh_net wh) (winhttp_url_request wh insecure url (lit ''GET'') (Some bearer_token) None None)"

definition win_https_post_url :: "'w winhttp \<Rightarrow> bool \<Rightarrow> string \<Rightarrow> string \<Rightarrow> string \<Rightarrow> ('w, HttpResponse) prog" where
  "win_https_post_url wh insecure url content_type payload =
     retry_transient (wh_net wh) (winhttp_url_request wh insecure url (lit ''POST'') None (Some content_type) (Some payload))"

section \<open>Plain HTTP\<close>

definition win_post_binary_once ::
  "'w winhttp \<Rightarrow> string \<Rightarrow> int \<Rightarrow> string \<Rightarrow> string \<Rightarrow> string \<Rightarrow> string \<Rightarrow> ('w, HttpResponse) prog" where
  "win_post_binary_once wh host port path content_type accept payload =
     (let label = host @ '':'' @ to_string_int port in
      with_request wh (to_wide host) (port mod 2 ^ 16) label (lit ''POST'') (to_wide path) False (\<lambda>req.
        bindP (doP (wh_add_header wh req (lit ''Content-Type: '' @ to_wide content_type))) (\<lambda>_.
        bindP (doP (\<lambda>w. if accept = [] then w else wh_add_header wh req (lit ''Accept: '' @ to_wide accept) w)) (\<lambda>_.
        wh_transfer wh req payload
          (\<lambda>e. ''WinHttp TSA request to '' @ label @ '': '' @ win_error (wh_win wh) e)))))"

definition win_http_post_binary ::
  "'w winhttp \<Rightarrow> string \<Rightarrow> int \<Rightarrow> string \<Rightarrow> string \<Rightarrow> string \<Rightarrow> string \<Rightarrow> ('w, HttpResponse) prog" where
  "win_http_post_binary wh host port path content_type accept payload =
     retry_transient (wh_net wh) (win_post_binary_once wh host port path content_type accept payload)"

section \<open>Handles\<close>

text \<open>
  The handles that are open: a call that opens one returns a new one, closing removes it, and no
  other call, nor the waiting and the messages between attempts, changes them.
\<close>

definition opens_handle :: "('w \<Rightarrow> nat set) \<Rightarrow> ('w, nat) wincall \<Rightarrow> bool" where
  "opens_handle handles call \<longleftrightarrow> (\<forall>w. case call w of
      (Inl _, w') \<Rightarrow> handles w' = handles w
    | (Inr h, w') \<Rightarrow> h \<notin> handles w \<and> handles w' = insert h (handles w))"

definition winhttp_contract :: "'w winhttp \<Rightarrow> ('w \<Rightarrow> nat set) \<Rightarrow> bool" where
  "winhttp_contract wh handles \<longleftrightarrow>
     opens_handle handles (wh_open wh) \<and> (\<forall>s h p. opens_handle handles (wh_connect wh s h p)) \<and>
     (\<forall>c v p sec. opens_handle handles (wh_open_request wh c v p sec)) \<and>
     (\<forall>h w. handles (wh_close wh h w) = handles w - {h}) \<and>
     (\<forall>r fl w. handles (wh_set_security_flags wh r fl w) = handles w) \<and>
     (\<forall>r t w. handles (wh_add_header wh r t w) = handles w) \<and>
     (\<forall>r s w. handles (snd (wh_send wh r s w)) = handles w) \<and>
     (\<forall>r w. handles (snd (wh_receive wh r w)) = handles w) \<and>
     (\<forall>r w. handles (snd (wh_status wh r w)) = handles w) \<and>
     (\<forall>r w. handles (snd (wh_query_data wh r w)) = handles w) \<and>
     (\<forall>r n w. handles (snd (wh_read_data wh r n w)) = handles w) \<and>
     (\<forall>n w. handles (sleep_ms (wh_net wh) n w) = handles w) \<and>
     (\<forall>s w. handles (write_stderr (wh_net wh) s w) = handles w)"

text \<open>A program that leaves the open handles as they were, whether it returns or throws\<close>

definition balanced :: "('w \<Rightarrow> nat set) \<Rightarrow> ('w, 'a) prog \<Rightarrow> bool" where
  "balanced handles m \<longleftrightarrow> (\<forall>S. keeps (\<lambda>w. handles w = S) m)"

lemma balancedD: "balanced handles m \<Longrightarrow> m w = Some (r, w') \<Longrightarrow> handles w' = handles w"
  by (auto simp: balanced_def keeps_def)

lemma balanced_bind: "balanced handles m \<Longrightarrow> (\<And>x. balanced handles (f x)) \<Longrightarrow> balanced handles (bindP m f)"
  by (simp add: balanced_def keeps_bind)

lemma balanced_basic: "balanced handles (retP x)" "balanced handles (liftP r)"
  by (simp_all add: balanced_def keeps_basic)

lemma balanced_doP: "(\<And>w. handles (g w) = handles w) \<Longrightarrow> balanced handles (doP g)"
  by (simp add: balanced_def keeps_doP)

lemma balanced_transientP: "(\<And>w. handles (snd (call w)) = handles w) \<Longrightarrow> balanced handles (transientP call msg)"
  by (auto simp: balanced_def keeps_def transientP_def split: prod.splits sum.splits) (metis snd_conv)+

text \<open>A handle in its scope\<close>

lemma balanced_scope:
  assumes "opens_handle handles call" "\<And>h w. handles (wh_close wh h w) = handles w - {h}"
    and "\<And>h. balanced handles (f h)"
    and "m = winP call msg \<or> m = transientP call msg"
  shows "balanced handles (bindP m (\<lambda>h. scoped (wh_close wh h) (f h)))"
  unfolding balanced_def keeps_def
proof (intro allI impI)
  fix S w r w'
  assume S: "handles w = S" and run: "bindP m (\<lambda>h. scoped (wh_close wh h) (f h)) w = Some (r, w')"
  obtain x u where c: "call w = (x, u)" by fastforce
  note o = assms(1) [unfolded opens_handle_def, rule_format, of w, unfolded c]
  show "handles w' = S"
  proof (cases x)
    case (Inl e)
    with c run assms(4) have "w' = u" by (auto simp: bindP_def winP_def transientP_def)
    with o Inl S show ?thesis by simp
  next
    case (Inr h)
    with c run assms(4) obtain v where v: "f h u = Some (r, v)" "w' = wh_close wh h v"
      by (auto simp: bindP_def winP_def transientP_def scoped_Some_iff)
    have "handles v = handles u" by (rule balancedD [OF assms(3) v(1)])
    with o Inr S v(2) assms(2) show ?thesis by auto
  qed
qed

lemmas balanced_scopes =
  balanced_scope [where m = "winP call msg" for call msg, OF _ _ _ disjI1 [OF refl]]
  balanced_scope [where m = "transientP call msg" for call msg, OF _ _ _ disjI2 [OF refl]]

lemma winhttp_contractD:
  assumes "winhttp_contract wh handles"
  shows "handles (wh_close wh h w) = handles w - {h}" "handles (wh_set_security_flags wh h fl w) = handles w"
    "handles (wh_add_header wh h t w) = handles w" "handles (snd (wh_send wh h s w)) = handles w"
    "handles (snd (wh_receive wh h w)) = handles w" "handles (snd (wh_status wh h w)) = handles w"
    "handles (snd (wh_query_data wh h w)) = handles w" "handles (snd (wh_read_data wh h n w)) = handles w"
    "handles (sleep_ms (wh_net wh) n w) = handles w" "handles (write_stderr (wh_net wh) s w) = handles w"
  using assms by (simp_all add: winhttp_contract_def)

lemma wh_body_loop_handles:
  assumes "winhttp_contract wh handles"
  shows "wh_body_loop wh req acc w = Some rw \<Longrightarrow> handles (snd rw) = handles w"
proof -
  assume run: "wh_body_loop wh req acc w = Some rw"
  have "winhttp_contract wh handles \<longrightarrow> handles (snd rw) = handles w"
  proof (rule wh_body_loop.raw_induct [where P = "\<lambda>wh req acc w rw. winhttp_contract wh handles \<longrightarrow>
      handles (snd rw) = handles w", OF _ run], goal_cases)
    case (1 f wh req acc w rw)
    obtain r w1 where q: "wh_query_data wh req w = (r, w1)" by fastforce
    note run = 1(2) [unfolded q prod.case]
    show ?case
    proof
      assume c: "winhttp_contract wh handles"
      have h: "handles w1 = handles w" using winhttp_contractD(7) [OF c, of req w] q by simp
      show "handles (snd rw) = handles w"
      proof (cases r)
        case (Inl e)
        from run Inl have "rw = (acc, w1)" by simp
        with h show ?thesis by simp
      next
        case (Inr n)
        show ?thesis
        proof (cases "n = 0")
          case True
          from run Inr True have "rw = (acc, w1)" by simp
          with h show ?thesis by simp
        next
          case False
          obtain d w2 where d: "wh_read_data wh req n w1 = (d, w2)" by fastforce
          have h2: "handles w2 = handles w1" using winhttp_contractD(8) [OF c, of req n w1] d by simp
          from run Inr False d have "f wh req (acc @ d) w2 = Some rw" by simp
          from 1(1) [OF this] c h h2 show ?thesis by simp
        qed
      qed
    qed
  qed
  with assms show ?thesis by blast
qed

lemma balanced_transfer:
  assumes "winhttp_contract wh handles"
  shows "balanced handles (wh_transfer wh req payload msg)"
proof -
  have "balanced handles (\<lambda>w. case wh_status wh req w of (code, w') \<Rightarrow>
      (case wh_body_loop wh req [] w' of None \<Rightarrow> None
       | Some (response_body, w'') \<Rightarrow> Some (Inr \<lparr>status = sint code, body = response_body\<rparr>, w'')))"
    unfolding balanced_def keeps_def
  proof (intro allI impI, goal_cases)
    case (1 S w r w')
    obtain code u where s: "wh_status wh req w = (code, u)" by fastforce
    with winhttp_contractD(6) [OF assms, of req w] have "handles u = handles w" by simp
    with 1 s wh_body_loop_handles [OF assms] show ?case by (fastforce split: option.splits)
  qed
  then show ?thesis
    unfolding wh_transfer_def by (intro balanced_bind balanced_transientP winhttp_contractD [OF assms])
qed

lemma balanced_with_request:
  assumes "winhttp_contract wh handles" "\<And>req. balanced handles (f req)"
  shows "balanced handles (with_request wh whost port label verb wpath secure f)"
  unfolding with_request_def
  by (rule balanced_scopes | rule assms(2) | (insert assms(1) [unfolded winhttp_contract_def], simp; fail))+

lemma balanced_retry:
  assumes "winhttp_contract wh handles" "balanced handles op"
  shows "balanced handles (retry_transient (wh_net wh) op)"
proof -
  have "retry_loop (wh_net wh) op m a w = Some (r, w') \<Longrightarrow> handles w' = handles w" for m a w r w'
  proof (induction "nat (m - a)" arbitrary: a w rule: less_induct)
    case less
    show ?case
    proof (cases "\<exists>e w1. op w = Some (Inl (Transient_error e), w1) \<and> a < m")
      case True
      then obtain e w1 where o: "op w = Some (Inl (Transient_error e), w1)" and a: "a < m" by blast
      let ?u = "sleep_ms (wh_net wh) (nat (a * 2) * 1000) (write_stderr (wh_net wh) (retry_message e a m) w1)"
      have "retry_loop (wh_net wh) op m (a + 1) ?u = Some (r, w')"
        using less.prems o a by (subst (asm) retry_loop.simps) simp
      with less.hyps [of "a + 1" ?u] a have "handles w' = handles ?u" by simp
      also have "\<dots> = handles w1" using assms(1) by (simp add: winhttp_contract_def)
      also have "\<dots> = handles w" by (rule balancedD [OF assms(2) o])
      finally show ?thesis .
    next
      case False
      then have "op w = Some (r, w')"
        using less.prems by (subst (asm) retry_loop.simps) (auto split: option.splits prod.splits sum.splits exn.splits if_splits)
      then show ?thesis by (rule balancedD [OF assms(2)])
    qed
  qed
  then show ?thesis by (auto simp: balanced_def keeps_def retry_transient_def)
qed

lemma balanced_requests:
  assumes "winhttp_contract wh handles"
  shows "balanced handles (winhttp_request wh insecure host path bearer_token verb payload)"
    "balanced handles (winhttp_url_request wh insecure url wverb bearer content_type payload)"
    "balanced handles (win_post_binary_once wh host port path content accept payload_bytes)"
proof -
  have set_flags: "handles (apply_tls_insecure wh insecure req w) = handles w" for req w
    by (simp add: apply_tls_insecure_def winhttp_contractD [OF assms])
  note rules = balanced_with_request [OF assms] balanced_bind balanced_basic balanced_doP balanced_transfer [OF assms]
  show "balanced handles (winhttp_request wh insecure host path bearer_token verb payload)"
    unfolding winhttp_request_def by (intro rules) (simp_all add: set_flags winhttp_contractD [OF assms])
  show "balanced handles (winhttp_url_request wh insecure url wverb bearer content_type payload)"
    unfolding winhttp_url_request_def case_prod_unfold
    by (intro rules) (simp_all add: set_flags winhttp_contractD [OF assms] split: option.split)
  show "balanced handles (win_post_binary_once wh host port path content accept payload_bytes)"
    unfolding win_post_binary_once_def Let_def by (intro rules) (simp_all add: winhttp_contractD [OF assms])
qed

text \<open>What is done of the body when the connection breaks: it counts as complete\<close>

lemma broken_body_accepted:
  assumes "wh_query_data wh req w = (Inr n, w1)" "n \<noteq> 0" "wh_read_data wh req n w1 = (d, w2)"
    and "wh_query_data wh req w2 = (Inl e, w3)"
  shows "wh_body_loop wh req [] w = Some (d, w3)"
  using assms by (simp add: wh_body_loop.simps)

section \<open>Properties\<close>

text \<open>
  C36: no request of Windows leaks a handle. Whatever call of WinHTTP fails, in whatever attempt, and
  also after a success, the open handles are those of before, for each of the five requests of the
  platform interface.
\<close>

theorem winhttp_closes_handles:
  assumes "winhttp_contract wh handles"
    and "req \<in> {win_https_post wh insecure host path bearer payload, win_https_get wh insecure host path bearer,
      win_https_get_url wh insecure url bearer, win_https_post_url wh insecure url content_type payload,
      win_http_post_binary wh host port path content_type accept payload}"
    and "req w = Some (r, w')"
  shows "handles w' = handles w"
proof -
  have "balanced handles req"
    using assms(2)
    by (auto simp: win_https_post_def win_https_get_def win_https_get_url_def win_https_post_url_def win_http_post_binary_def
        intro!: balanced_retry [OF assms(1)] balanced_requests [OF assms(1)])
  then show ?thesis by (rule balancedD) (rule assms(3))
qed

section \<open>A concrete service\<close>

text \<open>The world is the list of the open handles; the connection is refused\<close>

definition sample_wh_net :: "nat list net" where
  "sample_wh_net =
     \<lparr>sleep_ms = (\<lambda>n w. w), steady_now = (\<lambda>w. 0), write_stderr = (\<lambda>s w. w), tls_connect = (\<lambda>h. retP ()),
      tls_close = (\<lambda>w. w), ssl_write = (\<lambda>s w. (0, w)), ssl_read = (\<lambda>w. ((0, []), w)), tls_wants_io = (\<lambda>i. False),
      tls_received_session_ticket = (\<lambda>i. False), PEER_CLOSE_NOTIFY = 0, mbed_error = (\<lambda>i. []),
      getaddrinfo = (\<lambda>h p w. (Inl [], w)), socket_connect = (\<lambda>a w. (False, w)), sock_write = (\<lambda>s w. (0, w)),
      sock_read = (\<lambda>w. ((0, []), w)), sock_close = (\<lambda>w. w)\<rparr>"

definition new_handle :: "(nat list, nat) wincall" where
  "new_handle w = (Inr (sum_list w + 1), (sum_list w + 1) # w)"

definition sample_winhttp :: "nat list winhttp" where
  "sample_winhttp =
     \<lparr>wh_win = \<lparr>winhttp_module = False, format_message = (\<lambda>_ _. None), lenient_utf8 = (\<lambda>_. []),
        decode_utf8 = (\<lambda>s. None), encode_utf8 = (\<lambda>u. Inl 1113)\<rparr>,
      wh_net = sample_wh_net, wh_open = new_handle, wh_connect = (\<lambda>s h p. new_handle),
      wh_open_request = (\<lambda>c v p sec. new_handle), wh_set_security_flags = (\<lambda>r fl w. w), wh_add_header = (\<lambda>r t w. w),
      wh_send = (\<lambda>r s w. (Inl 12029, w)), wh_receive = (\<lambda>r w. (Inr (), w)), wh_status = (\<lambda>r w. (200, w)),
      wh_query_data = (\<lambda>r w. (Inr 0, w)), wh_read_data = (\<lambda>r n w. ([], w)), wh_close = (\<lambda>h w. filter (\<lambda>k. k \<noteq> h) w),
      wh_crack_url = (\<lambda>u. Inl 12006)\<rparr>"

lemma new_handle_opens: "opens_handle set new_handle"
proof -
  have "x \<in> set w \<Longrightarrow> x \<le> sum_list w" for x :: nat and w by (rule member_le_sum_list) simp_all
  then show ?thesis by (auto simp: opens_handle_def new_handle_def dest!: Suc_le_lessD)
qed

lemma sample_winhttp_contract: "winhttp_contract sample_winhttp set"
  by (auto simp: winhttp_contract_def sample_winhttp_def sample_wh_net_def new_handle_opens)

lemma sample_refused:
  "winhttp_request sample_winhttp False ''h'' ''/'' ''t'' ''GET'' None [4] =
     Some (Inl (Transient_error (''WinHttp request to h: '' @ win_error (wh_win sample_winhttp) 12029)), [4])"
  by (simp add: winhttp_request_def with_request_def bindP_def winP_def transientP_def scoped_def wh_transfer_def
      apply_tls_insecure_def sample_winhttp_def new_handle_def)

lemma sample_wh_get:
  "win_https_get sample_winhttp False ''h'' ''/'' ''t'' [4] =
     Some (Inl (Transient_error (''WinHttp request to h: '' @ win_error (wh_win sample_winhttp) 12029)), [4])"
proof -
  let ?op = "winhttp_request sample_winhttp False ''h'' ''/'' ''t'' ''GET'' None"
  have n: "sleep_ms (wh_net sample_winhttp) k w = w" "write_stderr (wh_net sample_winhttp) m w = w" for k m w
    by (simp_all add: sample_winhttp_def sample_wh_net_def)
  have again: "retry_loop (wh_net sample_winhttp) ?op 3 a [4] = retry_loop (wh_net sample_winhttp) ?op 3 (a + 1) [4]" if "a < 3" for a
    using retry_again [where op = ?op and w = "[4]" and net = "wh_net sample_winhttp", OF sample_refused that] by (simp only: n)
  have "retry_loop (wh_net sample_winhttp) ?op 3 1 [4] = retry_loop (wh_net sample_winhttp) ?op 3 3 [4]"
    using again [of 1] again [of 2] by simp
  also have "\<dots> = ?op [4]" by (rule retry_stop) simp
  finally show ?thesis by (simp add: win_https_get_def retry_transient_def sample_refused)
qed

theorem winhttp_closes_handles_witness:
  "case win_https_get sample_winhttp False ''h'' ''/'' ''t'' [4] of
     Some (Inl (Transient_error e), w') \<Rightarrow> set w' = {4} | _ \<Rightarrow> False"
proof -
  have "win_https_get sample_winhttp False ''h'' ''/'' ''t'' \<in>
      {win_https_post sample_winhttp False ''h'' ''/'' ''t'' [], win_https_get sample_winhttp False ''h'' ''/'' ''t'',
       win_https_get_url sample_winhttp False [] ''t'', win_https_post_url sample_winhttp False [] [] [],
       win_http_post_binary sample_winhttp ''h'' 80 ''/'' [] [] []}" by simp
  from winhttp_closes_handles [OF sample_winhttp_contract this sample_wh_get] show ?thesis by (simp add: sample_wh_get)
qed

end
