(* ===== verification/Windows_Shell.thy ===== *)
theory Windows_Shell
  imports Windows_Process Loopback
begin

text \<open>
  The rest of \<^verbatim>\<open>src/src/win32.cpp\<close>: the output to consoles and files, the
  loopback server over Winsock, the start of a browser, the configuration directory, and the entry
  point, which converts the command line to UTF-8.
\<close>

section \<open>What lies below\<close>

text \<open>
  \<open>decode_lenient\<close> and \<open>encode_lenient\<close> are the conversions that replace invalid text, empty
  on failure; \<open>ws_client\<close> is the client socket of the server object, and \<open>wsa_started\<close> the static
  flag of \<^verbatim>\<open>wsa_startup_once\<close>.
\<close>

record 'w winshell =
  ws_proc :: "'w winproc"
  get_std_handle :: "bool \<Rightarrow> nat option"
  has_console_mode :: "nat \<Rightarrow> bool"
  decode_lenient :: "string \<Rightarrow> wide"
  encode_lenient :: "wide \<Rightarrow> string"
  write_console :: "nat \<Rightarrow> wide \<Rightarrow> ('w, nat) wincall"
  set_console_utf8 :: "'w \<Rightarrow> 'w"
  command_line_arguments :: "dword + wide list"
  encode_argument :: "wide \<Rightarrow> string option"
  shell_execute :: "wide \<Rightarrow> 'w \<Rightarrow> int \<times> 'w"
  appdata_folder :: "dword + wide"
  wsa_started :: "'w \<Rightarrow> bool"
  set_wsa_started :: "'w \<Rightarrow> 'w"
  wsa_startup :: "'w \<Rightarrow> dword \<times> 'w"
  ws_socket :: "('w, nat) wincall"
  ws_reuse_address :: "nat \<Rightarrow> 'w \<Rightarrow> 'w"
  ws_bind :: "nat \<Rightarrow> ('w, unit) wincall"
  ws_getsockname :: "nat \<Rightarrow> ('w, nat) wincall"
  ws_listen :: "nat \<Rightarrow> ('w, unit) wincall"
  ws_accept :: "nat \<Rightarrow> ('w, nat) wincall"
  ws_recv :: "nat \<Rightarrow> nat \<Rightarrow> ('w, string) wincall"
  ws_send :: "nat \<Rightarrow> string \<Rightarrow> ('w, nat) wincall"
  ws_close :: "nat \<Rightarrow> 'w \<Rightarrow> 'w"
  ws_client :: "'w \<Rightarrow> nat option"
  set_ws_client :: "nat option \<Rightarrow> 'w \<Rightarrow> 'w"

abbreviation ws_win :: "'w winshell \<Rightarrow> win" where
  "ws_win ws \<equiv> wp_win (ws_proc ws)"

abbreviation ws_fs :: "'w winshell \<Rightarrow> 'w winfs" where
  "ws_fs ws \<equiv> wp_fs (ws_proc ws)"

section \<open>Output\<close>

text \<open>The two loops: they end when a call fails or writes nothing\<close>

function console_loop :: "'w winshell \<Rightarrow> nat \<Rightarrow> wide \<Rightarrow> 'w \<Rightarrow> 'w" where
  "console_loop ws h p w =
     (if p = [] then w
      else case write_console ws h p w of
        (Inl _, w') \<Rightarrow> w'
      | (Inr written, w') \<Rightarrow> if written = 0 then w' else console_loop ws h (drop written p) w')"
  by pat_completeness auto
termination
  by (relation "measure (\<lambda>(ws, h, p, w). length p)") auto

function redirected_loop :: "'w winshell \<Rightarrow> nat \<Rightarrow> bytes \<Rightarrow> 'w \<Rightarrow> 'w" where
  "redirected_loop ws h p w =
     (if p = [] then w
      else case write_file (ws_fs ws) h p w of
        (Inl _, w') \<Rightarrow> w'
      | (Inr written, w') \<Rightarrow> if written = 0 then w' else redirected_loop ws h (drop written p) w')"
  by pat_completeness auto
termination
  by (relation "measure (\<lambda>(ws, h, p, w). length p)") auto

declare console_loop.simps [simp del] redirected_loop.simps [simp del]

definition write_handle_all :: "'w winshell \<Rightarrow> bool \<Rightarrow> string \<Rightarrow> 'w \<Rightarrow> 'w" where
  "write_handle_all ws err text w =
     (case get_std_handle ws err of
        None \<Rightarrow> w
      | Some h \<Rightarrow>
          if has_console_mode ws h
          then (if text = [] then w else console_loop ws h (decode_lenient ws text) w)
          else redirected_loop ws h (bytes_of_string text) w)"

definition win_write_stdout :: "'w winshell \<Rightarrow> string \<Rightarrow> 'w \<Rightarrow> 'w" where
  "win_write_stdout ws = write_handle_all ws False"

definition win_write_stderr :: "'w winshell \<Rightarrow> string \<Rightarrow> 'w \<Rightarrow> 'w" where
  "win_write_stderr ws = write_handle_all ws True"

definition win_set_ca_bundle :: "'w winshell \<Rightarrow> string \<Rightarrow> 'w \<Rightarrow> 'w" where
  "win_set_ca_bundle ws path =
     win_write_stderr ws
       (''warning: --cacert '' @ path @ '' has no effect on Windows; WinHTTP verifies against '' @
        ''the system certificate store'' @ [CHR 0x0A])"

section \<open>The loopback server\<close>

definition wsa_startup_once :: "'w winshell \<Rightarrow> ('w, unit) prog" where
  "wsa_startup_once ws w =
     (if wsa_started ws w then Some (Inr (), w)
      else case wsa_startup ws w of
        (r, w') \<Rightarrow>
          if r \<noteq> 0 then Some (throw (''WSAStartup failed: '' @ win_error (ws_win ws) r), w')
          else Some (Inr (), set_wsa_started ws w'))"

definition ws_or_close :: "'w winshell \<Rightarrow> nat \<Rightarrow> ('w, 'a) wincall \<Rightarrow> string \<Rightarrow> ('w, 'a) prog" where
  "ws_or_close ws s call label =
     on_throw (ws_close ws s) (winP call (\<lambda>e. label @ win_error (ws_win ws) e))"

definition win_loopback_server :: "'w winshell \<Rightarrow> ('w, LoopbackServer) prog" where
  "win_loopback_server ws =
     bindP (doP (set_ws_client ws None)) (\<lambda>_.
     bindP (wsa_startup_once ws) (\<lambda>_.
     bindP (winP (ws_socket ws) (\<lambda>e. ''socket: '' @ win_error (ws_win ws) e)) (\<lambda>s.
     bindP (doP (ws_reuse_address ws s)) (\<lambda>_.
     bindP (ws_or_close ws s (ws_bind ws s) ''bind loopback: '') (\<lambda>_.
     bindP (ws_or_close ws s (ws_getsockname ws s) ''getsockname: '') (\<lambda>port.
     bindP (ws_or_close ws s (ws_listen ws s) ''listen: '') (\<lambda>_.
     retP \<lparr>lbs_fd = s, lbs_port = port\<rparr>)))))))"

definition win_close_loopback :: "'w winshell \<Rightarrow> LoopbackServer \<Rightarrow> 'w \<Rightarrow> 'w" where
  "win_close_loopback ws server w =
     ws_close ws (lbs_fd server) (case ws_client ws w of None \<Rightarrow> w | Some c \<Rightarrow> ws_close ws c w)"

definition with_win_loopback :: "'w winshell \<Rightarrow> (LoopbackServer \<Rightarrow> ('w, 'a) prog) \<Rightarrow> ('w, 'a) prog" where
  "with_win_loopback ws f =
     bindP (win_loopback_server ws) (\<lambda>server. scoped (win_close_loopback ws server) (f server))"

partial_function (option) win_accept_loop :: "'w winshell \<Rightarrow> nat \<Rightarrow> string \<Rightarrow> 'w \<Rightarrow> (string result \<times> 'w) option" where
  "win_accept_loop ws c buf w =
     (if \<not> (find_str buf (crlf @ crlf) 0 = None \<and> length buf < 16384) then Some (Inr buf, w)
      else case ws_recv ws c 4096 w of
        (Inl e, w') \<Rightarrow> Some (throw (''recv: '' @ win_error (ws_win ws) e), w')
      | (Inr tmp, w') \<Rightarrow> if tmp = [] then Some (Inr buf, w') else win_accept_loop ws c (buf @ tmp) w')"

definition win_accept_request :: "'w winshell \<Rightarrow> LoopbackServer \<Rightarrow> ('w, string) prog" where
  "win_accept_request ws server =
     bindP (winP (ws_accept ws (lbs_fd server)) (\<lambda>e. ''accept: '' @ win_error (ws_win ws) e)) (\<lambda>c.
     bindP (doP (set_ws_client ws (Some c))) (\<lambda>_.
     bindP (win_accept_loop ws c []) (\<lambda>buf. liftP (request_target buf))))"

partial_function (option) win_respond_loop :: "'w winshell \<Rightarrow> nat \<Rightarrow> string \<Rightarrow> 'w \<Rightarrow> (unit result \<times> 'w) option" where
  "win_respond_loop ws c s w =
     (if s = [] then Some (Inr (), w)
      else case ws_send ws c s w of
        (Inl e, w') \<Rightarrow> Some (throw (''send: '' @ win_error (ws_win ws) e), w')
      | (Inr n, w') \<Rightarrow> win_respond_loop ws c (drop n s) w')"

definition win_respond :: "'w winshell \<Rightarrow> string \<Rightarrow> ('w, unit) prog" where
  "win_respond ws html w =
     (case ws_client ws w of
        None \<Rightarrow> Some (throw ''respond() before accept_request()'', w)
      | Some c \<Rightarrow>
          bindP (win_respond_loop ws c (response_page html)) (\<lambda>_.
          bindP (doP (ws_close ws c)) (\<lambda>_. doP (set_ws_client ws None))) w)"

section \<open>Browser, configuration directory and entry point\<close>

text \<open>The result of \<^verbatim>\<open>ShellExecuteW\<close> is its error when it is at most 32\<close>

definition win_launch_browser :: "'w winshell \<Rightarrow> string \<Rightarrow> ('w, unit) prog" where
  "win_launch_browser ws url w =
     (case shell_execute ws (to_wide url) w of
        (code, w') \<Rightarrow>
          if code \<le> 32
          then Some (throw (''ShellExecuteW on '' @ url @ '': '' @ win_error (ws_win ws) (word_of_int code)), w')
          else Some (Inr (), w'))"

text \<open>
  The name is made in UTF-8, but the directory is created under that name widened byte by byte
\<close>

definition win_config_dir :: "'w winshell \<Rightarrow> ('w, string) prog" where
  "win_config_dir ws w =
     (case appdata_folder ws of
        Inl hr \<Rightarrow> Some (throw (''SHGetFolderPathW failed: '' @ win_error (ws_win ws) hr), w)
      | Inr folder \<Rightarrow>
          (let dir = encode_lenient ws folder @ CHR 0x5C # ''aas-sign'' in
           case create_directory (ws_proc ws) (to_wide dir) None w of
             (Inl e, w') \<Rightarrow>
               if e \<noteq> ERROR_ALREADY_EXISTS then Some (throw (wp_msg (ws_proc ws) ''CreateDirectoryW'' dir e), w')
               else Some (Inr dir, w')
           | (Inr _, w') \<Rightarrow> Some (Inr dir, w')))"

text \<open>The arguments in UTF-8, or the index of the first that cannot be converted\<close>

primrec encode_arguments :: "'w winshell \<Rightarrow> nat \<Rightarrow> wide list \<Rightarrow> nat + string list" where
  "encode_arguments ws i [] = Inr []"
| "encode_arguments ws i (a # as) =
     (case encode_argument ws a of
        None \<Rightarrow> Inl i
      | Some s \<Rightarrow> (case encode_arguments ws (i + 1) as of Inl k \<Rightarrow> Inl k | Inr ss \<Rightarrow> Inr (s # ss)))"

definition win_main :: "'w winshell \<Rightarrow> (string list \<Rightarrow> ('w, int) prog) \<Rightarrow> ('w, int) prog" where
  "win_main ws app =
     (case command_line_arguments ws of
        Inl e \<Rightarrow>
          bindP (doP (win_write_stderr ws (''CommandLineToArgvW failed: '' @ win_error (ws_win ws) e @ [CHR 0x0A]))) (\<lambda>_. retP 1)
      | Inr wargs \<Rightarrow>
          (case encode_arguments ws 0 wargs of
             Inl i \<Rightarrow>
               bindP (doP (win_write_stderr ws (''WideCharToMultiByte failed on arg '' @ to_string_nat i @ [CHR 0x0A]))) (\<lambda>_. retP 1)
           | Inr args \<Rightarrow> bindP (doP (set_console_utf8 ws)) (\<lambda>_. app args)))"

section \<open>Lemmas\<close>

text \<open>Widening agrees with the conversion exactly on ASCII text\<close>

lemma to_wide_ascii:
  assumes "list_all (\<lambda>c. of_char c < (128 :: nat)) s"
  shows "to_wide s = lit s"
proof -
  have a: "list_all (\<lambda>n. scast (byte_of_char (char_of n)) = (of_char (char_of n) :: 16 word)) [0..<128]"
    by code_simp
  have "scast (byte_of_char c) = (of_char c :: 16 word)" if "of_char c < (128 :: nat)" for c
    using a that unfolding list_all_iff by (metis atLeastLessThan_upt atLeast0LessThan lessThan_iff char_of_char)
  with assms show ?thesis by (simp add: to_wide_def lit_def list_all_iff)
qed

text \<open>A sequence of UTF-8 of more than one byte has fewer code units than bytes\<close>

definition utf8_shrinks :: "win \<Rightarrow> bool" where
  "utf8_shrinks win \<longleftrightarrow> (\<forall>s u. decode_utf8 win s = Some u \<longrightarrow> length u = length s \<longrightarrow>
     list_all (\<lambda>c. of_char c < (128 :: nat)) s)"

lemma to_wide_is_decoding:
  assumes "utf8_contract win" "utf8_shrinks win" "s \<noteq> []" "length s \<le> 0x7FFFFFFF"
  shows "utf8_to_wide win s = Inr (to_wide s) \<longleftrightarrow> list_all (\<lambda>c. of_char c < (128 :: nat)) s"
proof
  assume "utf8_to_wide win s = Inr (to_wide s)"
  with assms(3) have "decode_utf8 win s = Some (to_wide s)"
    by (auto simp: utf8_to_wide_def split: if_splits option.splits)
  with assms(2) show "list_all (\<lambda>c. of_char c < (128 :: nat)) s" by (simp add: utf8_shrinks_def to_wide_def)
next
  assume a: "list_all (\<lambda>c. of_char c < (128 :: nat)) s"
  with assms(1) have "decode_utf8 win s = Some (lit s)" by (simp add: utf8_contract_def)
  with assms(3,4) to_wide_ascii [OF a] show "utf8_to_wide win s = Inr (to_wide s)" by (simp add: utf8_to_wide_def)
qed

section \<open>Properties\<close>


section \<open>A concrete system\<close>

definition sample_winshell :: "sample_winfiles winshell" where
  "sample_winshell =
     \<lparr>ws_proc = sample_winproc, get_std_handle = (\<lambda>e. None), has_console_mode = (\<lambda>h. False), decode_lenient = lit,
      encode_lenient = (\<lambda>u. map (\<lambda>c. char_of (unat c)) u), write_console = (\<lambda>h t w. (Inr (length t), w)),
      set_console_utf8 = (\<lambda>w. w), command_line_arguments = Inr [], encode_argument = (\<lambda>u. None),
      shell_execute = (\<lambda>u w. (42, w)), appdata_folder = Inr [0xFC], wsa_started = (\<lambda>w. True), set_wsa_started = (\<lambda>w. w),
      wsa_startup = (\<lambda>w. (0, w)), ws_socket = (\<lambda>w. (Inl 5, w)), ws_reuse_address = (\<lambda>s w. w), ws_bind = (\<lambda>s w. (Inl 5, w)),
      ws_getsockname = (\<lambda>s w. (Inl 5, w)), ws_listen = (\<lambda>s w. (Inl 5, w)), ws_accept = (\<lambda>s w. (Inl 5, w)),
      ws_recv = (\<lambda>s n w. (Inl 5, w)), ws_send = (\<lambda>s t w. (Inl 5, w)), ws_close = (\<lambda>s w. w), ws_client = (\<lambda>w. None),
      set_ws_client = (\<lambda>c w. w)\<rparr>"

lemma sample_utf8_shrinks: "utf8_shrinks sample_win"
  by (auto simp: utf8_shrinks_def sample_win_def)

abbreviation sample_dir :: string where
  "sample_dir \<equiv> CHR 0xFC # CHR 0x5C # ''aas-sign''"

lemma sample_config_dir: "win_config_dir sample_winshell (Map.empty, Map.empty) = Some (Inr sample_dir, (Map.empty, Map.empty))"
  by (simp add: win_config_dir_def sample_winshell_def sample_winproc_def) code_simp


end
